(* ===== verification/Prelude.thy ===== *)
theory Prelude
  imports Main "HOL-Library.Word"
begin

text \<open>
  Shared vocabulary of the development: the machine types of the C++ sources, the outcomes a
  C++ call can have besides returning, the state-and-fault computations in which the operations
  that talk to Redis are written, decimal printing (\<^verbatim>\<open>std::to_string\<close>,
  \<^verbatim>\<open>std::format("{}", n)\<close>), and the byte/string conversions. The lemmas are collected
  in \<open>comp_simps\<close> (unfolding computations) and \<open>str_simps\<close> (strings and bytes).
\<close>

unbundle bit_operations_syntax

named_theorems comp_simps "unfolding rules for state-and-fault computations"
named_theorems str_simps "strings, bytes and decimal numerals"

section \<open>Machine types\<close>

type_synonym byte = "8 word"
type_synonym int32 = "32 word"
type_synonym uint32 = "32 word"
type_synonym uint64 = "64 word"
type_synonym token = "64 word"

lemma sint_eq_iff [simp]: "sint (x :: int32) = sint y \<longleftrightarrow> x = y"
  using signed_word_eqI by blast

section \<open>Outcomes other than a return\<close>

text \<open>
  \<open>RedisError\<close>: an exception of \<^verbatim>\<open>sw::redis::Error\<close>; \<open>RuntimeError\<close>,
  \<open>InvalidArgument\<close>, \<open>OutOfRange\<close>: the standard exceptions of those names;
  \<open>SystemError\<close>: a throwing overload of boost::asio; \<open>Undefined\<close>: the program has no
  defined behaviour from here on (the dereference of an empty \<^verbatim>\<open>std::optional\<close>);
  \<open>Terminated\<close>: \<^verbatim>\<open>std::terminate\<close>; \<open>OutOfFuel\<close>: a bounded unrolling of a
  loop ended before the loop did (never a behaviour of the program; see \<open>Scan_loop\<close>).
\<close>

datatype fault =
    RedisError string
  | RuntimeError string
  | InvalidArgument
  | OutOfRange
  | SystemError string
  | Undefined string
  | Terminated
  | OutOfFuel

section \<open>Computations with state and faults\<close>

text \<open>
  A fault keeps the state reached so far: the writes a handler made to Redis before an exception
  are not undone.
\<close>

type_synonym ('s, 'a) comp = "'s \<Rightarrow> (fault + 'a) \<times> 's"

definition ret :: "'a \<Rightarrow> ('s, 'a) comp" where
  "ret a = (\<lambda>s. (Inr a, s))"

definition raise :: "fault \<Rightarrow> ('s, 'a) comp" where
  "raise e = (\<lambda>s. (Inl e, s))"

definition bindM :: "('s, 'a) comp \<Rightarrow> ('a \<Rightarrow> ('s, 'b) comp) \<Rightarrow> ('s, 'b) comp" where
  "bindM m f = (\<lambda>s. case fst (m s) of Inl e \<Rightarrow> (Inl e, snd (m s)) | Inr a \<Rightarrow> f a (snd (m s)))"

definition seqM :: "('s, 'a) comp \<Rightarrow> ('s, 'b) comp \<Rightarrow> ('s, 'b) comp" where
  "seqM m k = bindM m (\<lambda>_. k)"

definition gets :: "('s \<Rightarrow> 'a) \<Rightarrow> ('s, 'a) comp" where
  "gets f = (\<lambda>s. (Inr (f s), s))"

definition modify :: "('s \<Rightarrow> 's) \<Rightarrow> ('s, unit) comp" where
  "modify f = (\<lambda>s. (Inr (), f s))"

definition deref :: "string \<Rightarrow> 'a option \<Rightarrow> ('s, 'a) comp" where
  \<comment> \<open>the unchecked \<^verbatim>\<open>*opt\<close> of \<^verbatim>\<open>std::optional\<close>\<close>
  "deref what x = (case x of None \<Rightarrow> raise (Undefined what) | Some v \<Rightarrow> ret v)"

fun forM :: "'a list \<Rightarrow> ('a \<Rightarrow> ('s, unit) comp) \<Rightarrow> ('s, unit) comp" where
  "forM [] body = ret ()"
| "forM (x # xs) body = seqM (body x) (forM xs body)"

definition ParseFromArray :: "(byte list \<Rightarrow> 'm option) \<Rightarrow> byte list \<Rightarrow> int \<Rightarrow> ('s, 'm option) comp" where
  \<comment> \<open>an array of a negative size does not exist\<close>
  "ParseFromArray parse data len =
     (if len < 0 then raise (Undefined ''ParseFromArray of a negative length'')
      else ret (parse (take (nat len) data)))"

lemma ret_apply [comp_simps]: "ret a s = (Inr a, s)"
  by (simp add: ret_def)

lemma raise_apply [comp_simps]: "raise e s = (Inl e, s)"
  by (simp add: raise_def)

lemma gets_apply [comp_simps]: "gets f s = (Inr (f s), s)"
  by (simp add: gets_def)

lemma modify_apply [comp_simps]: "modify f s = (Inr (), f s)"
  by (simp add: modify_def)

lemma deref_simps [comp_simps]:
  "deref w (Some v) = ret v" "deref w None = raise (Undefined w)"
  by (simp_all add: deref_def)

lemma bindM_apply:
  "bindM m f s = (case fst (m s) of Inl e \<Rightarrow> (Inl e, snd (m s)) | Inr a \<Rightarrow> f a (snd (m s)))"
  by (simp add: bindM_def)

lemma bindM_Inr [comp_simps]: "fst (m s) = Inr a \<Longrightarrow> bindM m f s = f a (snd (m s))"
  by (simp add: bindM_def)

lemma bindM_Inl [comp_simps]: "fst (m s) = Inl e \<Longrightarrow> bindM m f s = (Inl e, snd (m s))"
  by (simp add: bindM_def)

lemma seqM_Inr [comp_simps]: "fst (m s) = Inr a \<Longrightarrow> seqM m k s = k (snd (m s))"
  by (simp add: seqM_def bindM_def)

lemma seqM_Inl [comp_simps]: "fst (m s) = Inl e \<Longrightarrow> seqM m k s = (Inl e, snd (m s))"
  by (simp add: seqM_def bindM_def)

lemma bindM_assoc: "bindM (bindM m f) g = bindM m (\<lambda>a. bindM (f a) g)"
  by (rule ext) (simp add: bindM_def split: sum.split)

lemma bindM_ret_left [simp]: "bindM (ret a) f = f a"
  by (rule ext) (simp add: bindM_def ret_def)

lemma bindM_ret_right [simp]: "bindM m ret = m"
  by (rule ext) (auto simp: bindM_def ret_def prod_eq_iff split: sum.split)

text \<open>Right-nested form: a computation is then run from left to right, one call at a time.\<close>

lemma bindM_if: "bindM (if b then m else k) f = (if b then bindM m f else bindM k f)"
  by simp

lemma bindM_raise: "bindM (raise e) f = raise e"
  by (rule ext) (simp add: bindM_def raise_def)

lemma bindM_run:
  "fst (m s) = y \<Longrightarrow> snd (m s) = s' \<Longrightarrow>
   bindM m f s = (case y of Inl e \<Rightarrow> (Inl e, s') | Inr a \<Rightarrow> f a s')"
  by (auto simp: bindM_def)

lemma basic_outcomes [simp]:
  "fst (gets g s) = Inr (g s)" "snd (gets g s) = s" "fst (modify u s) = Inr ()" "snd (modify u s) = u s"
  "fst (ret x s) = Inr x" "snd (ret x s) = s" "fst (raise e s) = Inl e" "snd (raise e s) = s"
  "fst (deref w (Some x) s) = Inr x" "fst (deref w None s) = Inl (Undefined w)" "snd (deref w z s) = s"
  by (simp_all add: gets_def modify_def ret_def raise_def deref_def split: option.split)

lemma ParseFromArray_nonneg: "0 \<le> len \<Longrightarrow> ParseFromArray parse data len = ret (parse (take (nat len) data))"
  by (simp add: ParseFromArray_def)

lemma bindM_case_option:
  "bindM (case x of None \<Rightarrow> m | Some y \<Rightarrow> k y) f = (case x of None \<Rightarrow> bindM m f | Some y \<Rightarrow> bindM (k y) f)"
  by (simp split: option.split)

lemmas bindM_norm = seqM_def bindM_assoc bindM_if bindM_case_option bindM_raise deref_simps

lemma forM_append: "forM (xs @ ys) body = seqM (forM xs body) (forM ys body)"
proof (induction xs)
  case Nil
  show ?case by (rule ext) (simp add: seqM_def bindM_def ret_def)
next
  case (Cons x xs)
  then show ?case by (simp add: seqM_def bindM_assoc)
qed

text \<open>
  An assertion that survives every outcome of the parts survives the whole: the rule behind the
  frame lemmas, which have to hold on the fault paths too.
\<close>

definition keeps :: "('s \<Rightarrow> bool) \<Rightarrow> ('s, 'a) comp \<Rightarrow> bool" where
  "keeps P m \<longleftrightarrow> (\<forall>s. P s \<longrightarrow> P (snd (m s)))"

lemma keepsI: "(\<And>s. P s \<Longrightarrow> P (snd (m s))) \<Longrightarrow> keeps P m"
  by (simp add: keeps_def)

lemma keepsD: "keeps P m \<Longrightarrow> P s \<Longrightarrow> P (snd (m s))"
  by (simp add: keeps_def)

lemma keeps_basic [intro]:
  "keeps P (ret a)" "keeps P (raise e)" "keeps P (gets f)" "keeps P (deref w x)"
  by (auto simp: keeps_def ret_def raise_def gets_def deref_def split: option.split)

lemma keeps_bindM [intro]:
  assumes "keeps P m" "\<And>a. keeps P (f a)"
  shows "keeps P (bindM m f)"
  using assms by (auto simp: keeps_def bindM_def split: sum.split)

lemma keeps_seqM [intro]: "keeps P m \<Longrightarrow> keeps P k \<Longrightarrow> keeps P (seqM m k)"
  by (simp add: seqM_def keeps_bindM)

lemma keeps_if [intro]: "keeps P m \<Longrightarrow> keeps P k \<Longrightarrow> keeps P (if b then m else k)"
  by simp

lemma keeps_forM [intro]: "(\<And>x. x \<in> set xs \<Longrightarrow> keeps P (body x)) \<Longrightarrow> keeps P (forM xs body)"
  by (induction xs) (auto intro: keeps_seqM keeps_basic)

section \<open>Strings and bytes\<close>

definition bytes_of :: "string \<Rightarrow> byte list" where
  "bytes_of s = map of_char s"

definition string_of :: "byte list \<Rightarrow> string" where
  "string_of bs = map (\<lambda>b. char_of (unat b)) bs"

lemma length_bytes_of [simp]: "length (bytes_of s) = length s"
  by (simp add: bytes_of_def)

lemma bytes_of_append: "bytes_of (s @ t) = bytes_of s @ bytes_of t"
  by (simp add: bytes_of_def)

lemma unat_of_char_byte [simp]: "unat (of_char c :: byte) = of_char c"
proof -
  have "unat (of_nat (of_char c) :: byte) = of_char c mod 2 ^ 8"
    by (simp add: unat_of_nat)
  also have "\<dots> = (of_char c :: nat)"
    using of_char_mod_256 [of c, where 'a = nat] by simp
  finally show ?thesis by (simp only: of_nat_of_char)
qed

lemma of_char_inj_byte: "(of_char c :: byte) = of_char d \<longleftrightarrow> c = d"
  by (metis unat_of_char_byte of_char_eq_iff)

lemma bytes_of_inj: "bytes_of s = bytes_of t \<longleftrightarrow> s = t"
  unfolding bytes_of_def by (rule inj_map_eq_map) (simp add: inj_on_def of_char_inj_byte)

lemma string_of_bytes_of [simp]: "string_of (bytes_of s) = s"
  by (simp add: string_of_def bytes_of_def comp_def)

section \<open>Decimal numerals\<close>

definition digit_char :: "nat \<Rightarrow> char" where
  "digit_char d = char_of (48 + d)"

fun dec_of_nat :: "nat \<Rightarrow> string" where
  "dec_of_nat n =
     (if n < 10 then [digit_char n] else dec_of_nat (n div 10) @ [digit_char (n mod 10)])"

declare dec_of_nat.simps [simp del]

definition dec_value :: "string \<Rightarrow> nat" where
  "dec_value s = foldl (\<lambda>acc c. 10 * acc + (of_char c - 48)) 0 s"

definition to_string_u64 :: "uint64 \<Rightarrow> string" where
  "to_string_u64 t = dec_of_nat (unat t)"

definition to_string_int :: "int \<Rightarrow> string" where
  "to_string_int i = (if i < 0 then CHR ''-'' # dec_of_nat (nat (- i)) else dec_of_nat (nat i))"

lemma of_char_digit_char: "d < 10 \<Longrightarrow> of_char (digit_char d) = 48 + d"
  by (simp add: digit_char_def of_char_of)

lemma dec_of_nat_not_Nil [simp]: "dec_of_nat n \<noteq> []"
  by (subst dec_of_nat.simps) simp

lemma dec_value_snoc: "dec_value (s @ [c]) = 10 * dec_value s + (of_char c - 48)"
  by (simp add: dec_value_def)

lemma dec_value_dec_of_nat [simp]: "dec_value (dec_of_nat n) = n"
proof (induction n rule: dec_of_nat.induct)
  case (1 n)
  show ?case
  proof (cases "n < 10")
    case True
    then show ?thesis
      by (subst dec_of_nat.simps) (simp add: dec_value_def of_char_digit_char)
  next
    case False
    with 1 show ?thesis
      by (subst dec_of_nat.simps) (simp add: dec_value_snoc of_char_digit_char)
  qed
qed

lemma dec_of_nat_inj [str_simps]: "dec_of_nat m = dec_of_nat n \<longleftrightarrow> m = n"
  by (metis dec_value_dec_of_nat)

lemma to_string_u64_inj [str_simps, simp]: "to_string_u64 a = to_string_u64 b \<longleftrightarrow> a = b"
  by (simp add: to_string_u64_def dec_of_nat_inj word_unat_eq_iff)

lemma dec_of_nat_digits: "c \<in> set (dec_of_nat n) \<Longrightarrow> \<exists>d < 10. c = digit_char d"
proof (induction n rule: dec_of_nat.induct)
  case (1 n)
  show ?case
  proof (cases "n < 10")
    case True
    with "1.prems" show ?thesis by (auto simp: dec_of_nat.simps [of n])
  next
    case False
    with "1.prems" consider "c \<in> set (dec_of_nat (n div 10))" | "c = digit_char (n mod 10)"
      by (auto simp: dec_of_nat.simps [of n])
    then show ?thesis
    proof cases
      case 1
      with False "1.IH" show ?thesis by simp
    next
      case 2
      moreover have "n mod 10 < 10" by simp
      ultimately show ?thesis by blast
    qed
  qed
qed

end
