(* ===== verification/Util.thy ===== *)
theory Util
  imports Prelude
begin

text \<open>
  \<^verbatim>\<open>src/util.cpp\<close>: the little-endian packet header that every response starts with
  (\<^verbatim>\<open>append_int_vec_char_le\<close>, \<^verbatim>\<open>append_prot_packet\<close>) and the code-point counter
  \<^verbatim>\<open>utf8_length\<close>. The lemmas show that the header reads back, and that
  \<^verbatim>\<open>utf8_length\<close> counts the code points of every UTF-8 encoded text.
\<close>

section \<open>The packet header\<close>

definition append_int_vec_char_le :: "byte list \<Rightarrow> int32 \<Rightarrow> byte list" where
  "append_int_vec_char_le buffer value =
     buffer @ [ucast (value AND 0xFF),
               ucast (signed_drop_bit 8 value AND 0xFF),
               ucast (signed_drop_bit 16 value AND 0xFF),
               ucast (signed_drop_bit 24 value AND 0xFF)]"

definition append_prot_packet :: "byte list \<Rightarrow> int32 \<Rightarrow> uint64 \<Rightarrow> byte list" where
  "append_prot_packet buffer type len =
     append_int_vec_char_le
       (append_int_vec_char_le (buffer @ bytes_of ''prot'') type)
       (ucast len)"

text \<open>\<^verbatim>\<open>*(int32_t *)(&buffer[i])\<close> on a little-endian host.\<close>

definition load_int32_le :: "byte list \<Rightarrow> nat \<Rightarrow> int32" where
  "load_int32_le buffer i =
     ucast (buffer ! i) OR push_bit 8 (ucast (buffer ! (i + 1)))
       OR push_bit 16 (ucast (buffer ! (i + 2))) OR push_bit 24 (ucast (buffer ! (i + 3)))"

lemma length_append_int_vec_char_le [simp]:
  "length (append_int_vec_char_le buffer v) = length buffer + 4"
  by (simp add: append_int_vec_char_le_def)

lemma length_append_prot_packet [simp]:
  "length (append_prot_packet buffer type len) = length buffer + 12"
  by (simp add: append_prot_packet_def)

lemma take_append_int_vec_char_le [simp]:
  "n \<le> length buffer \<Longrightarrow> take n (append_int_vec_char_le buffer v) = take n buffer"
  by (simp add: append_int_vec_char_le_def)

lemma nth_append_int_vec_char_le [simp]:
  "i < length buffer \<Longrightarrow> append_int_vec_char_le buffer v ! i = buffer ! i"
  by (simp add: append_int_vec_char_le_def nth_append)

lemma low_byte_of_shift:
  fixes v :: int32
  assumes "k \<le> 24"
  shows "(ucast (ucast (signed_drop_bit k v AND 0xFF) :: byte) :: int32) = take_bit 8 (drop_bit k v)"
proof -
  have m: "(0xFF :: int32) = mask 8" by (simp add: mask_eq_exp_minus_1)
  show ?thesis
    unfolding m using assms by (intro bit_word_eqI) (auto simp: bit_simps)
qed

lemma bytes_reassemble:
  fixes v :: int32
  shows "take_bit 8 v OR push_bit 8 (take_bit 8 (drop_bit 8 v))
     OR push_bit 16 (take_bit 8 (drop_bit 16 v)) OR push_bit 24 (take_bit 8 (drop_bit 24 v)) = v"
  (is "?w = v")
proof (rule bit_word_eqI)
  fix n assume "n < LENGTH(32)"
  then consider "n < 8" | "8 \<le> n" "n < 16" | "16 \<le> n" "n < 24" | "24 \<le> n" "n < 32"
    by fastforce
  then show "bit ?w n = bit v n"
    by cases (auto simp: bit_simps)
qed

lemma load_append_int_vec_char_le:
  "load_int32_le (append_int_vec_char_le buffer v @ rest) (length buffer) = v"
  using low_byte_of_shift [of 0 v] low_byte_of_shift [of 8 v] low_byte_of_shift [of 16 v]
    low_byte_of_shift [of 24 v]
  by (simp add: load_int32_le_def append_int_vec_char_le_def nth_append bytes_reassemble)

lemma load_int32_le_prefix:
  "i + 4 \<le> length xs \<Longrightarrow> load_int32_le (xs @ ys) i = load_int32_le xs i"
  by (simp add: load_int32_le_def nth_append)

lemma prot_header_fields:
  "take 4 (append_prot_packet [] type len @ rest) = bytes_of ''prot''
   \<and> load_int32_le (append_prot_packet [] type len @ rest) 4 = type
   \<and> load_int32_le (append_prot_packet [] type len @ rest) 8 = ucast len"
proof (intro conjI)
  let ?h = "append_int_vec_char_le (bytes_of ''prot'') type"
  show "take 4 (append_prot_packet [] type len @ rest) = bytes_of ''prot''"
    by (simp add: append_prot_packet_def)
  show "load_int32_le (append_prot_packet [] type len @ rest) 8 = ucast len"
    using load_append_int_vec_char_le [of ?h "ucast len" rest]
    by (simp add: append_prot_packet_def)
  have "load_int32_le (?h @ drop 8 (append_prot_packet [] type len) @ rest) 4 = type"
    using load_append_int_vec_char_le [of "bytes_of ''prot''" type
        "drop 8 (append_prot_packet [] type len) @ rest"] by (simp add: eval_nat_numeral)
  moreover have "append_prot_packet [] type len = ?h @ drop 8 (append_prot_packet [] type len)"
    by (simp add: append_prot_packet_def append_int_vec_char_le_def)
  ultimately show "load_int32_le (append_prot_packet [] type len @ rest) 4 = type"
    by (metis append.assoc)
qed

section \<open>utf8\_length\<close>

text \<open>
  The body of the loop reads the lead byte at index \<open>i\<close>; \<open>char_len\<close> is chosen by four
  mask tests in this order and the final \<^verbatim>\<open>else\<close> throws.
\<close>

definition utf8_char_len :: "byte \<Rightarrow> nat option" where
  "utf8_char_len c =
     (if c AND 0x80 = 0 then Some 1
      else if c AND 0xE0 = 0xC0 then Some 2
      else if c AND 0xF0 = 0xE0 then Some 3
      else if c AND 0xF8 = 0xF0 then Some 4
      else None)"

lemma utf8_char_len_bounds: "utf8_char_len c = Some n \<Longrightarrow> 1 \<le> n \<and> n \<le> 4"
  by (auto simp: utf8_char_len_def split: if_splits)

function utf8_length_loop :: "byte list \<Rightarrow> nat \<Rightarrow> nat \<Rightarrow> fault + nat" where
  "utf8_length_loop strview i len =
     (if i < length strview then
        (case utf8_char_len (strview ! i) of
           None \<Rightarrow> Inl (RuntimeError ''Invalid UTF-8'')
         | Some char_len \<Rightarrow> utf8_length_loop strview (i + char_len) (len + 1))
      else Inr len)"
  by pat_completeness auto
termination
  by (relation "measure (\<lambda>(strview, i, len). length strview - i)")
    (auto dest: utf8_char_len_bounds)

declare utf8_length_loop.simps [simp del]

definition utf8_length :: "byte list \<Rightarrow> fault + nat" where
  "utf8_length strview = utf8_length_loop strview 0 0"

text \<open>The reference: the UTF-8 encoding of one code point (RFC 3629).\<close>

definition utf8_encode :: "nat \<Rightarrow> byte list" where
  "utf8_encode cp =
     (if cp < 0x80 then [of_nat cp]
      else if cp < 0x800 then [of_nat (0xC0 + cp div 64), of_nat (0x80 + cp mod 64)]
      else if cp < 0x10000 then
        [of_nat (0xE0 + cp div 4096), of_nat (0x80 + cp div 64 mod 64), of_nat (0x80 + cp mod 64)]
      else [of_nat (0xF0 + cp div 262144), of_nat (0x80 + cp div 4096 mod 64),
            of_nat (0x80 + cp div 64 mod 64), of_nat (0x80 + cp mod 64)])"

abbreviation code_point :: "nat \<Rightarrow> bool" where
  "code_point cp \<equiv> cp < 0x110000"

lemma utf8_lead_tables:
  "\<forall>x \<in> set [0..<128]. utf8_char_len (of_nat x) = Some 1"
  "\<forall>x \<in> set [0..<32]. utf8_char_len (of_nat (0xC0 + x)) = Some 2"
  "\<forall>x \<in> set [0..<16]. utf8_char_len (of_nat (0xE0 + x)) = Some 3"
  "\<forall>x \<in> set [0..<5]. utf8_char_len (of_nat (0xF0 + x)) = Some 4"
  by code_simp+

lemma utf8_encode_not_Nil [simp]: "utf8_encode cp \<noteq> []"
  by (simp add: utf8_encode_def)

lemma utf8_char_len_encode:
  assumes "code_point cp"
  shows "utf8_char_len (utf8_encode cp ! 0) = Some (length (utf8_encode cp))"
proof -
  consider "cp < 0x80" | "0x80 \<le> cp" "cp < 0x800" | "0x800 \<le> cp" "cp < 0x10000"
    | "0x10000 \<le> cp" by linarith
  then show ?thesis
  proof cases
    case 1
    then show ?thesis using utf8_lead_tables(1) by (simp add: utf8_encode_def)
  next
    case 2
    then have "cp div 64 \<in> set [0..<32]" by auto
    from bspec [OF utf8_lead_tables(2) this] 2 show ?thesis by (simp add: utf8_encode_def)
  next
    case 3
    then have "cp div 4096 \<in> set [0..<16]" by auto
    from bspec [OF utf8_lead_tables(3) this] 3 show ?thesis by (simp add: utf8_encode_def)
  next
    case 4
    with assms have "cp div 262144 \<in> set [0..<5]" by auto
    from bspec [OF utf8_lead_tables(4) this] 4 show ?thesis by (simp add: utf8_encode_def)
  qed
qed

lemma utf8_length_loop_encoded:
  "\<forall>cp \<in> set cps. code_point cp \<Longrightarrow>
   utf8_length_loop (pre @ concat (map utf8_encode cps)) (length pre) n = Inr (n + length cps)"
proof (induction cps arbitrary: pre n)
  case Nil
  then show ?case by (subst utf8_length_loop.simps) simp
next
  case (Cons cp cps)
  have lead: "(pre @ concat (map utf8_encode (cp # cps))) ! length pre = utf8_encode cp ! 0"
    by (simp add: nth_append)
  have rest: "\<forall>cp \<in> set cps. code_point cp" using Cons.prems by simp
  have "utf8_length_loop ((pre @ utf8_encode cp) @ concat (map utf8_encode cps))
      (length (pre @ utf8_encode cp)) (n + 1) = Inr (n + 1 + length cps)"
    by (rule Cons.IH [OF rest])
  then show ?case
    using lead Cons.prems utf8_char_len_encode [of cp]
    by (subst utf8_length_loop.simps) simp
qed

lemma utf8_length_loop_bounds:
  "utf8_length_loop s i n = Inr r \<Longrightarrow>
   n \<le> r \<and> r - n \<le> length s - i \<and> length s - i \<le> 4 * (r - n)"
proof (induction s i n rule: utf8_length_loop.induct)
  case (1 s i n)
  show ?case
  proof (cases "i < length s")
    case False
    with "1.prems" show ?thesis by (simp add: utf8_length_loop.simps [of s i n])
  next
    case True
    with "1.prems" obtain k where k: "utf8_char_len (s ! i) = Some k"
      and rec: "utf8_length_loop s (i + k) (n + 1) = Inr r"
      by (auto simp: utf8_length_loop.simps [of s i n] split: option.splits)
    from "1.IH" [OF True k rec] utf8_char_len_bounds [OF k] True show ?thesis by auto
  qed
qed

section \<open>Properties\<close>

text \<open>The packet header reads back: the three fields that \<^verbatim>\<open>append_prot_packet\<close>
  appends are, at their offsets, the magic, the type and the length truncated to 32 bits, whatever
  follows them.\<close>

theorem prot_header_roundtrip:
  "take 4 (append_prot_packet [] type len @ rest) = bytes_of ''prot''
   \<and> load_int32_le (append_prot_packet [] type len @ rest) 4 = type
   \<and> load_int32_le (append_prot_packet [] type len @ rest) 8 = ucast len"
  by (rule prot_header_fields)

text \<open>C25: \<^verbatim>\<open>utf8_length\<close> counts code points: on the UTF-8 encoding of any list of code
  points it returns the length of the list.\<close>

theorem utf8_length_counts_code_points:
  "\<forall>cp \<in> set cps. code_point cp \<Longrightarrow>
   utf8_length (concat (map utf8_encode cps)) = Inr (length cps)"
  using utf8_length_loop_encoded [of cps "[]" 0] by (simp add: utf8_length_def)

theorem utf8_length_counts_code_points_witness:
  "utf8_length (concat (map utf8_encode [0x41, 0xAC00, 0x1F600])) = Inr 3"
  using utf8_length_counts_code_points [of "[0x41, 0xAC00, 0x1F600]"] by simp

text \<open>Whatever the bytes are, a count that \<^verbatim>\<open>utf8_length\<close> returns is at most the
  number of bytes, and four times the count covers all of them.\<close>

theorem utf8_length_bounds:
  "utf8_length s = Inr n \<Longrightarrow> n \<le> length s \<and> length s \<le> 4 * n"
  using utf8_length_loop_bounds [of s 0 0 n] by (simp add: utf8_length_def)

theorem utf8_length_bounds_witness:
  "utf8_length [0xED, 0x95] = Inr 1 \<and> (1::nat) \<le> 2 \<and> (2::nat) \<le> 4"
proof -
  have "utf8_length [0xED, 0x95] = Inr 1" by code_simp
  from this utf8_length_bounds [OF this] show ?thesis by simp
qed

end
