(* ===== verification/Sha256.thy ===== *)
theory Sha256
  imports Prelude
begin

text \<open>
  \<^verbatim>\<open>src/sha256.h\<close> and \<^verbatim>\<open>src/sha256.cpp\<close>: the SHA256 class (a streaming context
  with a two-block buffer) and the function \<^verbatim>\<open>sha256\<close> that hashes passwords. The pointers
  into message and buffer are byte lists and offsets; \<^verbatim>\<open>unsigned int\<close> is a 32 bit word, so
  the length arithmetic wraps as it does in C++.
\<close>

section \<open>The class\<close>

definition SHA2_SHFR :: "uint32 \<Rightarrow> nat \<Rightarrow> uint32" where
  "SHA2_SHFR x n = drop_bit n x"

definition SHA2_ROTR :: "uint32 \<Rightarrow> nat \<Rightarrow> uint32" where
  "SHA2_ROTR x n = drop_bit n x OR push_bit (32 - n) x"

definition SHA2_CH :: "uint32 \<Rightarrow> uint32 \<Rightarrow> uint32 \<Rightarrow> uint32" where
  "SHA2_CH x y z = (x AND y) XOR (NOT x AND z)"

definition SHA2_MAJ :: "uint32 \<Rightarrow> uint32 \<Rightarrow> uint32 \<Rightarrow> uint32" where
  "SHA2_MAJ x y z = (x AND y) XOR (x AND z) XOR (y AND z)"

definition SHA256_F1 :: "uint32 \<Rightarrow> uint32" where
  "SHA256_F1 x = SHA2_ROTR x 2 XOR SHA2_ROTR x 13 XOR SHA2_ROTR x 22"

definition SHA256_F2 :: "uint32 \<Rightarrow> uint32" where
  "SHA256_F2 x = SHA2_ROTR x 6 XOR SHA2_ROTR x 11 XOR SHA2_ROTR x 25"

definition SHA256_F3 :: "uint32 \<Rightarrow> uint32" where
  "SHA256_F3 x = SHA2_ROTR x 7 XOR SHA2_ROTR x 18 XOR SHA2_SHFR x 3"

definition SHA256_F4 :: "uint32 \<Rightarrow> uint32" where
  "SHA256_F4 x = SHA2_ROTR x 17 XOR SHA2_ROTR x 19 XOR SHA2_SHFR x 10"

definition SHA2_UNPACK32 :: "uint32 \<Rightarrow> byte list" where
  \<comment> \<open>the four bytes stored at \<^verbatim>\<open>str + 0\<close> to \<^verbatim>\<open>str + 3\<close>\<close>
  "SHA2_UNPACK32 x =
     [ucast (drop_bit 24 x), ucast (drop_bit 16 x), ucast (drop_bit 8 x), ucast x]"

definition SHA2_PACK32 :: "byte list \<Rightarrow> nat \<Rightarrow> uint32" where
  "SHA2_PACK32 buf at =
     ucast (buf ! (at + 3)) OR push_bit 8 (ucast (buf ! (at + 2)))
       OR push_bit 16 (ucast (buf ! (at + 1))) OR push_bit 24 (ucast (buf ! at))"

definition SHA224_256_BLOCK_SIZE :: uint32 where
  "SHA224_256_BLOCK_SIZE = 64"

definition sha256_k :: "uint32 list" where
  \<comment> \<open>the table row by row, as the source has it\<close>
  "sha256_k = concat
    [[0x428a2f98, 0x71374491, 0xb5c0fbcf, 0xe9b5dba5],
     [0x3956c25b, 0x59f111f1, 0x923f82a4, 0xab1c5ed5],
     [0xd807aa98, 0x12835b01, 0x243185be, 0x550c7dc3],
     [0x72be5d74, 0x80deb1fe, 0x9bdc06a7, 0xc19bf174],
     [0xe49b69c1, 0xefbe4786, 0x0fc19dc6, 0x240ca1cc],
     [0x2de92c6f, 0x4a7484aa, 0x5cb0a9dc, 0x76f988da],
     [0x983e5152, 0xa831c66d, 0xb00327c8, 0xbf597fc7],
     [0xc6e00bf3, 0xd5a79147, 0x06ca6351, 0x14292967],
     [0x27b70a85, 0x2e1b2138, 0x4d2c6dfc, 0x53380d13],
     [0x650a7354, 0x766a0abb, 0x81c2c92e, 0x92722c85],
     [0xa2bfe8a1, 0xa81a664b, 0xc24b8b70, 0xc76c51a3],
     [0xd192e819, 0xd6990624, 0xf40e3585, 0x106aa070],
     [0x19a4c116, 0x1e376c08, 0x2748774c, 0x34b0bcb5],
     [0x391c0cb3, 0x4ed8aa4a, 0x5b9cca4f, 0x682e6ff3],
     [0x748f82ee, 0x78a5636f, 0x84c87814, 0x8cc70208],
     [0x90befffa, 0xa4506ceb, 0xbef9a3f7, 0xc67178f2]]"

record sha256_ctx =
  m_tot_len :: uint32
  m_len :: uint32
  m_block :: "byte list"
  m_h :: "uint32 list"

text \<open>The two loops that fill \<^verbatim>\<open>w[64]\<close>, and one turn of the round loop on \<^verbatim>\<open>wv[8]\<close>.\<close>

definition message_schedule :: "byte list \<Rightarrow> uint32 list" where
  "message_schedule sub_block =
     foldl (\<lambda>w j. w @ [SHA256_F4 (w ! (j - 2)) + w ! (j - 7) + SHA256_F3 (w ! (j - 15)) + w ! (j - 16)])
       (map (\<lambda>j. SHA2_PACK32 sub_block (4 * j)) [0..<16]) [16..<64]"

definition round_step :: "uint32 list \<Rightarrow> uint32 list \<Rightarrow> nat \<Rightarrow> uint32 list" where
  "round_step w wv j =
     (let t1 = wv ! 7 + SHA256_F2 (wv ! 4) + SHA2_CH (wv ! 4) (wv ! 5) (wv ! 6)
                 + sha256_k ! j + w ! j;
          t2 = SHA256_F1 (wv ! 0) + SHA2_MAJ (wv ! 0) (wv ! 1) (wv ! 2)
      in [t1 + t2, wv ! 0, wv ! 1, wv ! 2, wv ! 3 + t1, wv ! 4, wv ! 5, wv ! 6])"

definition transform_block :: "uint32 list \<Rightarrow> byte list \<Rightarrow> uint32 list" where
  "transform_block h sub_block =
     (let w = message_schedule sub_block;
          wv = foldl (round_step w) (map (\<lambda>j. h ! j) [0..<8]) [0..<64]
      in map (\<lambda>j. h ! j + wv ! j) [0..<8])"

definition transform :: "sha256_ctx \<Rightarrow> byte list \<Rightarrow> uint32 \<Rightarrow> sha256_ctx" where
  \<comment> \<open>\<^verbatim>\<open>for (i = 0; i < (int) block_nb; i++)\<close> with \<^verbatim>\<open>sub_block = message + (i << 6)\<close>\<close>
  "transform ctx message block_nb =
     ctx\<lparr>m_h := foldl (\<lambda>h i. transform_block h (drop (64 * i) message)) (m_h ctx)
                  [0..<nat (sint block_nb)]\<rparr>"

definition init :: "sha256_ctx \<Rightarrow> sha256_ctx" where
  "init ctx =
     ctx\<lparr>m_h := [0x6a09e667, 0xbb67ae85, 0x3c6ef372, 0xa54ff53a,
                 0x510e527f, 0x9b05688c, 0x1f83d9ab, 0x5be0cd19],
         m_len := 0, m_tot_len := 0\<rparr>"

definition memcpy :: "byte list \<Rightarrow> nat \<Rightarrow> byte list \<Rightarrow> nat \<Rightarrow> byte list" where
  \<comment> \<open>\<^verbatim>\<open>memcpy(dst + at, src, n)\<close>: the whole destination array afterwards\<close>
  "memcpy dst at src n = take at dst @ take n src @ drop (at + n) dst"

definition update :: "sha256_ctx \<Rightarrow> byte list \<Rightarrow> uint32 \<Rightarrow> sha256_ctx" where
  "update ctx message len =
     (let tmp_len = SHA224_256_BLOCK_SIZE - m_len ctx;
          rem_len = (if len < tmp_len then len else tmp_len);
          ctx = ctx\<lparr>m_block := memcpy (m_block ctx) (unat (m_len ctx)) message (unat rem_len)\<rparr>
      in if m_len ctx + len < SHA224_256_BLOCK_SIZE then ctx\<lparr>m_len := m_len ctx + len\<rparr>
         else
           (let new_len = len - rem_len;
                block_nb = new_len div SHA224_256_BLOCK_SIZE;
                shifted_message = drop (unat rem_len) message;
                ctx = transform ctx (m_block ctx) 1;
                ctx = transform ctx shifted_message block_nb;
                rem_len = new_len mod SHA224_256_BLOCK_SIZE;
                ctx = ctx\<lparr>m_block := memcpy (m_block ctx) 0
                            (drop (unat (push_bit 6 block_nb)) shifted_message) (unat rem_len)\<rparr>
            in ctx\<lparr>m_len := rem_len, m_tot_len := m_tot_len ctx + push_bit 6 (block_nb + 1)\<rparr>))"

definition final :: "sha256_ctx \<Rightarrow> sha256_ctx \<times> byte list" where
  "final ctx =
     (let block_nb = 1 + (if SHA224_256_BLOCK_SIZE - 9 < m_len ctx mod SHA224_256_BLOCK_SIZE
                          then 1 else 0);
          len_b = push_bit 3 (m_tot_len ctx + m_len ctx);
          pm_len = push_bit 6 block_nb;
          blk = memcpy (m_block ctx) (unat (m_len ctx))
                  (replicate (unat (pm_len - m_len ctx)) 0) (unat (pm_len - m_len ctx));
          blk = blk[unat (m_len ctx) := 0x80];
          blk = memcpy blk (unat pm_len - 4) (SHA2_UNPACK32 len_b) 4;
          ctx = transform (ctx\<lparr>m_block := blk\<rparr>) blk block_nb
      in (ctx, concat (map (\<lambda>i. SHA2_UNPACK32 (m_h ctx ! i)) [0..<8])))"

definition hex_digit :: "nat \<Rightarrow> char" where
  "hex_digit d = (if d < 10 then char_of (48 + d) else char_of (87 + d))"

definition hex_byte :: "byte \<Rightarrow> string" where
  \<comment> \<open>\<^verbatim>\<open>sprintf("%02x", b)\<close>\<close>
  "hex_byte b = [hex_digit (unat b div 16), hex_digit (unat b mod 16)]"

definition fresh_ctx :: sha256_ctx where
  \<comment> \<open>\<^verbatim>\<open>SHA256()\<close>: value-initialised members\<close>
  "fresh_ctx = \<lparr>m_tot_len = 0, m_len = 0, m_block = replicate 128 0, m_h = replicate 8 0\<rparr>"

definition sha256_digest :: "byte list \<Rightarrow> byte list" where
  "sha256_digest input = snd (final (update (init fresh_ctx) input (of_nat (length input))))"

definition sha256 :: "string \<Rightarrow> string" where
  "sha256 input = concat (map hex_byte (sha256_digest (bytes_of input)))"

end
