(* ===== verification/Sha256_Constants.thy ===== *)
theory Sha256_Constants
  imports Complex_Main Sha256
begin

text \<open>
  The constants of SHA-256 as FIPS 180-4 defines them, and the proof that the tables of
  \<^verbatim>\<open>src/sha256.cpp\<close> hold exactly them. The constants of 4.2.2 and 5.3.3 are the first 32 bits of the fractional parts of the cube and
  square roots of the first 64 and 8 primes.
\<close>

definition first_primes :: "nat list" where
  "first_primes =
     [2, 3, 5, 7, 11, 13, 17, 19, 23, 29, 31, 37, 41, 43, 47, 53, 59, 61, 67, 71, 73, 79, 83, 89, 97,
      101, 103, 107, 109, 113, 127, 131, 137, 139, 149, 151, 157, 163, 167, 173, 179, 181, 191, 193,
      197, 199, 211, 223, 227, 229, 233, 239, 241, 251, 257, 263, 269, 271, 277, 281, 283, 293, 307,
      311]"

definition fips_K :: "nat \<Rightarrow> uint32" where
  "fips_K t = word_of_int \<lfloor>2 ^ 32 * root 3 (real (first_primes ! t))\<rfloor>"

definition fips_H :: "nat \<Rightarrow> uint32" where
  "fips_H i = word_of_int \<lfloor>2 ^ 32 * sqrt (real (first_primes ! i))\<rfloor>"

lemma floor_scaled_root:
  fixes c p :: nat
  assumes "0 < n" and "c ^ n \<le> 2 ^ (32 * n) * p" and "2 ^ (32 * n) * p < (c + 1) ^ n"
  shows "\<lfloor>2 ^ 32 * root n (real p)\<rfloor> = int c"
proof -
  have r: "(2 ^ 32 * root n (real p)) ^ n = real (2 ^ (32 * n) * p)"
    using assms(1) by (simp add: power_mult_distrib power_mult)
  have "real c ^ n \<le> (2 ^ 32 * root n (real p)) ^ n"
    unfolding r using assms(2) by (metis of_nat_le_iff of_nat_power)
  moreover have "(2 ^ 32 * root n (real p)) ^ n < (real c + 1) ^ n"
    unfolding r using assms(3) by (metis of_nat_less_iff of_nat_power of_nat_add of_nat_1)
  moreover have "0 \<le> 2 ^ 32 * root n (real p)"
    using assms(1) by (simp add: real_root_ge_zero)
  ultimately have "real c \<le> 2 ^ 32 * root n (real p)" "2 ^ 32 * root n (real p) < real c + 1"
    using assms(1) power_mono_iff [of "real c" "2 ^ 32 * root n (real p)" n]
      power_less_imp_less_base [of "2 ^ 32 * root n (real p)" n "real c + 1"] by simp_all
  then show ?thesis by (simp add: floor_eq_iff)
qed

text \<open>\<open>i\<close> is the integer part of the root and \<open>k\<close> the 32 bits after the point.\<close>

definition scaled_root_ok :: "nat \<Rightarrow> nat \<Rightarrow> nat \<Rightarrow> uint32 \<Rightarrow> bool" where
  "scaled_root_ok n i p k \<longleftrightarrow>
     (let c = 2 ^ 32 * i + unat k in c ^ n \<le> 2 ^ (32 * n) * p \<and> 2 ^ (32 * n) * p < (c + 1) ^ n)"

lemma scaled_root_ok:
  assumes "scaled_root_ok n i p k" "0 < n"
  shows "word_of_int \<lfloor>2 ^ 32 * root n (real p)\<rfloor> = k"
proof -
  have "\<lfloor>2 ^ 32 * root n (real p)\<rfloor> = int (2 ^ 32 * i + unat k)"
    using assms by (intro floor_scaled_root) (simp_all add: scaled_root_ok_def Let_def)
  moreover have "(word_of_int (int (2 ^ 32 * i + unat k)) :: uint32) = k"
    unfolding of_int_of_nat_eq
    by (simp add: word_of_nat_eq_0_iff flip: of_nat_mult)
  ultimately show ?thesis by simp
qed

definition cube_int :: "nat \<Rightarrow> nat" where
  "cube_int p = (if p < 8 then 1 else if p < 27 then 2 else if p < 64 then 3 else if p < 125 then 4
     else if p < 216 then 5 else 6)"

lemma K_ok: "list_all2 (\<lambda>p k. scaled_root_ok 3 (cube_int p) p k) first_primes sha256_k"
  by (simp add: first_primes_def sha256_k_def scaled_root_ok_def cube_int_def Let_def)

definition sha_init :: "uint32 list" where
  "sha_init = m_h (init fresh_ctx)"

lemma H_ok: "list_all2 (\<lambda>(i, p) k. scaled_root_ok 2 i p k)
    (zip [1, 1, 2, 2, 3, 3, 4, 4] (take 8 first_primes)) sha_init"
  by (simp add: first_primes_def sha_init_def init_def scaled_root_ok_def Let_def)

lemma sha256_k_fips: "t < 64 \<Longrightarrow> sha256_k ! t = fips_K t"
  using list_all2_nthD [OF K_ok, of t] scaled_root_ok [of 3 _ "first_primes ! t" "sha256_k ! t"]
  by (simp add: fips_K_def) (simp add: first_primes_def)

lemma sha_init_fips: "i < 8 \<Longrightarrow> sha_init ! i = fips_H i"
  using list_all2_nthD [OF H_ok, of i] scaled_root_ok [of 2 _ "first_primes ! i" "sha_init ! i"]
  by (simp add: fips_H_def sqrt_def) (simp add: first_primes_def)

end
