(* ===== verification/Sha256_Spec.thy ===== *)
theory Sha256_Spec
  imports Sha256_Constants
begin

text \<open>
  The SHA-256 of FIPS 180-4 as a reference function, and the proof that the class of
  \<^verbatim>\<open>src/sha256.cpp\<close> computes it: the word functions and the schedule agree
  (\<open>transform_block_fips\<close>), the streaming context represents the bytes fed so far
  (\<open>absorbed\<close>, kept by \<open>update\<close>), and \<open>final\<close> pads as the standard says
  (\<open>final_fips\<close>).
\<close>

section \<open>The standard\<close>

text \<open>
  FIPS 180-4, sections 4 to 6, for byte messages: rotation is \<open>word_rotr\<close>, the padding
  carries the 64 bit length, the schedule is the recurrence of 6.2.2 and the working variables are
  an eight-tuple.
\<close>

definition be_word :: "byte list \<Rightarrow> uint32" where
  "be_word bs = foldl (\<lambda>w b. 256 * w + ucast b) 0 bs"

definition be64 :: "nat \<Rightarrow> byte list" where
  "be64 l = map (\<lambda>i. of_nat (l div 256 ^ (7 - i))) [0..<8]"

definition fips_pad :: "byte list \<Rightarrow> byte list" where
  "fips_pad M =
     M @ [0x80] @ replicate ((119 - length M mod 64) mod 64) 0 @ be64 (8 * length M)"

definition fips_Sigma0 :: "uint32 \<Rightarrow> uint32" where
  "fips_Sigma0 x = word_rotr 2 x XOR word_rotr 13 x XOR word_rotr 22 x"

definition fips_Sigma1 :: "uint32 \<Rightarrow> uint32" where
  "fips_Sigma1 x = word_rotr 6 x XOR word_rotr 11 x XOR word_rotr 25 x"

definition fips_sigma0 :: "uint32 \<Rightarrow> uint32" where
  "fips_sigma0 x = word_rotr 7 x XOR word_rotr 18 x XOR drop_bit 3 x"

definition fips_sigma1 :: "uint32 \<Rightarrow> uint32" where
  "fips_sigma1 x = word_rotr 17 x XOR word_rotr 19 x XOR drop_bit 10 x"

fun fips_W :: "byte list \<Rightarrow> nat \<Rightarrow> uint32" where
  "fips_W B t =
     (if t < 16 then be_word (take 4 (drop (4 * t) B))
      else fips_sigma1 (fips_W B (t - 2)) + fips_W B (t - 7)
             + fips_sigma0 (fips_W B (t - 15)) + fips_W B (t - 16))"

declare fips_W.simps [simp del]

type_synonym work_vars =
  "uint32 \<times> uint32 \<times> uint32 \<times> uint32 \<times> uint32 \<times> uint32 \<times> uint32 \<times> uint32"

fun fips_round :: "byte list \<Rightarrow> work_vars \<Rightarrow> nat \<Rightarrow> work_vars" where
  "fips_round B (a, b, c, d, e, f, g, h) t =
     (let T1 = h + fips_Sigma1 e + ((e AND f) XOR (NOT e AND g)) + fips_K t + fips_W B t;
          T2 = fips_Sigma0 a + ((a AND b) XOR (a AND c) XOR (b AND c))
      in (T1 + T2, a, b, c, d + T1, e, f, g))"

fun add_vars :: "work_vars \<Rightarrow> work_vars \<Rightarrow> work_vars" where
  "add_vars (a, b, c, d, e, f, g, h) (a', b', c', d', e', f', g', h') =
     (a + a', b + b', c + c', d + d', e + e', f + f', g + g', h + h')"

definition fips_compress :: "work_vars \<Rightarrow> byte list \<Rightarrow> work_vars" where
  "fips_compress H B = add_vars H (foldl (fips_round B) H [0..<64])"

definition fips_H0 :: work_vars where
  "fips_H0 = (fips_H 0, fips_H 1, fips_H 2, fips_H 3, fips_H 4, fips_H 5, fips_H 6, fips_H 7)"

definition fips_hash :: "byte list \<Rightarrow> work_vars" where
  "fips_hash P = foldl (\<lambda>H i. fips_compress H (take 64 (drop (64 * i) P))) fips_H0
     [0..<length P div 64]"

definition be_bytes :: "uint32 \<Rightarrow> byte list" where
  "be_bytes x = map (\<lambda>i. of_nat (unat x div 256 ^ (3 - i))) [0..<4]"

fun fips_digest :: "work_vars \<Rightarrow> byte list" where
  "fips_digest (a, b, c, d, e, f, g, h) = concat (map be_bytes [a, b, c, d, e, f, g, h])"

definition fips_sha256 :: "byte list \<Rightarrow> byte list" where
  "fips_sha256 M = fips_digest (fips_hash (fips_pad M))"

section \<open>The word functions agree\<close>

lemma SHA2_ROTR_rotr: "0 < n \<Longrightarrow> n < 32 \<Longrightarrow> SHA2_ROTR x n = word_rotr n x"
  unfolding SHA2_ROTR_def
proof (rule bit_word_eqI)
  fix m assume n: "0 < n" "n < 32" and m: "m < LENGTH(32)"
  have "(n + m) mod 32 = (if n + m < 32 then n + m else n + m - 32)"
    using n m by (simp add: mod_if le_mod_geq)
  with n m show "bit (drop_bit n x OR push_bit (32 - n) x) m = bit (word_rotr n x) m"
    by (auto simp: bit_simps bit_word_rotr_iff ac_simps dest: bit_imp_le_length)
qed

lemma sha_functions_fips:
  "SHA256_F1 x = fips_Sigma0 x" "SHA256_F2 x = fips_Sigma1 x"
  "SHA256_F3 x = fips_sigma0 x" "SHA256_F4 x = fips_sigma1 x"
  by (simp_all add: SHA256_F1_def SHA256_F2_def SHA256_F3_def SHA256_F4_def SHA2_SHFR_def
      SHA2_ROTR_rotr fips_Sigma0_def fips_Sigma1_def fips_sigma0_def fips_sigma1_def)

lemma byte_or_shift: "(ucast (b :: byte) :: uint32) OR push_bit 8 y = 256 * y + ucast b"
proof -
  have "(ucast b :: uint32) AND push_bit 8 y = 0"
    by (rule bit_word_eqI) (auto simp: bit_simps dest: bit_imp_le_length)
  then have "(ucast b :: uint32) + push_bit 8 y = ucast b OR push_bit 8 y"
    by (rule disjunctive_add_eq_or)
  then show ?thesis by (simp add: push_bit_eq_mult ac_simps)
qed

lemma SHA2_PACK32_be_word:
  assumes "i + 3 < length buf"
  shows "SHA2_PACK32 buf i = be_word (take 4 (drop i buf))"
proof -
  have "take 4 (drop i buf) = [buf ! i, buf ! (i + 1), buf ! (i + 2), buf ! (i + 3)]"
    using assms by (simp add: list_eq_iff_nth_eq nth_Cons' numeral_eq_Suc All_less_Suc)
  moreover have "SHA2_PACK32 buf i = ucast (buf ! (i + 3)) OR push_bit 8 (ucast (buf ! (i + 2))
       OR push_bit 8 (ucast (buf ! (i + 1)) OR push_bit 8 (ucast (buf ! i))))"
    by (simp add: SHA2_PACK32_def push_bit_or or.assoc)
  ultimately show ?thesis
    by (simp add: be_word_def byte_or_shift)
qed

lemma ucast_drop_bit_byte: "(ucast (drop_bit n (x :: uint32)) :: byte) = of_nat (unat x div 2 ^ n)"
proof -
  have "unat (drop_bit n x) = unat x div 2 ^ n"
    unfolding unat_drop_bit_eq by (simp add: drop_bit_eq_div)
  then show ?thesis by (metis of_nat_unat)
qed

lemma SHA2_UNPACK32_be_bytes: "SHA2_UNPACK32 x = be_bytes x"
  using ucast_drop_bit_byte [of 0 x] ucast_drop_bit_byte [of 8 x] ucast_drop_bit_byte [of 16 x]
    ucast_drop_bit_byte [of 24 x]
  by (simp add: SHA2_UNPACK32_def be_bytes_def upt_rec)

lemma length_be_bytes [simp]: "length (be_bytes x) = 4"
  by (simp add: be_bytes_def)

section \<open>Schedule\<close>

definition schedule_upto :: "byte list \<Rightarrow> nat \<Rightarrow> uint32 list" where
  "schedule_upto B n =
     foldl (\<lambda>w j. w @ [SHA256_F4 (w ! (j - 2)) + w ! (j - 7) + SHA256_F3 (w ! (j - 15)) + w ! (j - 16)])
       (map (\<lambda>j. SHA2_PACK32 B (4 * j)) [0..<16]) [16..<n]"

lemma schedule_upto_Suc:
  assumes "16 \<le> m"
  shows "schedule_upto B (Suc m) = schedule_upto B m @
     [SHA256_F4 (schedule_upto B m ! (m - 2)) + schedule_upto B m ! (m - 7)
      + SHA256_F3 (schedule_upto B m ! (m - 15)) + schedule_upto B m ! (m - 16)]"
  using assms by (simp add: schedule_upto_def)

lemma schedule_upto_W:
  assumes "64 \<le> length B" and "16 \<le> m"
  shows "schedule_upto B m = map (fips_W B) [0..<m]"
  using assms(2)
proof (induction m rule: nat_induct_at_least)
  case base
  have "SHA2_PACK32 B (4 * j) = fips_W B j" if "j < 16" for j
    using that assms(1) by (subst fips_W.simps) (simp add: SHA2_PACK32_be_word)
  then show ?case by (simp add: schedule_upto_def)
next
  case (Suc m)
  have nth: "map (fips_W B) [0..<m] ! (m - k) = fips_W B (m - k)" if "0 < k" "k \<le> 16" for k
    using that Suc.hyps by simp
  have W: "fips_W B m = fips_sigma1 (fips_W B (m - 2)) + fips_W B (m - 7)
      + fips_sigma0 (fips_W B (m - 15)) + fips_W B (m - 16)"
    using Suc.hyps by (subst fips_W.simps) simp
  show ?case
    using schedule_upto_Suc [OF Suc.hyps, of B]
    by (simp add: Suc.IH nth sha_functions_fips flip: W)
qed

lemma message_schedule_W:
  assumes "64 \<le> length B"
  shows "message_schedule B = map (fips_W B) [0..<64]"
proof -
  have "message_schedule B = schedule_upto B 64"
    by (simp only: message_schedule_def schedule_upto_def)
  then show ?thesis using schedule_upto_W [OF assms, of 64] by simp
qed

section \<open>Rounds\<close>

fun to_vars :: "uint32 list \<Rightarrow> work_vars" where
  "to_vars h = (h ! 0, h ! 1, h ! 2, h ! 3, h ! 4, h ! 5, h ! 6, h ! 7)"

lemma length_round_step [simp]: "length (round_step w wv j) = 8"
  by (simp add: round_step_def Let_def)

lemma nth_8_list:
  "[a, b, c, d, e, f, g, h] ! 0 = a" "[a, b, c, d, e, f, g, h] ! 1 = b"
  "[a, b, c, d, e, f, g, h] ! 2 = c" "[a, b, c, d, e, f, g, h] ! 3 = d"
  "[a, b, c, d, e, f, g, h] ! 4 = e" "[a, b, c, d, e, f, g, h] ! 5 = f"
  "[a, b, c, d, e, f, g, h] ! 6 = g" "[a, b, c, d, e, f, g, h] ! 7 = h"
  by (simp_all add: nth_Cons')

lemma round_step_fips:
  assumes "w ! j = fips_W B j" and "j < 64"
  shows "to_vars (round_step w wv j) = fips_round B (to_vars wv) j"
  using assms
  by (simp only: round_step_def Let_def to_vars.simps fips_round.simps nth_8_list
      sha_functions_fips SHA2_CH_def SHA2_MAJ_def sha256_k_fips)

lemma rounds_fips:
  assumes "\<And>j. j < n \<Longrightarrow> w ! j = fips_W B j" and "n \<le> 64"
  shows "to_vars (foldl (round_step w) wv [0..<n]) = foldl (fips_round B) (to_vars wv) [0..<n]"
  using assms
proof (induction n)
  case (Suc n)
  then have "to_vars (round_step w (foldl (round_step w) wv [0..<n]) n)
      = fips_round B (to_vars (foldl (round_step w) wv [0..<n])) n"
    by (intro round_step_fips) (simp_all add: Suc_le_eq)
  with Suc show ?case by (simp del: to_vars.simps)
qed simp

lemma upt8: "[0..<8] = [0, 1, 2, 3, 4, 5, 6, 7]"
  by (simp add: upt_rec)

lemma transform_block_fips:
  assumes "64 \<le> length B"
  shows "to_vars (transform_block h B) = fips_compress (to_vars h) B"
proof -
  let ?w = "message_schedule B" and ?h = "map (\<lambda>j. h ! j) [0..<8]"
  let ?wv = "foldl (round_step ?w) ?h [0..<64]"
  have h: "to_vars ?h = to_vars h"
    by (simp only: upt8 list.map to_vars.simps nth_8_list)
  have "to_vars ?wv = foldl (fips_round B) (to_vars h) [0..<64]"
    using rounds_fips [of 64 ?w B ?h] message_schedule_W [OF assms] h by simp
  moreover have "to_vars (transform_block h B) = add_vars (to_vars h) (to_vars ?wv)"
    by (simp only: transform_block_def Let_def upt8 list.map to_vars.simps nth_8_list add_vars.simps)
  ultimately show ?thesis
    by (simp only: fips_compress_def)
qed

lemma length_transform_block [simp]: "length (transform_block h B) = 8"
  by (simp add: transform_block_def Let_def)

lemma transform_block_take:
  assumes "64 \<le> length B"
  shows "transform_block h (take 64 B) = transform_block h B"
proof -
  have "SHA2_PACK32 (take 64 B) (4 * j) = SHA2_PACK32 B (4 * j)" if "j < 16" for j
    using that by (simp add: SHA2_PACK32_def)
  then have "message_schedule (take 64 B) = message_schedule B"
    unfolding message_schedule_def by (metis (no_types, lifting) atLeastLessThan_iff map_cong set_upt)
  then show ?thesis by (simp add: transform_block_def)
qed

section \<open>Blocks\<close>

definition absorb :: "uint32 list \<Rightarrow> byte list \<Rightarrow> nat \<Rightarrow> uint32 list" where
  "absorb h P n = foldl (\<lambda>h i. transform_block h (drop (64 * i) P)) h [0..<n]"

lemma absorb_0 [simp]: "absorb h P 0 = h"
  by (simp add: absorb_def)

lemma absorb_Suc: "absorb h P (Suc n) = transform_block (absorb h P n) (drop (64 * n) P)"
  by (simp add: absorb_def)

lemma absorb_cong:
  assumes "take (64 * n) P = take (64 * n) Q" "64 * n \<le> length P" "64 * n \<le> length Q"
  shows "absorb h P n = absorb h Q n"
  using assms
proof (induction n)
  case (Suc n)
  have "take (64 * n) P = take (64 * n) Q"
    using arg_cong [OF Suc.prems(1), of "take (64 * n)"] by (simp add: min_def)
  then have IH: "absorb h P n = absorb h Q n" using Suc by simp
  have "take 64 (drop (64 * n) P) = take 64 (drop (64 * n) Q)"
    using arg_cong [OF Suc.prems(1), of "drop (64 * n)"] by (simp add: drop_take)
  then have "transform_block (absorb h Q n) (drop (64 * n) P)
      = transform_block (absorb h Q n) (drop (64 * n) Q)"
    using Suc.prems transform_block_take [of "drop (64 * n) P" "absorb h Q n"]
      transform_block_take [of "drop (64 * n) Q" "absorb h Q n"] by simp
  then show ?case by (simp add: absorb_Suc IH)
qed simp

lemma absorb_append:
  assumes "length P = 64 * n"
  shows "absorb h (P @ Q) (n + m) = absorb (absorb h P n) Q m"
proof (induction m)
  case 0
  show ?case using assms by (simp add: absorb_cong)
next
  case (Suc m)
  then show ?case using assms by (simp add: absorb_Suc)
qed

lemma transform_absorb: "transform c P n = c\<lparr>m_h := absorb (m_h c) P (nat (sint n))\<rparr>"
  by (simp add: transform_def absorb_def)

lemma absorb_fips:
  assumes "64 * n \<le> length P"
  shows "to_vars (absorb h P n) =
    foldl (\<lambda>H i. fips_compress H (take 64 (drop (64 * i) P))) (to_vars h) [0..<n]"
  using assms
proof (induction n)
  case (Suc n)
  have "to_vars (absorb h P (Suc n)) = to_vars (transform_block (absorb h P n) (take 64 (drop (64 * n) P)))"
    using Suc.prems by (simp only: absorb_Suc) (subst transform_block_take, auto)
  also have "\<dots> = fips_compress (to_vars (absorb h P n)) (take 64 (drop (64 * n) P))"
    using Suc.prems by (intro transform_block_fips) simp
  finally show ?case using Suc by (simp del: to_vars.simps)
qed simp

section \<open>The streaming invariant\<close>

definition absorbed :: "sha256_ctx \<Rightarrow> byte list \<Rightarrow> bool" where
  "absorbed c M \<longleftrightarrow>
     m_len c = of_nat (length M mod 64)
     \<and> m_tot_len c = of_nat (64 * (length M div 64))
     \<and> length (m_block c) = 128
     \<and> take (length M mod 64) (m_block c) = drop (64 * (length M div 64)) M
     \<and> m_h c = absorb sha_init M (length M div 64)"

lemma absorbed_init: "length (m_block c) = 128 \<Longrightarrow> absorbed (init c) []"
  by (simp add: absorbed_def init_def sha_init_def)

lemma unat_of_nat_u32: "n < 2 ^ 32 \<Longrightarrow> unat (of_nat n :: uint32) = n"
  by (simp add: unat_of_nat)

lemma length_memcpy [simp]:
  "i + n \<le> length dst \<Longrightarrow> n \<le> length src \<Longrightarrow> length (memcpy dst i src n) = length dst"
  by (simp add: memcpy_def)

lemma absorbed_unat_len: "absorbed c M \<Longrightarrow> unat (m_len c) = length M mod 64"
  by (auto simp: absorbed_def intro!: unat_of_nat_u32 less_trans [OF mod_less_divisor])

lemma divmod64_short:
  fixes a n :: nat
  assumes "a mod 64 + n < 64"
  shows "(a + n) div 64 = a div 64" "(a + n) mod 64 = a mod 64 + n"
proof -
  have "a + n = (a mod 64 + n) + 64 * (a div 64)" by simp
  then show "(a + n) div 64 = a div 64" "(a + n) mod 64 = a mod 64 + n"
    using assms by (metis div_mult_self2 div_less add_0_right zero_neq_numeral,
        metis mod_mult_self2 mod_less)
qed

lemma update_short:
  assumes abs: "absorbed c M" and n: "length bs = n" and short: "length M mod 64 + n < 64"
  shows "absorbed (update c bs (of_nat n)) (M @ bs)"
proof -
  let ?l = "length M mod 64"
  have l: "unat (m_len c) = ?l" by (rule absorbed_unat_len [OF abs])
  have un: "unat (of_nat n :: uint32) = n" using short by (intro unat_of_nat_u32) simp
  have sum: "unat (m_len c + of_nat n) = ?l + n"
    using l un short by (simp add: unat_word_ariths)
  have lt: "(of_nat n :: uint32) < 64 - m_len c"
  proof -
    have "m_len c \<le> 64" using l by (simp add: word_le_nat_alt)
    then have "unat (64 - m_len c) = 64 - ?l" using l by (simp add: unat_sub)
    then show ?thesis using un short by (simp add: word_less_nat_alt)
  qed
  have "m_len c + of_nat n < 64" using sum short by (simp add: word_less_nat_alt)
  then have up: "update c bs (of_nat n) =
      c\<lparr>m_block := memcpy (m_block c) ?l bs n, m_len := m_len c + of_nat n\<rparr>"
    using lt by (simp add: update_def Let_def SHA224_256_BLOCK_SIZE_def l un)
  have div: "length (M @ bs) div 64 = length M div 64"
    and mod: "length (M @ bs) mod 64 = ?l + n"
    using n divmod64_short [OF short] by simp_all
  have len128: "length (m_block c) = 128" using abs by (simp add: absorbed_def)
  have blk: "take (?l + n) (memcpy (m_block c) ?l bs n) = take ?l (m_block c) @ bs"
    using len128 n short by (simp add: memcpy_def)
  have tail: "drop (64 * (length M div 64)) (M @ bs) = drop (64 * (length M div 64)) M @ bs"
    by simp
  have h: "absorb sha_init (M @ bs) (length M div 64) = absorb sha_init M (length M div 64)"
    by (rule absorb_cong) simp_all
  show ?thesis
    using abs n short unfolding up absorbed_def div mod
    by (simp add: blk tail h)
qed

lemma of_nat_div_u32:
  "a < 2 ^ 32 \<Longrightarrow> (of_nat a :: uint32) div 64 = of_nat (a div 64)"
  "a < 2 ^ 32 \<Longrightarrow> (of_nat a :: uint32) mod 64 = of_nat (a mod 64)"
  by (simp_all add: word_unat_eq_iff unat_div unat_mod unat_of_nat_u32 less_imp_diff_less
      unat_of_nat_u32 [OF le_less_trans [OF div_le_dividend]]
      unat_of_nat_u32 [OF le_less_trans [OF mod_less_eq_dividend]])

lemma sint_of_nat_u32: "a < 2 ^ 31 \<Longrightarrow> nat (sint (of_nat a :: uint32)) = a"
  by (simp add: signed_of_nat signed_take_bit_eq_if_positive take_bit_int_eq_self bit_iff_odd nat_eq_iff)

lemma push_bit_of_nat_u32: "push_bit k (of_nat a :: uint32) = of_nat (2 ^ k * a)"
  by (simp add: push_bit_eq_mult ac_simps)

lemma divmod64_long:
  fixes a n :: nat
  assumes "64 \<le> a mod 64 + n"
  defines "new \<equiv> n - (64 - a mod 64)"
  shows "(a + n) div 64 = a div 64 + 1 + new div 64" "(a + n) mod 64 = new mod 64"
proof -
  have "a + n = new + 64 * (a div 64 + 1)" using assms by simp
  then show "(a + n) div 64 = a div 64 + 1 + new div 64" "(a + n) mod 64 = new mod 64"
    by (metis div_mult_self2 zero_neq_numeral, metis mod_mult_self2)
qed

lemma update_long_eq:
  assumes ml: "m_len c = of_nat l" and l64: "l < 64" and long: "64 \<le> l + n" and n31: "n < 2 ^ 31"
    and r: "r = 64 - l" and new: "new = n - r"
  shows "update c bs (of_nat n) =
      c\<lparr>m_block := memcpy (memcpy (m_block c) l bs r) 0 (drop (64 * (new div 64)) (drop r bs)) (new mod 64),
        m_h := absorb (absorb (m_h c) (memcpy (m_block c) l bs r) 1) (drop r bs) (new div 64),
        m_len := of_nat (new mod 64),
        m_tot_len := m_tot_len c + push_bit 6 (of_nat (new div 64) + 1)\<rparr>"
proof -
  have lr: "r \<le> n" "r \<le> 64" "new < 2 ^ 31" "new div 64 < 2 ^ 31" "64 * (new div 64) < 2 ^ 32"
    using long n31 r new by auto
  have ul: "unat (m_len c) = l" using l64 by (simp add: ml unat_of_nat_u32)
  have rw: "64 - m_len c = (of_nat r :: uint32)"
    using l64 by (simp add: ml r of_nat_diff)
  have ur: "unat (of_nat r :: uint32) = r" using lr by (intro unat_of_nat_u32) simp
  have un: "unat (of_nat n :: uint32) = n" using n31 by (intro unat_of_nat_u32) simp
  have nlt: "\<not> (of_nat n :: uint32) < of_nat r" using lr ur un by (simp add: word_less_nat_alt)
  have "unat (m_len c + of_nat n) = l + n"
    using ul un l64 n31 by (simp add: unat_word_ariths)
  then have nl: "\<not> m_len c + of_nat n < 64" using long by (simp add: word_less_nat_alt)
  have nw: "of_nat n - of_nat r = (of_nat new :: uint32)"
    using lr by (simp add: new of_nat_diff)
  have nbw: "(of_nat new :: uint32) div 64 = of_nat (new div 64)"
    "(of_nat new :: uint32) mod 64 = of_nat (new mod 64)"
    using lr by (simp_all add: of_nat_div_u32)
  have umod: "unat (of_nat (new mod 64) :: uint32) = new mod 64"
    by (intro unat_of_nat_u32 less_trans [OF mod_less_divisor]) simp_all
  have upb: "unat (push_bit 6 (of_nat (new div 64) :: uint32)) = 64 * (new div 64)"
    using unat_of_nat_u32 [OF lr(5)] by (simp only: push_bit_of_nat_u32) simp
  show ?thesis
    using lr
    by (simp add: update_def Let_def SHA224_256_BLOCK_SIZE_def rw nlt nl ur nw nbw umod upb ul
        transform_absorb sint_of_nat_u32)
qed

lemma absorb_refill:
  assumes lM: "length M = 64 * q + l" and l64: "l < 64" and r: "r = 64 - l" "r \<le> length bs"
    and blk: "take l blk' = drop (64 * q) M" "blk = memcpy blk' l bs r" "length blk = 128"
  shows "absorb h (M @ bs) (q + (1 + nb)) = absorb (absorb (absorb h M q) blk 1) (drop r bs) nb"
proof -
  define P where "P = drop (64 * q) M @ take r bs"
  have P64: "length P = 64" using lM l64 r by (simp add: P_def)
  have "blk = P @ drop (l + r) blk'" using blk by (simp add: memcpy_def P_def)
  then have blkP: "take 64 blk = P" using P64 by simp
  have split: "M @ bs = take (64 * q) M @ P @ drop r bs" by (simp add: P_def)
  have "absorb h (M @ bs) (q + (1 + nb))
      = absorb (absorb h (take (64 * q) M) q) (P @ drop r bs) (1 + nb)"
    unfolding split using lM by (intro absorb_append) simp
  also have "\<dots> = absorb (absorb (absorb h (take (64 * q) M) q) P 1) (drop r bs) nb"
    using P64 by (intro absorb_append) simp
  also have "absorb h (take (64 * q) M) q = absorb h M q"
    using lM by (intro absorb_cong) simp_all
  also have "absorb (absorb h M q) P 1 = absorb (absorb h M q) blk 1"
    using P64 blkP blk(3) by (intro absorb_cong) auto
  finally show ?thesis .
qed

lemma update_long:
  assumes abs: "absorbed c M" and n: "length bs = n" and long: "64 \<le> length M mod 64 + n"
    and bound: "length M + n < 2 ^ 31"
  shows "absorbed (update c bs (of_nat n)) (M @ bs)"
proof -
  define l where "l = length M mod 64"
  define q where "q = length M div 64"
  define r where "r = 64 - l"
  define new where "new = n - r"
  define blk where "blk = memcpy (m_block c) l bs r"
  have l64: "l < 64" and lM: "length M = 64 * q + l" by (simp_all add: l_def q_def)
  have lr: "r \<le> n" using long by (simp add: r_def l_def)
  have c: "m_len c = of_nat l" "length (m_block c) = 128" "m_h c = absorb sha_init M q"
    "take l (m_block c) = drop (64 * q) M" "m_tot_len c = of_nat (64 * q)"
    using abs by (simp_all add: absorbed_def l_def q_def)
  have up: "update c bs (of_nat n) =
      c\<lparr>m_block := memcpy blk 0 (drop (64 * (new div 64)) (drop r bs)) (new mod 64),
        m_h := absorb (absorb (m_h c) blk 1) (drop r bs) (new div 64),
        m_len := of_nat (new mod 64),
        m_tot_len := m_tot_len c + push_bit 6 (of_nat (new div 64) + 1)\<rparr>"
    unfolding blk_def using bound long
    by (intro update_long_eq [OF c(1) l64 _ _ r_def new_def]) (simp_all add: l_def)
  have blk128: "length blk = 128" using c(2) l64 lr n by (simp add: blk_def r_def)
  have div: "length (M @ bs) div 64 = q + (1 + new div 64)" and mod: "length (M @ bs) mod 64 = new mod 64"
    using divmod64_long [OF long] n by (simp_all add: q_def new_def r_def l_def)
  have h: "absorb sha_init (M @ bs) (q + (1 + new div 64)) = absorb (absorb (m_h c) blk 1) (drop r bs) (new div 64)"
    unfolding c(3) using lr n by (intro absorb_refill [OF lM l64 r_def _ c(4) blk_def blk128]) simp
  have tail: "drop (64 * (q + (1 + new div 64))) (M @ bs) = drop (64 * (new div 64)) (drop r bs)"
    using lM l64 by (simp add: r_def add.commute)
  have lnew: "length (drop r bs) = new" using n by (simp add: new_def)
  have ltail: "length (drop (64 * (new div 64)) (drop r bs)) = new mod 64"
    unfolding length_drop [of "64 * (new div 64)"] lnew by (simp add: minus_mult_div_eq_mod)
  have tot: "m_tot_len c + push_bit 6 (of_nat (new div 64) + 1) = of_nat (64 * (q + (1 + new div 64)))"
    using c(5) push_bit_of_nat_u32 [of 6 "new div 64 + 1"] by (simp add: algebra_simps)
  show ?thesis
    unfolding absorbed_def up div mod tail h [symmetric] tot
    using ltail blk128 by (simp add: memcpy_def)
qed

lemma update_absorbed:
  assumes "absorbed c M" and "length M + length bs < 2 ^ 31"
  shows "absorbed (update c bs (of_nat (length bs))) (M @ bs)"
proof (cases "length M mod 64 + length bs < 64")
  case True
  with assms(1) show ?thesis by (intro update_short) simp_all
next
  case False
  with assms show ?thesis by (intro update_long) simp_all
qed

lemma upt4: "[0..<4] = [0, 1, 2, 3]"
  by (simp add: upt_rec)

lemma replicate4: "replicate 4 x = [x, x, x, x]"
  by (simp add: numeral_eq_Suc)

lemma memcpy_at_end:
  "length mid = n \<Longrightarrow> length src = n \<Longrightarrow>
   take (length pre + n) (memcpy (pre @ mid @ post) (length pre) src n) = pre @ src"
  by (simp add: memcpy_def)

lemma be64_small:
  assumes "l < 2 ^ 32"
  shows "be64 l = replicate 4 0 @ be_bytes (of_nat l)"
proof -
  have u: "unat (of_nat l :: uint32) = l" using assms by (rule unat_of_nat_u32)
  have z: "l div 256 ^ (4 + k) = 0" for k
  proof -
    have "l < 256 ^ 4" using assms by simp
    also have "(256 :: nat) ^ 4 \<le> 256 ^ (4 + k)" by (rule power_increasing) simp_all
    finally show ?thesis by simp
  qed
  have z4: "l div 256 ^ 4 = 0" "l div 256 ^ 5 = 0" "l div 256 ^ 6 = 0" "l div 256 ^ 7 = 0"
    using z [of 0] z [of 1] z [of 2] z [of 3] by simp_all
  have "be64 l = [of_nat (l div 256 ^ 7), of_nat (l div 256 ^ 6), of_nat (l div 256 ^ 5),
      of_nat (l div 256 ^ 4), of_nat (l div 256 ^ 3), of_nat (l div 256 ^ 2),
      of_nat (l div 256 ^ 1), of_nat (l div 256 ^ 0)]"
    by (simp only: be64_def upt8 list.map) simp
  also have "\<dots> = replicate 4 0 @ [of_nat (l div 256 ^ 3), of_nat (l div 256 ^ 2),
      of_nat (l div 256 ^ 1), of_nat (l div 256 ^ 0)]"
    by (simp only: z4 replicate4 append.simps) simp
  also have "[of_nat (l div 256 ^ 3), of_nat (l div 256 ^ 2),
      of_nat (l div 256 ^ 1), of_nat (l div 256 ^ 0)] = be_bytes (of_nat l)"
    by (simp only: be_bytes_def upt4 list.map u) simp
  finally show ?thesis .
qed

lemma pad_block:
  fixes l b :: nat
  assumes l: "l < 64" and b: "b = (if 55 < l then 2 else 1)" and blk: "length blk = 128"
    and four: "length lenb = 4"
  shows "take (64 * b) (memcpy ((memcpy blk l (replicate (64 * b - l) 0) (64 * b - l))[l := 0x80])
           (64 * b - 4) lenb 4)
    = take l blk @ [0x80] @ replicate ((119 - l) mod 64 + 4) 0 @ lenb"
proof -
  have k: "64 * b - l = Suc ((119 - l) mod 64 + 8)"
  proof (cases "55 < l")
    case True
    then have "(119 - l) mod 64 = 119 - l" using l by simp
    with True b l show ?thesis by simp
  next
    case False
    then have "(119 - l) mod 64 = 55 - l" using mod_if [of "119 - l" 64] by simp
    with False b l show ?thesis by simp
  qed
  define m where "m = (119 - l) mod 64 + 4"
  have k': "64 * b - l = Suc (m + 4)" using k by (simp add: m_def)
  have b128: "64 * b \<le> 128" "l \<le> 64 * b" using b l by auto
  have "(memcpy blk l (replicate (64 * b - l) 0) (64 * b - l))[l := 0x80]
      = take l blk @ 0x80 # replicate (m + 4) 0 @ drop (64 * b) blk"
  proof -
    have "(memcpy blk l (replicate (64 * b - l) 0) (64 * b - l))
        = take l blk @ replicate (64 * b - l) 0 @ drop (64 * b) blk"
      using b128 by (simp add: memcpy_def)
    also have "\<dots> = take l blk @ 0 # replicate (m + 4) 0 @ drop (64 * b) blk"
      unfolding k' replicate_Suc by simp
    finally show ?thesis using blk l by (simp add: list_update_append)
  qed
  then have "(memcpy blk l (replicate (64 * b - l) 0) (64 * b - l))[l := 0x80]
      = (take l blk @ [0x80] @ replicate m 0) @ replicate 4 0 @ drop (64 * b) blk" (is "?x = ?pre @ _")
    by (simp add: replicate_add)
  moreover have "64 * b - 4 = length ?pre" "64 * b = length ?pre + 4"
    using k' b128 blk l by simp_all
  ultimately show ?thesis
    using memcpy_at_end [of "replicate 4 0" 4 lenb ?pre] four
    by (simp add: m_def [symmetric])
qed


lemma to_vars_sha_init: "to_vars sha_init = fips_H0"
  by (simp add: fips_H0_def sha_init_fips)

text \<open>What \<open>final\<close> computes, with the word arithmetic resolved.\<close>

lemma final_eq:
  assumes ml: "m_len c = of_nat l" and l64: "l < 64" and b: "b = (if 55 < l then 2 else 1)"
    and tot: "m_tot_len c + m_len c = of_nat n"
  shows "snd (final c) = concat (map (\<lambda>i. be_bytes (absorb (m_h c)
     (memcpy ((memcpy (m_block c) l (replicate (64 * b - l) 0) (64 * b - l))[l := 0x80])
        (64 * b - 4) (be_bytes (of_nat (8 * n))) 4) b ! i)) [0..<8])"
proof -
  have ul: "unat (m_len c) = l" using l64 by (simp add: ml unat_of_nat_u32)
  have b12: "b \<le> 2" "1 \<le> b" by (simp_all add: b)
  have bw: "1 + (if 64 - 9 < m_len c mod 64 then 1 else 0) = (of_nat b :: uint32)"
  proof -
    have "unat (m_len c mod 64) = l" using ul l64 by (simp add: unat_mod)
    then have "(64 - 9 < m_len c mod 64) = (55 < l)" by (simp add: word_less_nat_alt)
    then show ?thesis by (simp add: b)
  qed
  have pm: "push_bit 6 (of_nat b :: uint32) = of_nat (64 * b)"
    by (simp only: push_bit_of_nat_u32) simp
  have upm: "unat (of_nat (64 * b) :: uint32) = 64 * b" using b12 by (intro unat_of_nat_u32) simp
  have udiff: "unat (of_nat (64 * b) - m_len c) = 64 * b - l"
  proof -
    have "m_len c \<le> of_nat (64 * b)" using ul upm l64 b12 by (simp only: word_le_nat_alt)
    then show ?thesis using ul upm by (simp only: unat_sub)
  qed
  have lb: "push_bit 3 (m_tot_len c + m_len c) = (of_nat (8 * n) :: uint32)"
    unfolding tot by (simp only: push_bit_of_nat_u32) simp
  have nb: "nat (sint (of_nat b :: uint32)) = b" using b12 by (intro sint_of_nat_u32) simp
  show ?thesis
    unfolding final_def Let_def SHA224_256_BLOCK_SIZE_def bw pm lb ul udiff upm transform_absorb nb
      SHA2_UNPACK32_be_bytes
    by simp
qed

text \<open>The buffer \<open>final\<close> builds is the tail of the padded message.\<close>

lemma final_block_is_pad:
  assumes l64: "l < 64" and lenM: "length M = 64 * q + l" and bound: "length M < 2 ^ 29"
    and b: "b = (if 55 < l then 2 else 1)" and buf: "length buf = 128" "take l buf = drop (64 * q) M"
    and blk: "blk = memcpy ((memcpy buf l (replicate (64 * b - l) 0) (64 * b - l))[l := 0x80])
      (64 * b - 4) (be_bytes (of_nat (8 * length M))) 4"
  shows "take (64 * b) blk = drop (64 * q) (fips_pad M)" "length blk = 128"
    "length (fips_pad M) = 64 * (q + b)"
proof -
  have b12: "b \<le> 2" "1 \<le> b" by (simp_all add: b)
  have lmod: "length M mod 64 = l" using lenM l64 by simp
  have "take (64 * b) blk = take l buf @ [0x80] @ replicate ((119 - l) mod 64 + 4) 0
      @ be_bytes (of_nat (8 * length M))"
    unfolding blk by (rule pad_block [OF l64 b buf(1)]) simp
  also have "\<dots> = drop (64 * q) (fips_pad M)"
    using bound lenM l64 lmod by (simp add: fips_pad_def buf(2) be64_small replicate_add)
  finally show t: "take (64 * b) blk = drop (64 * q) (fips_pad M)" .
  show len: "length blk = 128" using buf(1) b12 l64 by (simp add: blk memcpy_def)
  have "length (drop (64 * q) (fips_pad M)) = 64 * b"
    unfolding t [symmetric] using len b12 by simp
  moreover have "64 * q \<le> length (fips_pad M)" using lenM by (simp add: fips_pad_def)
  ultimately show "length (fips_pad M) = 64 * (q + b)" by simp
qed

lemma final_fips:
  assumes abs: "absorbed c M" and bound: "length M < 2 ^ 29"
  shows "snd (final c) = fips_sha256 M"
proof -
  define l where "l = length M mod 64"
  define q where "q = length M div 64"
  define b :: nat where "b = (if 55 < l then 2 else 1)"
  define blk where "blk = memcpy ((memcpy (m_block c) l (replicate (64 * b - l) 0) (64 * b - l))[l := 0x80])
      (64 * b - 4) (be_bytes (of_nat (8 * length M))) 4"
  have l64: "l < 64" and lenM: "length M = 64 * q + l" by (simp_all add: q_def l_def)
  have c: "m_len c = of_nat l" "length (m_block c) = 128" "m_h c = absorb sha_init M q"
    "take l (m_block c) = drop (64 * q) M" "m_tot_len c = of_nat (64 * q)"
    using abs by (simp_all add: absorbed_def l_def q_def)
  have tot: "m_tot_len c + m_len c = of_nat (length M)" unfolding c lenM by simp
  note pad = final_block_is_pad [OF l64 lenM bound b_def c(2) c(4) blk_def]
  have pre: "take (64 * q) (fips_pad M) = take (64 * q) M" using lenM by (simp add: fips_pad_def)
  have "absorb sha_init (fips_pad M) (q + b) = absorb (m_h c) (drop (64 * q) (fips_pad M)) b"
  proof -
    have "absorb sha_init (take (64 * q) (fips_pad M) @ drop (64 * q) (fips_pad M)) (q + b)
        = absorb (absorb sha_init (take (64 * q) (fips_pad M)) q) (drop (64 * q) (fips_pad M)) b"
      using pad(3) by (intro absorb_append) simp
    also have "absorb sha_init (take (64 * q) (fips_pad M)) q = m_h c"
      unfolding pre c(3) using lenM by (intro absorb_cong) simp_all
    finally show ?thesis by simp
  qed
  also have "\<dots> = absorb (m_h c) blk b"
    using pad by (intro absorb_cong) (auto simp: b_def)
  finally have "snd (final c) = fips_digest (to_vars (absorb sha_init (fips_pad M) (q + b)))"
    unfolding final_eq [OF c(1) l64 b_def tot] blk_def [symmetric]
    by (simp only: upt8 list.map fips_digest.simps to_vars.simps)
  moreover have "to_vars (absorb sha_init (fips_pad M) (q + b)) = fips_hash (fips_pad M)"
    using absorb_fips [of "q + b" "fips_pad M" sha_init] pad(3)
    by (simp add: fips_hash_def to_vars_sha_init del: to_vars.simps)
  ultimately show ?thesis by (simp only: fips_sha256_def)
qed

section \<open>Hexadecimal output\<close>

lemma hex_digit_inj: "i < 16 \<Longrightarrow> j < 16 \<Longrightarrow> hex_digit i = hex_digit j \<Longrightarrow> i = j"
  using arg_cong [of "hex_digit i" "hex_digit j" "of_char :: char \<Rightarrow> nat"]
  by (auto simp: hex_digit_def of_char_of split: if_splits)

lemma length_hex_byte [simp]: "length (hex_byte b) = 2"
  by (simp add: hex_byte_def)

lemma unat_byte_div16: "unat (b :: byte) div 16 < 16"
proof -
  have "unat b < 2 ^ LENGTH(8)" by (rule unsigned_less)
  then show ?thesis by auto
qed

lemma hex_byte_inj: "hex_byte a = hex_byte b \<longleftrightarrow> a = b"
proof
  assume "hex_byte a = hex_byte b"
  moreover have "unat a div 16 < 16" "unat b div 16 < 16"
    by (simp_all add: unat_byte_div16)
  ultimately have "unat a div 16 = unat b div 16" "unat a mod 16 = unat b mod 16"
    by (auto simp: hex_byte_def intro!: hex_digit_inj)
  then have "unat a = unat b" by (metis div_mult_mod_eq)
  then show "a = b" by (simp add: word_unat_eq_iff)
qed simp

lemma length_concat_hex: "length (concat (map hex_byte bs)) = 2 * length bs"
  by (induction bs) simp_all

lemma concat_hex_inj: "concat (map hex_byte as) = concat (map hex_byte bs) \<longleftrightarrow> as = bs"
proof (induction as arbitrary: bs)
  case Nil
  then show ?case by (cases bs) (auto simp: hex_byte_def)
next
  case (Cons a as)
  then show ?case by (cases bs) (auto simp: hex_byte_inj, simp add: hex_byte_def)
qed

lemma length_final: "length (snd (final c)) = 32"
  by (simp add: final_def Let_def SHA2_UNPACK32_be_bytes upt8)

lemma sha256_digest_fips:
  assumes "length M < 2 ^ 29"
  shows "sha256_digest M = fips_sha256 M"
proof -
  have "absorbed (init fresh_ctx) []" by (rule absorbed_init) (simp add: fresh_ctx_def)
  from update_absorbed [OF this, of M] assms
  have "absorbed (update (init fresh_ctx) M (of_nat (length M))) M" by simp
  from final_fips [OF this assms] show ?thesis by (simp add: sha256_digest_def)
qed

section \<open>Properties\<close>

text \<open>C5: on every input shorter than 2^29 bytes (beyond that the 32 bit length counter of the
  class wraps) \<^verbatim>\<open>sha256\<close> returns the lower-case hexadecimal SHA-256 of FIPS 180-4.\<close>

theorem sha256_is_fips:
  "length input < 2 ^ 29 \<Longrightarrow>
   sha256 input = concat (map hex_byte (fips_sha256 (bytes_of input)))"
  by (simp add: sha256_def sha256_digest_fips)

theorem sha256_is_fips_witness:
  "length ''abc'' < (2 :: nat) ^ 29
   \<and> sha256 ''abc'' = concat (map hex_byte (fips_sha256 [97, 98, 99]))"
proof -
  have "length ''abc'' < (2 :: nat) ^ 29" by simp
  moreover have "bytes_of ''abc'' = [97, 98, 99]" by (simp add: bytes_of_def)
  ultimately show ?thesis using sha256_is_fips [of "''abc''"] by simp
qed

text \<open>C18: the context may be fed in pieces: however a message is split over two calls of
  \<^verbatim>\<open>update\<close>, \<^verbatim>\<open>final\<close> yields the digest of the whole message.\<close>

theorem update_in_pieces:
  assumes "length a + length b < 2 ^ 29" and "length (m_block c) = 128"
  shows "snd (final (update (update (init c) a (of_nat (length a))) b (of_nat (length b))))
    = sha256_digest (a @ b)"
proof -
  have "absorbed (update (init c) a (of_nat (length a))) ([] @ a)"
    using assms by (intro update_absorbed absorbed_init) simp_all
  then have "absorbed (update (update (init c) a (of_nat (length a))) b (of_nat (length b))) (([] @ a) @ b)"
    by (rule update_absorbed) (use assms in simp)
  from final_fips [OF this] assms sha256_digest_fips [of "a @ b"] show ?thesis by simp
qed

theorem update_in_pieces_witness:
  "snd (final (update (update (init fresh_ctx) (replicate 60 7) (of_nat 60)) (replicate 70 9) (of_nat 70)))
   = sha256_digest (replicate 60 7 @ replicate 70 9)"
  using update_in_pieces [of "replicate 60 7" "replicate 70 9" fresh_ctx]
  by (simp add: fresh_ctx_def)

text \<open>C26: the stored password hash is always 64 characters long and two passwords get the same
  hash exactly when their digests agree: the hexadecimal form loses nothing.\<close>

theorem sha256_hex_form:
  "length (sha256 a) = 64
   \<and> (sha256 a = sha256 b \<longleftrightarrow> sha256_digest (bytes_of a) = sha256_digest (bytes_of b))"
  by (simp add: sha256_def length_concat_hex concat_hex_inj) (simp add: sha256_digest_def length_final)

end
