(* ===== verification/Token_Pool.thy ===== *)
theory Token_Pool
  imports Prelude
begin

text \<open>
  \<^verbatim>\<open>src/tokenPool.h\<close>: the process-wide pool of 64 bit client tokens. The random engine with
  \<^verbatim>\<open>uniform_int_distribution<uint64_t>{1, UINT64_MAX}\<close> is the stream of values it will
  draw; each turn of the loop in \<^verbatim>\<open>allocate\<close> takes one. The loop ends when a draw is not in
  \<^verbatim>\<open>used_\<close>; on a finite prefix of the stream that is all in use the result is \<open>None\<close>.
  The mutex makes each operation atomic, so an operation is a function on the pool.
\<close>

record TokenPool64 =
  used :: "token set"
  draws :: "token list"

fun allocate_loop :: "token list \<Rightarrow> token set \<Rightarrow> (token \<times> token list) option" where
  "allocate_loop [] us = None"
| "allocate_loop (t # ts) us = (if t \<notin> us then Some (t, ts) else allocate_loop ts us)"

definition allocate :: "TokenPool64 \<Rightarrow> (token \<times> TokenPool64) option" where
  "allocate p =
     (case allocate_loop (draws p) (used p) of
        None \<Rightarrow> None
      | Some (t, rest) \<Rightarrow> Some (t, p\<lparr>used := insert t (used p), draws := rest\<rparr>))"

definition release :: "token \<Rightarrow> TokenPool64 \<Rightarrow> TokenPool64" where
  "release t p = p\<lparr>used := used p - {t}\<rparr>"

text \<open>The contract the clients rely on: a token handed out is new, and is kept until released.\<close>

locale unique_ids =
  fixes alloc :: "'p \<Rightarrow> ('i \<times> 'p) option"
    and free :: "'i \<Rightarrow> 'p \<Rightarrow> 'p"
    and live :: "'p \<Rightarrow> 'i set"
  assumes alloc_new: "alloc p = Some (i, p') \<Longrightarrow> i \<notin> live p"
    and alloc_live: "alloc p = Some (i, p') \<Longrightarrow> live p' = insert i (live p)"
    and free_live: "live (free i p) = live p - {i}"
begin

lemma alloc_twice_distinct:
  "alloc p = Some (i, p') \<Longrightarrow> alloc p' = Some (j, p'') \<Longrightarrow> i \<noteq> j"
  using alloc_new alloc_live by blast

lemma alloc_free_live: "alloc p = Some (i, p') \<Longrightarrow> live (free i p') = live p"
  using alloc_new alloc_live free_live by fastforce

end

lemma allocate_loop_Some:
  "allocate_loop ds us = Some (t, rest) \<Longrightarrow>
   \<exists>skipped. ds = skipped @ t # rest \<and> set skipped \<subseteq> us \<and> t \<notin> us"
proof (induction ds)
  case (Cons d ds)
  show ?case
  proof (cases "d \<in> us")
    case True
    with Cons obtain skipped where "ds = skipped @ t # rest" "set skipped \<subseteq> us" "t \<notin> us"
      by auto
    with True show ?thesis by (intro exI [of _ "d # skipped"]) simp
  next
    case False
    with Cons.prems show ?thesis by (intro exI [of _ "[]"]) auto
  qed
qed simp

lemma allocate_loop_None_iff: "allocate_loop ds us = None \<longleftrightarrow> set ds \<subseteq> us"
  by (induction ds) auto

interpretation tp: unique_ids allocate release used
  by unfold_locales
    (auto simp: allocate_def release_def split: option.splits dest: allocate_loop_Some)

text \<open>The distribution never yields 0.\<close>

definition pool_ok :: "TokenPool64 \<Rightarrow> bool" where
  "pool_ok p \<longleftrightarrow> finite (used p) \<and> 0 \<notin> used p \<and> 0 \<notin> set (draws p)"

lemma allocate_pool_ok: "pool_ok p \<Longrightarrow> allocate p = Some (t, p') \<Longrightarrow> pool_ok p' \<and> t \<noteq> 0"
  by (auto simp: pool_ok_def allocate_def split: option.splits dest!: allocate_loop_Some)

lemma release_pool_ok: "pool_ok p \<Longrightarrow> pool_ok (release t p)"
  by (simp add: pool_ok_def release_def)

section \<open>Properties\<close>

text \<open>C20: a token that \<^verbatim>\<open>allocate\<close> returns is not zero, was not in use, and is in use
  afterwards, together with exactly the tokens that were in use before.\<close>

theorem allocate_fresh:
  assumes "pool_ok p" and "allocate p = Some (t, p')"
  shows "t \<noteq> 0 \<and> t \<notin> used p \<and> used p' = insert t (used p) \<and> pool_ok p'"
  using assms allocate_pool_ok tp.alloc_new tp.alloc_live by blast

theorem allocate_fresh_witness:
  "allocate \<lparr>used = {7, 9}, draws = [7, 9, 7, 5, 1]\<rparr> = Some (5, \<lparr>used = {5, 7, 9}, draws = [1]\<rparr>)
   \<and> (5 :: token) \<noteq> 0 \<and> (5 :: token) \<notin> {7, 9}"
proof -
  let ?p = "\<lparr>used = {7, 9}, draws = [7, 9, 7, 5, 1]\<rparr> :: TokenPool64"
  have "pool_ok ?p" by (simp add: pool_ok_def)
  moreover have a: "allocate ?p = Some (5, \<lparr>used = {5, 7, 9}, draws = [1]\<rparr>)"
    by (simp add: allocate_def)
  ultimately show ?thesis using allocate_fresh [of ?p 5] by auto
qed

text \<open>C21: the loop of \<^verbatim>\<open>allocate\<close> returns as soon as the engine draws a value that is not in
  use, and it returns the first such value; it runs on only while every draw is in use.\<close>

theorem allocate_returns:
  "(\<exists>t p'. allocate p = Some (t, p')) \<longleftrightarrow> (\<exists>d \<in> set (draws p). d \<notin> used p)"
  by (auto simp: allocate_def allocate_loop_None_iff split: option.splits
      dest: allocate_loop_Some)

end
