(* ===== verification/Std_Map.thy ===== *)
theory Std_Map
  imports Prelude
begin

text \<open>
  \<^verbatim>\<open>std::map\<close> as the sources use it: an association list in increasing key order, so that
  the range-for loops of the code (\<^verbatim>\<open>HandleError\<close>, \<^verbatim>\<open>Server::Stop\<close>,
  \<^verbatim>\<open>PrintStatus\<close>) visit the elements in the order of the container. The locale
  \<open>ordered_dict\<close> is the contract the components rely on; it is interpreted on these
  functions.
\<close>

type_synonym ('k, 'v) std_map = "('k \<times> 'v) list"

fun map_put :: "'k::linorder \<Rightarrow> 'v \<Rightarrow> ('k, 'v) std_map \<Rightarrow> ('k, 'v) std_map" where
  "map_put k v [] = [(k, v)]"
| "map_put k v ((k', v') # m) =
     (if k < k' then (k, v) # (k', v') # m
      else if k = k' then (k, v) # m
      else (k', v') # map_put k v m)"

fun map_find :: "'k::linorder \<Rightarrow> ('k, 'v) std_map \<Rightarrow> 'v option" where
  "map_find k [] = None"
| "map_find k ((k', v') # m) =
     (if k = k' then Some v' else if k < k' then None else map_find k m)"

fun map_erase :: "'k::linorder \<Rightarrow> ('k, 'v) std_map \<Rightarrow> ('k, 'v) std_map" where
  "map_erase k [] = []"
| "map_erase k ((k', v') # m) =
     (if k = k' then m else if k < k' then (k', v') # m else (k', v') # map_erase k m)"

definition map_ok :: "('k::linorder, 'v) std_map \<Rightarrow> bool" where
  "map_ok m \<longleftrightarrow> sorted_wrt (<) (map fst m)"

lemma alist_by_keys:
  assumes "distinct (map fst xs)"
  shows "xs = map (\<lambda>k. (k, the (map_of xs k))) (map fst xs)"
proof (rule nth_equalityI)
  fix i assume "i < length xs"
  then have "map_of xs (fst (xs ! i)) = Some (snd (xs ! i))"
    using assms by simp
  with \<open>i < length xs\<close> show "xs ! i = map (\<lambda>k. (k, the (map_of xs k))) (map fst xs) ! i"
    by simp
qed simp

locale ordered_dict =
  fixes nothing :: "'m"
    and put :: "'k::linorder \<Rightarrow> 'v \<Rightarrow> 'm \<Rightarrow> 'm"
    and find :: "'k \<Rightarrow> 'm \<Rightarrow> 'v option"
    and erase :: "'k \<Rightarrow> 'm \<Rightarrow> 'm"
    and elems :: "'m \<Rightarrow> ('k \<times> 'v) list"
    and wf :: "'m \<Rightarrow> bool"
  assumes find_nothing: "find k nothing = None"
    and find_put: "wf m \<Longrightarrow> find k (put k' v m) = (if k = k' then Some v else find k m)"
    and find_erase: "wf m \<Longrightarrow> find k (erase k' m) = (if k = k' then None else find k m)"
    and elems_find: "wf m \<Longrightarrow> (k, v) \<in> set (elems m) \<longleftrightarrow> find k m = Some v"
    and elems_ordered: "wf m \<Longrightarrow> sorted_wrt (<) (map fst (elems m))"
    and wf_nothing: "wf nothing"
    and wf_put: "wf m \<Longrightarrow> wf (put k v m)"
    and wf_erase: "wf m \<Longrightarrow> wf (erase k m)"
begin

lemma find_put_same: "wf m \<Longrightarrow> find k (put k v m) = Some v"
  by (simp add: find_put)

lemma find_put_other: "wf m \<Longrightarrow> k \<noteq> k' \<Longrightarrow> find k (put k' v m) = find k m"
  by (simp add: find_put)

lemma find_erase_same: "wf m \<Longrightarrow> find k (erase k m) = None"
  by (simp add: find_erase)

lemma elems_distinct: "wf m \<Longrightarrow> distinct (map fst (elems m))"
  using elems_ordered strict_sorted_iff by blast

lemma elems_determined:
  assumes "wf m" and "wf n" and "\<And>k. find k m = find k n"
  shows "elems m = elems n"
proof -
  have keys: "set (elems m) = set (elems n)"
    using assms by (auto simp: elems_find)
  have fsts: "map fst (elems m) = map fst (elems n)"
    using assms(1,2) keys by (intro strict_sorted_equal elems_ordered) (auto simp: set_map)
  have "map_of (elems m) = map_of (elems n)"
    using keys elems_distinct [OF assms(1)] elems_distinct [OF assms(2)]
    by (simp add: map_of_inject_set)
  then show ?thesis
    using fsts alist_by_keys [OF elems_distinct [OF assms(1)]]
      alist_by_keys [OF elems_distinct [OF assms(2)]] by simp
qed

lemma elems_put_perm:
  "wf m \<Longrightarrow> set (elems (put k v m)) = insert (k, v) {(k', v') \<in> set (elems m). k' \<noteq> k}"
  by (auto simp: elems_find find_put wf_put split: if_splits)

lemma elems_erase: "wf m \<Longrightarrow> set (elems (erase k m)) = {(k', v') \<in> set (elems m). k' \<noteq> k}"
  by (auto simp: elems_find find_erase wf_erase split: if_splits)

end

lemma map_ok_Nil [simp]: "map_ok []"
  by (simp add: map_ok_def)

lemma map_ok_Cons [simp]: "map_ok ((k, v) # m) \<longleftrightarrow> map_ok m \<and> (\<forall>k' \<in> fst ` set m. k < k')"
  by (auto simp: map_ok_def)

lemma keys_map_put: "fst ` set (map_put k v m) = insert k (fst ` set m)"
  by (induction k v m rule: map_put.induct) auto

lemma keys_map_erase: "fst ` set (map_erase k m) \<subseteq> fst ` set m"
  by (induction k m rule: map_erase.induct) auto

lemma map_ok_put [simp, intro]: "map_ok m \<Longrightarrow> map_ok (map_put k v m)"
  by (induction k v m rule: map_put.induct) (auto simp: keys_map_put)

lemma map_ok_erase [simp, intro]: "map_ok m \<Longrightarrow> map_ok (map_erase k m)"
proof (induction k m rule: map_erase.induct)
  case (2 k k' v' m)
  from "2.prems" have ok: "map_ok m" and lt: "\<forall>x \<in> fst ` set m. k' < x"
    by simp_all
  from lt have lt': "\<forall>x \<in> fst ` set (map_erase k m). k' < x"
    using keys_map_erase [of k m] by blast
  show ?case
  proof (cases "k \<le> k'")
    case True
    with "2.prems" ok show ?thesis by simp
  next
    case False
    then have "\<not> k < k'" "k \<noteq> k'" by simp_all
    with "2.IH" ok have "map_ok (map_erase k m)" by simp
    with \<open>\<not> k < k'\<close> \<open>k \<noteq> k'\<close> lt' show ?thesis by simp
  qed
qed simp

lemma map_find_None_le: "map_ok m \<Longrightarrow> \<forall>k' \<in> fst ` set m. k < k' \<Longrightarrow> map_find k m = None"
  by (cases m) auto

lemma map_find_below [simp]:
  "map_ok m \<Longrightarrow> \<forall>x \<in> set m. k' < fst x \<Longrightarrow> k \<le> k' \<Longrightarrow> map_find k m = None"
  by (rule map_find_None_le) (auto intro: le_less_trans)

lemma map_find_put [simp]:
  "map_ok m \<Longrightarrow> map_find k (map_put k' v m) = (if k = k' then Some v else map_find k m)"
  by (induction k' v m rule: map_put.induct) auto

lemma map_find_erase [simp]:
  "map_ok m \<Longrightarrow> map_find k (map_erase k' m) = (if k = k' then None else map_find k m)"
  by (induction k' m rule: map_erase.induct) auto

lemma map_find_mem: "map_ok m \<Longrightarrow> (k, v) \<in> set m \<longleftrightarrow> map_find k m = Some v"
proof (induction k m rule: map_find.induct)
  case (2 k k' v' m)
  have "(k, v) \<notin> set m" if "\<not> k' < k"
    using that "2.prems" by (auto simp: not_less)
  with 2 show ?case by (cases "k = k'") (auto simp: not_less)
qed simp

lemma map_find_keys: "map_ok m \<Longrightarrow> {k. map_find k m \<noteq> None} = fst ` set m"
  by (auto simp: map_find_mem [symmetric] image_iff) force

interpretation sm: ordered_dict "[]" map_put map_find map_erase "\<lambda>m. m" map_ok
  by unfold_locales (simp_all add: map_find_mem, simp_all add: map_ok_def)

end
