(* ===== verification/Client_Socket.thy ===== *)
theory Client_Socket
  imports Std_Map Util Token_Pool
begin

text \<open>
  \<^verbatim>\<open>src/clientInterface.h\<close>, \<^verbatim>\<open>src/ClientSocket.h\<close> and \<^verbatim>\<open>src/ClientSocket.cpp\<close>:
  one connected client. A \<^verbatim>\<open>std::function\<close> stored in a handler table is a value of the type
  \<open>'h\<close> (packet handlers) or \<open>'e\<close> (error handlers) chosen by the user of the class. The
  asio operations a client has started and that have not completed are part of its state
  (\<open>cs_reading\<close>, \<open>cs_writing\<close>); a completion handler is a function of its own. The bytes
  \<^verbatim>\<open>new char[4096]\<close> returns are whatever the allocator left there (\<open>cs_alloc\<close>).

  The write queue is the only owner of the buffers it holds: \<^verbatim>\<open>asio::buffer(*bufferShared)\<close> is a
  pointer and a length, and the completion handler captures only \<^verbatim>\<open>self\<close>. A buffer is therefore known by
  its number, counted from the first one posted: \<open>cs_popped\<close> buffers have left the queue and are
  released, the one in front has the number \<open>cs_popped\<close>, and an outstanding write is the number of the
  buffer it points to, with the bytes that were in it.
\<close>

section \<open>The interface IClient\<close>

record ('c, 'h, 'e) IClient =
  Init :: "'c \<Rightarrow> bool \<times> 'c"
  Stop :: "'c \<Rightarrow> 'c"
  PostWrite :: "byte list \<Rightarrow> 'c \<Rightarrow> bool \<times> 'c"
  SetPacketHandler :: "int \<Rightarrow> 'h \<Rightarrow> 'c \<Rightarrow> 'c"
  SetErrorHandler :: "int \<Rightarrow> 'e \<Rightarrow> 'c \<Rightarrow> 'c"
  RemovePacketHandler :: "int \<Rightarrow> 'c \<Rightarrow> 'c"
  RemoveDisconnectHandler :: "int \<Rightarrow> 'c \<Rightarrow> 'c"
  ClearPacketHandler :: "'c \<Rightarrow> 'c"
  ClearDisconnectHandler :: "'c \<Rightarrow> 'c"
  GetToken :: "'c \<Rightarrow> token"
  SetLoginKey :: "string \<Rightarrow> 'c \<Rightarrow> 'c"
  GetLoginKey :: "'c \<Rightarrow> string"

section \<open>ClientSocket\<close>

record ('h, 'e) ClientSocket =
  cs_open :: bool
  cs_token :: token
  cs_loginKey :: string
  cs_alloc :: "byte list"
  cs_recvBuffer :: "byte list option"
  cs_writeBufferQueue :: "byte list list"
  cs_packetHandler :: "(int, 'h) std_map"
  cs_disconnectHandler :: "(int, 'e) std_map"
  cs_reading :: nat
  cs_popped :: nat
  cs_writing :: "(nat \<times> byte list) list"

definition RECV_BUFFER_SIZE :: nat where
  "RECV_BUFFER_SIZE = 4096"

text \<open>The constructor takes a token from the pool; the destructor gives it back.\<close>

definition ClientSocket_ctor :: "byte list \<Rightarrow> TokenPool64 \<Rightarrow> (('h, 'e) ClientSocket \<times> TokenPool64) option" where
  "ClientSocket_ctor fill pool =
     (case allocate pool of
        None \<Rightarrow> None
      | Some (t, pool') \<Rightarrow>
          Some (\<lparr>cs_open = True, cs_token = t, cs_loginKey = [], cs_alloc = fill,
                 cs_recvBuffer = None, cs_writeBufferQueue = [], cs_packetHandler = [],
                 cs_disconnectHandler = [], cs_reading = 0, cs_popped = 0, cs_writing = []\<rparr>, pool'))"

definition ClientSocket_dtor :: "('h, 'e) ClientSocket \<Rightarrow> TokenPool64 \<Rightarrow> TokenPool64" where
  "ClientSocket_dtor c pool = release (cs_token c) pool"

subsection \<open>Reading\<close>

definition ReadAsync :: "('h, 'e) ClientSocket \<Rightarrow> ('h, 'e) ClientSocket" where
  "ReadAsync c = c\<lparr>cs_reading := Suc (cs_reading c)\<rparr>"

text \<open>
  \<^verbatim>\<open>async_read_some\<close> puts the \<open>n\<close> bytes it received at the front of the buffer; what the
  buffer held behind them stays.
\<close>

definition fill_buffer :: "byte list \<Rightarrow> byte list \<Rightarrow> byte list" where
  "fill_buffer buf received = received @ drop (length received) buf"

text \<open>
  The body of the completion handler for a read without error: the magic, then the type and the
  total length from the header. The length test compares an \<^verbatim>\<open>int\<close> with a \<^verbatim>\<open>size_t\<close>, so
  the \<^verbatim>\<open>int\<close> is sign extended to 64 bits; \<^verbatim>\<open>length - 12\<close> is computed on
  \<^verbatim>\<open>size_t\<close> and truncated to the \<^verbatim>\<open>int\<close> parameter of \<^verbatim>\<open>HandlePacket\<close>. The
  result is the type, the data pointer (the buffer from byte 12 on) and that length.
\<close>

definition decode_packet :: "byte list \<Rightarrow> nat \<Rightarrow> (int \<times> byte list \<times> int) option" where
  "decode_packet buffer n =
     (if take 4 buffer = bytes_of ''prot'' then
        (let type = sint (load_int32_le buffer 4);
             totalDataLength = load_int32_le buffer 8
         in if (scast totalDataLength :: uint64) \<noteq> of_nat n then None
            else Some (type, drop 12 buffer, sint (ucast (of_nat n - 12 :: uint64) :: int32)))
      else None)"

subsection \<open>Writing\<close>

definition PushWriteBuffer :: "byte list \<Rightarrow> ('h, 'e) ClientSocket \<Rightarrow> ('h, 'e) ClientSocket" where
  "PushWriteBuffer buffer c = c\<lparr>cs_writeBufferQueue := cs_writeBufferQueue c @ [buffer]\<rparr>"

definition GetFrontWriteBuffer :: "('h, 'e) ClientSocket \<Rightarrow> byte list" where
  "GetFrontWriteBuffer c =
     (case cs_writeBufferQueue c of [] \<Rightarrow> [] | b # _ \<Rightarrow> b)"

definition PopFrontWriteBuffer :: "('h, 'e) ClientSocket \<Rightarrow> ('h, 'e) ClientSocket" where
  "PopFrontWriteBuffer c =
     (case cs_writeBufferQueue c of [] \<Rightarrow> c
      | _ # q \<Rightarrow> c\<lparr>cs_writeBufferQueue := q, cs_popped := Suc (cs_popped c)\<rparr>)"

definition IsWriteBufferQueueEmpty :: "('h, 'e) ClientSocket \<Rightarrow> bool" where
  "IsWriteBufferQueueEmpty c \<longleftrightarrow> cs_writeBufferQueue c = []"

definition WriteAsync :: "('h, 'e) ClientSocket \<Rightarrow> ('h, 'e) ClientSocket" where
  \<comment> \<open>starts an \<^verbatim>\<open>async_write\<close> of the front buffer\<close>
  "WriteAsync c =
     (case cs_writeBufferQueue c of [] \<Rightarrow> c
      | b # _ \<Rightarrow> c\<lparr>cs_writing := cs_writing c @ [(cs_popped c, b)]\<rparr>)"

text \<open>
  asio requires the memory of a buffer to stay valid until the completion handler of its operation is
  called. A write whose buffer has left the queue points to released memory.
\<close>

definition dangling :: "('h, 'e) ClientSocket \<Rightarrow> bool" where
  "dangling c \<longleftrightarrow> (\<exists>w\<in>set (cs_writing c). fst w < cs_popped c)"

text \<open>
  The completion handler of the oldest outstanding \<^verbatim>\<open>async_write\<close>. When the buffer it pops is the
  one another outstanding write points to, the rest of the program is undefined behaviour; the state
  is the one the handler's statements leave.
\<close>

definition on_write :: "string option \<Rightarrow> ('h, 'e) ClientSocket \<Rightarrow> (fault + unit) \<times> ('h, 'e) ClientSocket" where
  "on_write ec c =
     (let c = c\<lparr>cs_writing := tl (cs_writing c)\<rparr>
      in case ec of
           None \<Rightarrow>
             (let c = PopFrontWriteBuffer c;
                  y = (if dangling c then Inl (Undefined ''write buffer released while a write of it is outstanding'')
                       else Inr ())
              in (y, if \<not> IsWriteBufferQueueEmpty c then WriteAsync c else c))
         | Some _ \<Rightarrow> (Inr (), c))"

subsection \<open>Handlers\<close>

text \<open>
  \<open>HandlePacket\<close>: no entry for the type, or the reserved type (which only logs, but asks the
  socket for its remote endpoint with the throwing overload), or the handler to call.
\<close>

datatype 'h dispatch = NoHandler | Logged | CallHandler 'h

definition HandlePacket :: "int \<Rightarrow> int \<Rightarrow> ('h, 'e) ClientSocket \<Rightarrow> fault + 'h dispatch" where
  "HandlePacket EM_DISCONNECTED type c =
     (case map_find type (cs_packetHandler c) of
        None \<Rightarrow> Inr NoHandler
      | Some handler \<Rightarrow>
          if type = EM_DISCONNECTED
          then (if cs_open c then Inr Logged else Inl (SystemError ''remote_endpoint''))
          else Inr (CallHandler handler))"

definition HandleError :: "('h, 'e) ClientSocket \<Rightarrow> 'e list" where
  \<comment> \<open>the handlers called, in the order of the map\<close>
  "HandleError c = map snd (cs_disconnectHandler c)"

subsection \<open>The public operations\<close>

definition ClientSocket_Init :: "('h, 'e) ClientSocket \<Rightarrow> bool \<times> ('h, 'e) ClientSocket" where
  "ClientSocket_Init c = (True, ReadAsync (c\<lparr>cs_recvBuffer := Some (cs_alloc c)\<rparr>))"

definition ClientSocket_Stop :: "('h, 'e) ClientSocket \<Rightarrow> ('h, 'e) ClientSocket" where
  "ClientSocket_Stop c = c\<lparr>cs_open := False\<rparr>"

definition ClientSocket_PostWrite :: "byte list \<Rightarrow> ('h, 'e) ClientSocket \<Rightarrow> bool \<times> ('h, 'e) ClientSocket" where
  "ClientSocket_PostWrite data c = (True, WriteAsync (PushWriteBuffer data c))"

definition ClientSocket_SetPacketHandler :: "int \<Rightarrow> 'h \<Rightarrow> ('h, 'e) ClientSocket \<Rightarrow> ('h, 'e) ClientSocket" where
  "ClientSocket_SetPacketHandler type handler c =
     c\<lparr>cs_packetHandler := map_put type handler (cs_packetHandler c)\<rparr>"

definition ClientSocket_SetErrorHandler :: "int \<Rightarrow> 'e \<Rightarrow> ('h, 'e) ClientSocket \<Rightarrow> ('h, 'e) ClientSocket" where
  "ClientSocket_SetErrorHandler type handler c =
     c\<lparr>cs_disconnectHandler := map_put type handler (cs_disconnectHandler c)\<rparr>"

definition ClientSocket_RemovePacketHandler :: "int \<Rightarrow> ('h, 'e) ClientSocket \<Rightarrow> ('h, 'e) ClientSocket" where
  "ClientSocket_RemovePacketHandler type c =
     c\<lparr>cs_packetHandler := map_erase type (cs_packetHandler c)\<rparr>"

definition ClientSocket_RemoveDisconnectHandler :: "int \<Rightarrow> ('h, 'e) ClientSocket \<Rightarrow> ('h, 'e) ClientSocket" where
  "ClientSocket_RemoveDisconnectHandler type c =
     c\<lparr>cs_disconnectHandler := map_erase type (cs_disconnectHandler c)\<rparr>"

definition ClientSocket_ClearPacketHandler :: "('h, 'e) ClientSocket \<Rightarrow> ('h, 'e) ClientSocket" where
  "ClientSocket_ClearPacketHandler c = c\<lparr>cs_packetHandler := []\<rparr>"

definition ClientSocket_ClearDisconnectHandler :: "('h, 'e) ClientSocket \<Rightarrow> ('h, 'e) ClientSocket" where
  "ClientSocket_ClearDisconnectHandler c = c\<lparr>cs_disconnectHandler := []\<rparr>"

definition ClientSocket_GetToken :: "('h, 'e) ClientSocket \<Rightarrow> token" where
  "ClientSocket_GetToken c = cs_token c"

definition ClientSocket_SetLoginKey :: "string \<Rightarrow> ('h, 'e) ClientSocket \<Rightarrow> ('h, 'e) ClientSocket" where
  "ClientSocket_SetLoginKey key c = c\<lparr>cs_loginKey := key\<rparr>"

definition ClientSocket_GetLoginKey :: "('h, 'e) ClientSocket \<Rightarrow> string" where
  "ClientSocket_GetLoginKey c = cs_loginKey c"

text \<open>\<^verbatim>\<open>class ClientSocket : public IClient\<close>.\<close>

definition ClientSocket_IClient :: "(('h, 'e) ClientSocket, 'h, 'e) IClient" where
  "ClientSocket_IClient =
     \<lparr>Init = ClientSocket_Init, Stop = ClientSocket_Stop, PostWrite = ClientSocket_PostWrite,
      SetPacketHandler = ClientSocket_SetPacketHandler, SetErrorHandler = ClientSocket_SetErrorHandler,
      RemovePacketHandler = ClientSocket_RemovePacketHandler,
      RemoveDisconnectHandler = ClientSocket_RemoveDisconnectHandler,
      ClearPacketHandler = ClientSocket_ClearPacketHandler,
      ClearDisconnectHandler = ClientSocket_ClearDisconnectHandler,
      GetToken = ClientSocket_GetToken, SetLoginKey = ClientSocket_SetLoginKey,
      GetLoginKey = ClientSocket_GetLoginKey\<rparr>"

end
