(* ===== verification/Client_Contract.thy ===== *)
theory Client_Contract
  imports Client_Socket
begin

text \<open>
  The contract of \<^verbatim>\<open>IClient\<close> that the server is verified against (\<open>iclient\<close>) and the
  contract of the write queue (\<open>fifo_queue\<close>), both interpreted on \<^verbatim>\<open>ClientSocket\<close>;
  then the two halves of the protocol on the wire: which reads reach a handler, and what the queue
  sends.
\<close>

section \<open>The client as the server sees it\<close>

locale iclient =
  fixes cl :: "('c, 'h, 'e, 'y) IClient_scheme"
    and queue :: "'c \<Rightarrow> byte list list"
    and phandler :: "'c \<Rightarrow> int \<Rightarrow> 'h option"
    and ehandler :: "'c \<Rightarrow> int \<Rightarrow> 'e option"
    and wf :: "'c \<Rightarrow> bool"
  assumes token_kept: "GetToken cl (snd (Init cl c)) = GetToken cl c"
      "GetToken cl (Stop cl c) = GetToken cl c"
      "GetToken cl (snd (PostWrite cl b c)) = GetToken cl c"
      "GetToken cl (SetPacketHandler cl t h c) = GetToken cl c"
      "GetToken cl (SetErrorHandler cl t e c) = GetToken cl c"
      "GetToken cl (SetLoginKey cl k c) = GetToken cl c"
    and login_kept: "GetLoginKey cl (SetLoginKey cl k c) = k"
      "GetLoginKey cl (snd (PostWrite cl b c)) = GetLoginKey cl c"
      "GetLoginKey cl (Stop cl c) = GetLoginKey cl c"
    and queue_post: "queue (snd (PostWrite cl b c)) = queue c @ [b]"
      "queue (SetLoginKey cl k c) = queue c"
      "queue (Stop cl c) = queue c"
      "queue (snd (Init cl c)) = queue c"
      "queue (SetPacketHandler cl t h c) = queue c"
      "queue (SetErrorHandler cl t e c) = queue c"
    and phandler_set: "wf c \<Longrightarrow> phandler (SetPacketHandler cl t h c) = (phandler c)(t \<mapsto> h)"
      "phandler (SetErrorHandler cl t e c) = phandler c"
      "phandler (snd (Init cl c)) = phandler c"
      "phandler (snd (PostWrite cl b c)) = phandler c"
      "phandler (SetLoginKey cl k c) = phandler c"
      "phandler (Stop cl c) = phandler c"
    and ehandler_set: "wf c \<Longrightarrow> ehandler (SetErrorHandler cl t e c) = (ehandler c)(t \<mapsto> e)"
      "ehandler (SetPacketHandler cl t h c) = ehandler c"
      "ehandler (snd (Init cl c)) = ehandler c"
      "ehandler (snd (PostWrite cl b c)) = ehandler c"
      "ehandler (SetLoginKey cl k c) = ehandler c"
      "ehandler (Stop cl c) = ehandler c"
    and wf_kept: "wf c \<Longrightarrow> wf (SetPacketHandler cl t h c)" "wf c \<Longrightarrow> wf (SetErrorHandler cl t e c)"
      "wf c \<Longrightarrow> wf (snd (Init cl c))" "wf c \<Longrightarrow> wf (snd (PostWrite cl b c))"
      "wf c \<Longrightarrow> wf (SetLoginKey cl k c)" "wf c \<Longrightarrow> wf (Stop cl c)"
begin

lemmas Client_ok = token_kept login_kept queue_post phandler_set ehandler_set wf_kept

end

definition handlers_ok :: "('h, 'e) ClientSocket \<Rightarrow> bool" where
  "handlers_ok c \<longleftrightarrow> map_ok (cs_packetHandler c) \<and> map_ok (cs_disconnectHandler c)"

definition packet_handler_of :: "('h, 'e) ClientSocket \<Rightarrow> int \<Rightarrow> 'h option" where
  "packet_handler_of c t = map_find t (cs_packetHandler c)"

definition error_handler_of :: "('h, 'e) ClientSocket \<Rightarrow> int \<Rightarrow> 'e option" where
  "error_handler_of c t = map_find t (cs_disconnectHandler c)"

lemmas ClientSocket_defs = ClientSocket_IClient_def ClientSocket_Init_def ClientSocket_Stop_def
  ClientSocket_PostWrite_def ClientSocket_SetPacketHandler_def ClientSocket_SetErrorHandler_def
  ClientSocket_RemovePacketHandler_def ClientSocket_RemoveDisconnectHandler_def
  ClientSocket_ClearPacketHandler_def ClientSocket_ClearDisconnectHandler_def
  ClientSocket_GetToken_def ClientSocket_SetLoginKey_def ClientSocket_GetLoginKey_def
  ReadAsync_def WriteAsync_def PushWriteBuffer_def

interpretation sock: iclient ClientSocket_IClient cs_writeBufferQueue packet_handler_of
  error_handler_of handlers_ok
  by unfold_locales
    (auto simp: ClientSocket_defs handlers_ok_def packet_handler_of_def error_handler_of_def fun_eq_iff
      split: list.split)

section \<open>The write queue\<close>

locale fifo_queue =
  fixes push :: "'a \<Rightarrow> 'q \<Rightarrow> 'q"
    and front :: "'q \<Rightarrow> 'a"
    and pop :: "'q \<Rightarrow> 'q"
    and is_empty :: "'q \<Rightarrow> bool"
    and contents :: "'q \<Rightarrow> 'a list"
  assumes contents_push: "contents (push x q) = contents q @ [x]"
    and contents_pop: "contents (pop q) = tl (contents q)"
    and front_hd: "contents q \<noteq> [] \<Longrightarrow> front q = hd (contents q)"
    and is_empty_iff: "is_empty q \<longleftrightarrow> contents q = []"
begin

lemma not_empty_push: "\<not> is_empty (push x q)"
  by (simp add: is_empty_iff contents_push)

lemma front_push: "front (push x q) = (if is_empty q then x else front q)"
  by (simp add: is_empty_iff contents_push front_hd hd_append)

lemma pop_all: "contents ((pop ^^ n) q) = drop n (contents q)"
  by (induction n) (simp_all add: contents_pop drop_Suc tl_drop)

lemma pop_push: "\<not> is_empty q \<Longrightarrow> contents (pop (push x q)) = contents (push x (pop q))"
  by (simp add: is_empty_iff contents_push contents_pop)

end

interpretation wq: fifo_queue PushWriteBuffer GetFrontWriteBuffer PopFrontWriteBuffer
  IsWriteBufferQueueEmpty cs_writeBufferQueue
  by unfold_locales
    (auto simp: PushWriteBuffer_def GetFrontWriteBuffer_def PopFrontWriteBuffer_def
      IsWriteBufferQueueEmpty_def split: list.split)

section \<open>Which reads reach a handler\<close>

lemma bit_load_int32_le:
  assumes "n < 8"
  shows "bit (load_int32_le b i) n = bit (b ! i) n"
    "bit (load_int32_le b i) (8 + n) = bit (b ! (i + 1)) n"
    "bit (load_int32_le b i) (16 + n) = bit (b ! (i + 2)) n"
    "bit (load_int32_le b i) (24 + n) = bit (b ! (i + 3)) n"
  using assms by (auto simp: load_int32_le_def bit_simps dest: bit_imp_le_length)

lemma bit_low_byte:
  fixes v :: int32
  assumes "n < 8" "k \<le> 24"
  shows "bit (ucast (signed_drop_bit k v AND 0xFF) :: byte) n = bit v (k + n)"
proof -
  have m: "(0xFF :: int32) = mask 8" by (simp add: mask_eq_exp_minus_1)
  show ?thesis unfolding m using assms by (auto simp: bit_simps)
qed

lemma low_byte_load:
  "ucast (load_int32_le b i AND 0xFF) = b ! i"
  "ucast (signed_drop_bit 8 (load_int32_le b i) AND 0xFF) = b ! (i + 1)"
  "ucast (signed_drop_bit 16 (load_int32_le b i) AND 0xFF) = b ! (i + 2)"
  "ucast (signed_drop_bit 24 (load_int32_le b i) AND 0xFF) = b ! (i + 3)"
  using bit_low_byte [of _ 0 "load_int32_le b i"]
  by (auto intro!: bit_word_eqI simp: bit_low_byte bit_load_int32_le)

lemma take4: "i + 4 \<le> length b \<Longrightarrow> take 4 (drop i b) = [b ! i, b ! (i + 1), b ! (i + 2), b ! (i + 3)]"
  by (simp add: list_eq_iff_nth_eq nth_Cons' numeral_eq_Suc All_less_Suc)

lemma append_load_int32_le:
  "i + 4 \<le> length b \<Longrightarrow> append_int_vec_char_le pre (load_int32_le b i) = pre @ take 4 (drop i b)"
  by (simp add: append_int_vec_char_le_def low_byte_load take4)

lemma scast_eq_of_nat:
  assumes "n < 2 ^ 31"
  shows "(scast (w :: int32) :: uint64) = of_nat n \<longleftrightarrow> w = of_nat n"
proof
  assume h: "(scast w :: uint64) = of_nat n"
  have "w = ucast (scast w :: uint64)" by (rule bit_word_eqI) (simp add: bit_simps)
  also have "\<dots> = of_nat n" unfolding h using assms by (simp add: unsigned_of_nat take_bit_nat_eq_self)
  finally show "w = of_nat n" .
next
  assume "w = of_nat n"
  moreover have "sint (of_nat n :: int32) = int n"
    using assms by (simp add: signed_of_nat signed_take_bit_eq_if_positive take_bit_int_eq_self bit_iff_odd)
  ultimately show "(scast w :: uint64) = of_nat n" by (simp add: scast_eq)
qed

lemma payload_length:
  assumes "12 \<le> n" "n < 2 ^ 31"
  shows "sint (ucast (of_nat n - 12 :: uint64) :: int32) = int n - 12"
proof -
  have e: "(of_nat n - 12 :: uint64) = of_nat (n - 12)" using assms by (simp add: of_nat_diff)
  have u: "(ucast (of_nat m :: uint64) :: int32) = of_nat m" if "m < 2 ^ 31" for m
    using that by (simp add: unsigned_of_nat take_bit_nat_eq_self)
  have s: "sint (of_nat m :: int32) = int m" if "m < 2 ^ 31" for m
    using that by (simp add: signed_of_nat signed_take_bit_eq_if_positive take_bit_int_eq_self bit_iff_odd)
  have "n - 12 < 2 ^ 31" using assms by simp
  then show ?thesis unfolding e u [OF \<open>n - 12 < 2 ^ 31\<close>] s [OF \<open>n - 12 < 2 ^ 31\<close>] using assms by simp
qed

lemma bytes_of_prot_length: "length (bytes_of ''prot'') = 4"
  by simp

lemma append_prot_packet_loads:
  assumes "12 \<le> length b" and "take 4 b = bytes_of ''prot''" and "load_int32_le b 8 = ucast len"
  shows "append_prot_packet [] (load_int32_le b 4) len = take 12 b"
proof -
  have "append_prot_packet [] (load_int32_le b 4) len
      = append_int_vec_char_le (append_int_vec_char_le (take 4 b) (load_int32_le b 4)) (load_int32_le b 8)"
    using assms by (simp add: append_prot_packet_def)
  also have "\<dots> = take 4 b @ take 4 (drop 4 b) @ take 4 (drop 8 b)"
    using assms(1) by (simp add: append_load_int32_le)
  also have "\<dots> = take 12 b"
    using take_add [of 4 4 b] take_add [of 8 4 b] by simp
  finally show ?thesis .
qed

lemma decode_packet_complete:
  assumes "length received = length (append_prot_packet [] ty len @ payload)"
    and "received = append_prot_packet [] ty (of_nat (length received)) @ payload"
    and "length received < 2 ^ 31"
  shows "decode_packet (received @ stale) (length received)
    = Some (sint ty, payload @ stale, int (length payload))"
proof -
  let ?n = "length received"
  have n: "?n = 12 + length payload" using assms(1) by simp
  have b: "received @ stale = append_prot_packet [] ty (of_nat ?n) @ (payload @ stale)"
    using assms(2) by simp
  have magic: "take 4 (received @ stale) = bytes_of ''prot''"
    and type: "load_int32_le (received @ stale) 4 = ty"
    and total: "load_int32_le (received @ stale) 8 = of_nat ?n"
  proof -
    note rt = prot_header_fields [of ty "of_nat ?n" "payload @ stale"]
    show "take 4 (received @ stale) = bytes_of ''prot''" "load_int32_le (received @ stale) 4 = ty"
      unfolding b using rt by simp_all
    show "load_int32_le (received @ stale) 8 = of_nat ?n"
      unfolding b using rt assms(3) by (simp add: unsigned_of_nat take_bit_nat_eq_self)
  qed
  have rest: "drop 12 (received @ stale) = payload @ stale" unfolding b by simp
  show ?thesis
    unfolding decode_packet_def Let_def magic type total rest
    using scast_eq_of_nat [OF assms(3)] payload_length [of ?n] n assms(3) by simp
qed

section \<open>Properties\<close>

text \<open>C10: framing. A read of at least twelve bytes reaches a packet handler exactly when the bytes
  received are one whole packet: the header that \<^verbatim>\<open>append_prot_packet\<close> writes for their total
  number, followed by a payload; the handler then gets that payload's length, and the payload is what
  its data pointer points to. Everything else (two packets in one read, part of a packet) is
  dropped.\<close>

theorem read_delivers_whole_packets:
  assumes "12 \<le> length received" and "length received \<le> RECV_BUFFER_SIZE"
  shows "decode_packet (fill_buffer buf received) (length received) = Some (type, data, len) \<longleftrightarrow>
    (\<exists>ty payload. received = append_prot_packet [] ty (of_nat (length received)) @ payload
       \<and> type = sint ty \<and> len = int (length payload)
       \<and> data = payload @ drop (length received) buf)"
    (is "?l \<longleftrightarrow> ?r")
proof
  let ?b = "fill_buffer buf received" and ?n = "length received"
  have n31: "?n < 2 ^ 31" using assms(2) by (simp add: RECV_BUFFER_SIZE_def)
  assume l: ?l
  then have m: "take 4 ?b = bytes_of ''prot''"
    and t: "(scast (load_int32_le ?b 8) :: uint64) = of_nat ?n"
    and res: "type = sint (load_int32_le ?b 4)" "data = drop 12 ?b"
      "len = sint (ucast (of_nat ?n - 12 :: uint64) :: int32)"
    by (auto simp: decode_packet_def Let_def split: if_splits)
  have "load_int32_le ?b 8 = ucast (of_nat ?n :: uint64)"
    using t scast_eq_of_nat [OF n31] n31 by (simp add: unsigned_of_nat take_bit_nat_eq_self)
  with m assms(1) have "append_prot_packet [] (load_int32_le ?b 4) (of_nat ?n) = take 12 ?b"
    by (intro append_prot_packet_loads) (simp_all add: fill_buffer_def)
  then have "received = append_prot_packet [] (load_int32_le ?b 4) (of_nat ?n) @ drop 12 received"
    using assms(1) by (simp add: fill_buffer_def)
  moreover have "len = int (length (drop 12 received))"
    using res(3) payload_length [OF assms(1) n31] assms(1) by simp
  moreover have "data = drop 12 received @ drop ?n buf"
    using res(2) assms(1) by (simp add: fill_buffer_def)
  ultimately show ?r using res(1) by blast
next
  assume ?r
  then obtain ty payload where
    r: "received = append_prot_packet [] ty (of_nat (length received)) @ payload"
    and res: "type = sint ty" "len = int (length payload)" "data = payload @ drop (length received) buf"
    by blast
  have len: "length received = length (append_prot_packet [] ty 0 @ payload)"
    using arg_cong [OF r, of length] by simp
  show ?l
    using decode_packet_complete [OF len r, of "drop (length received) buf"] assms(2) res
    by (simp add: fill_buffer_def RECV_BUFFER_SIZE_def)
qed

theorem read_delivers_whole_packets_witness:
  "decode_packet (fill_buffer (replicate 16 9) (append_prot_packet [] 3 14 @ [1, 2]))
     (length (append_prot_packet [] 3 14 @ [1, 2 :: byte]))
   = Some (3, [1, 2, 9, 9], 2)"
proof -
  have "(drop 14 (replicate 16 9) :: byte list) = [9, 9]" by (simp add: numeral_eq_Suc)
  then show ?thesis
    by (subst read_delivers_whole_packets)
      (auto simp: RECV_BUFFER_SIZE_def intro!: exI [of _ 3] exI [of _ "[1, 2]"])
qed

text \<open>C40: a read shorter than a header is judged by what the previous read left in the buffer. After
  a header that announces between 4 and 8 bytes (and is itself dropped, being twelve bytes long), a
  read of that many bytes which repeats the beginning of the header reaches the handler of the old
  type with a negative length.\<close>

theorem short_read_negative_length:
  fixes ty :: int32 and n :: nat
  assumes "4 \<le> n" "n \<le> 8" "12 \<le> length buf"
  defines "header \<equiv> append_prot_packet [] ty (of_nat n)"
  shows "decode_packet (fill_buffer buf header) 12 = None
    \<and> (\<exists>data. decode_packet (fill_buffer (fill_buffer buf header) (take n header)) n
          = Some (sint ty, data, int n - 12))"
proof -
  have len: "length header = 12" by (simp add: header_def)
  let ?b = "header @ drop 12 buf"
  have same: "fill_buffer buf header = ?b" "fill_buffer ?b (take n header) = ?b"
    using assms len by (simp_all add: fill_buffer_def)
  have fields: "take 4 ?b = bytes_of ''prot''" "load_int32_le ?b 4 = ty" "load_int32_le ?b 8 = of_nat n"
    using prot_header_fields [of ty "of_nat n" "drop 12 buf"] assms
    by (simp_all add: header_def unsigned_of_nat take_bit_nat_eq_self)
  have n31: "n < 2 ^ 31" "12 < (2 :: nat) ^ 31" using assms by simp_all
  have "(scast (of_nat n :: int32) :: uint64) = of_nat n" by (simp add: scast_eq_of_nat [OF n31(1)])
  moreover have "(of_nat n :: uint64) \<noteq> of_nat 12"
    using assms by (simp add: word_unat_eq_iff unat_of_nat)
  moreover have "sint (ucast (of_nat n - 12 :: uint64) :: int32) = int n - 12"
  proof -
    have "n = 4 \<or> n = 5 \<or> n = 6 \<or> n = 7 \<or> n = 8" using assms by arith
    then show ?thesis by (elim disjE) simp_all
  qed
  ultimately show ?thesis
    unfolding same decode_packet_def Let_def fields by auto
qed

theorem short_read_negative_length_witness:
  "\<exists>data. decode_packet (fill_buffer (fill_buffer (replicate 4096 0) (append_prot_packet [] 1 5))
     (take 5 (append_prot_packet [] 1 5))) 5 = Some (1, data, - 7)"
  using short_read_negative_length [of 5 "replicate 4096 0" 1] by simp

end
