(* ===== verification/Write_Queue.thy ===== *)
theory Write_Queue
  imports Client_Contract "HOL-Library.Sublist"
begin

text \<open>
  What a client's write queue puts on the wire. The operations that touch it are
  \<^verbatim>\<open>PostWrite\<close>, called by the server's handlers, and the completion handler of
  \<^verbatim>\<open>WriteAsync\<close>, without or with an error; a history of a connection is a list of these events, and
  \<open>write_run\<close> records the buffers handed to \<^verbatim>\<open>asio::async_write\<close>. The queue is the only
  owner of the buffers: \<^verbatim>\<open>asio::buffer(*bufferShared)\<close> does not keep the shared pointer,
  so a buffer may be in flight only as long as the queue holds it (\<open>dangling\<close>).
\<close>

datatype write_event = Post "byte list" | Sent | Failed string

fun posted :: "write_event list \<Rightarrow> byte list list" where
  "posted [] = []"
| "posted (Post b # evs) = b # posted evs"
| "posted (_ # evs) = posted evs"

fun failures :: "write_event list \<Rightarrow> nat" where
  "failures [] = 0"
| "failures (Failed e # evs) = Suc (failures evs)"
| "failures (_ # evs) = failures evs"

fun write_call :: "write_event \<Rightarrow> ('h, 'e) ClientSocket \<Rightarrow> (fault + unit) \<times> ('h, 'e) ClientSocket" where
  "write_call (Post b) c = (Inr (), snd (ClientSocket_PostWrite b c))"
| "write_call Sent c = on_write None c"
| "write_call (Failed e) c = on_write (Some e) c"

definition write_step :: "write_event \<Rightarrow> ('h, 'e) ClientSocket \<Rightarrow> ('h, 'e) ClientSocket" where
  "write_step e c = snd (write_call e c)"

text \<open>The buffers a step hands to \<^verbatim>\<open>async_write\<close>: the writes outstanding after it and not before.\<close>

fun completed :: "write_event \<Rightarrow> nat" where
  "completed (Post b) = 0"
| "completed _ = 1"

definition issued :: "write_event \<Rightarrow> ('h, 'e) ClientSocket \<Rightarrow> byte list list" where
  "issued e c = map snd (drop (length (cs_writing c) - completed e) (cs_writing (write_step e c)))"

text \<open>A completion needs an outstanding write.\<close>

fun possible :: "write_event \<Rightarrow> ('h, 'e) ClientSocket \<Rightarrow> bool" where
  "possible (Post b) c \<longleftrightarrow> True"
| "possible _ c \<longleftrightarrow> cs_writing c \<noteq> []"

fun write_run :: "write_event list \<Rightarrow> ('h, 'e) ClientSocket \<Rightarrow> (('h, 'e) ClientSocket \<times> byte list list) option" where
  "write_run [] c = Some (c, [])"
| "write_run (e # evs) c =
     (if possible e c
      then map_option (\<lambda>(c', log). (c', issued e c @ log)) (write_run evs (write_step e c))
      else None)"

text \<open>A response is posted only when the previous one has been sent.\<close>

fun one_at_a_time :: "write_event list \<Rightarrow> ('h, 'e) ClientSocket \<Rightarrow> bool" where
  "one_at_a_time [] c \<longleftrightarrow> True"
| "one_at_a_time (e # evs) c \<longleftrightarrow>
     (\<forall>b. e = Post b \<longrightarrow> cs_writeBufferQueue c = []) \<and> one_at_a_time evs (write_step e c)"

definition idle :: "('h, 'e) ClientSocket \<Rightarrow> bool" where
  "idle c \<longleftrightarrow> cs_writeBufferQueue c = [] \<and> cs_writing c = []"

section \<open>One step\<close>

lemmas write_step_defs = write_step_def issued_def ClientSocket_defs on_write_def PopFrontWriteBuffer_def
  IsWriteBufferQueueEmpty_def Let_def

lemma post_step [simp]:
  "cs_writeBufferQueue (write_step (Post b) c) = cs_writeBufferQueue c @ [b]"
  "cs_popped (write_step (Post b) c) = cs_popped c"
  "cs_writing (write_step (Post b) c) = cs_writing c @ [(cs_popped c, hd (cs_writeBufferQueue c @ [b]))]"
  "issued (Post b) c = [hd (cs_writeBufferQueue c @ [b])]"
  by (simp_all add: write_step_defs split: list.split)

lemma sent_step [simp]:
  "cs_writeBufferQueue (write_step Sent c) = tl (cs_writeBufferQueue c)"
  "cs_popped (write_step Sent c) = cs_popped c + length (take 1 (cs_writeBufferQueue c))"
  "cs_writing (write_step Sent c)
     = tl (cs_writing c) @ map (Pair (Suc (cs_popped c))) (take 1 (tl (cs_writeBufferQueue c)))"
  "issued Sent c = take 1 (tl (cs_writeBufferQueue c))"
  by (auto simp: write_step_defs split: list.split)

lemma failed_step [simp]:
  "cs_writeBufferQueue (write_step (Failed e) c) = cs_writeBufferQueue c"
  "cs_popped (write_step (Failed e) c) = cs_popped c"
  "cs_writing (write_step (Failed e) c) = tl (cs_writing c)"
  "issued (Failed e) c = []"
  by (simp_all add: write_step_defs)

text \<open>A completion faults exactly when it releases a buffer that another write points to.\<close>

lemma sent_fault:
  "fst (write_call Sent c) = Inr () \<longleftrightarrow>
     (\<forall>w\<in>set (tl (cs_writing c)). cs_popped (write_step Sent c) \<le> fst w)"
  by (auto simp: write_step_defs dangling_def not_less [symmetric] split: list.split)

lemma write_runE:
  assumes "write_run (e # evs) c = Some (c', log)"
  obtains log2 where "possible e c" "log = issued e c @ log2" "write_run evs (write_step e c) = Some (c', log2)"
  using assms by (auto split: if_splits)

section \<open>Any history\<close>

text \<open>
  The general invariant, between a connection's events: \<open>gone\<close> have left the queue, everything
  that left it and its front have been issued in order, and without failed completions a non-empty
  queue has a write in flight; a failed completion may cost one.
\<close>

definition queue_inv ::
  "byte list list \<Rightarrow> byte list list \<Rightarrow> byte list list \<Rightarrow> nat \<Rightarrow> ('h, 'e) ClientSocket \<Rightarrow> bool" where
  "queue_inv posts log gone k c \<longleftrightarrow>
     posts = gone @ cs_writeBufferQueue c
     \<and> subseq (gone @ take 1 (cs_writeBufferQueue c)) log
     \<and> length (cs_writeBufferQueue c) \<le> length (cs_writing c) + k"

lemma queue_inv_post:
  assumes "queue_inv posts log gone k c"
  shows "queue_inv (posts @ [b]) (log @ issued (Post b) c) gone k (write_step (Post b) c)"
proof (cases "cs_writeBufferQueue c")
  case Nil
  with assms show ?thesis by (simp add: queue_inv_def list_emb_append_mono)
next
  case (Cons x q)
  with assms show ?thesis by (auto simp: queue_inv_def dest: list_emb_appendD)
qed

lemma queue_inv_sent:
  assumes "queue_inv posts log gone k c" "cs_writing c \<noteq> []"
  shows "queue_inv posts (log @ issued Sent c) (gone @ take 1 (cs_writeBufferQueue c)) k (write_step Sent c)"
proof (cases "cs_writeBufferQueue c")
  case Nil
  with assms show ?thesis by (simp add: queue_inv_def)
next
  case (Cons x q)
  with assms show ?thesis
    using list_emb_append_mono [of "(=)" "gone @ [x]" log "take 1 q" "take 1 q"]
    by (cases q) (auto simp: queue_inv_def)
qed

lemma queue_inv_failed:
  assumes "queue_inv posts log gone k c"
  shows "queue_inv posts log gone (Suc k) (write_step (Failed e) c)"
  using assms by (auto simp: queue_inv_def)

lemma write_run_inv:
  assumes "queue_inv posts log gone k c" "write_run evs c = Some (c', log')"
  shows "\<exists>gone'. queue_inv (posts @ posted evs) (log @ log') gone' (k + failures evs) c'"
  using assms
proof (induction evs arbitrary: posts log gone k c log')
  case (Cons e evs)
  obtain log2 where ok: "possible e c" and l: "log' = issued e c @ log2"
    and r: "write_run evs (write_step e c) = Some (c', log2)"
    by (rule write_runE [OF Cons.prems(2)])
  show ?case
  proof (cases e)
    case (Post b)
    with Cons.IH [OF queue_inv_post [OF Cons.prems(1), of b]] r l show ?thesis by simp
  next
    case Sent
    with Cons.IH [OF queue_inv_sent [OF Cons.prems(1)]] ok r l show ?thesis by simp
  next
    case (Failed x)
    with Cons.IH [OF queue_inv_failed [OF Cons.prems(1), of x]] r l show ?thesis by simp
  qed
qed auto

section \<open>One response at a time\<close>

text \<open>
  At most one write is outstanding, of the front buffer; after a failed completion there may be none, and
  the queue stays as it is because no response follows.
\<close>

definition polite_inv :: "nat \<Rightarrow> ('h, 'e) ClientSocket \<Rightarrow> bool" where
  "polite_inv k c \<longleftrightarrow>
     length (cs_writeBufferQueue c) \<le> 1
     \<and> (cs_writing c = map (Pair (cs_popped c)) (cs_writeBufferQueue c) \<or> 0 < k \<and> cs_writing c = [])"

lemma polite_inv_step:
  assumes "polite_inv k c" "possible e c" "\<forall>b. e = Post b \<longrightarrow> cs_writeBufferQueue c = []"
  shows "polite_inv (k + failures [e]) (write_step e c) \<and> issued e c = posted [e] \<and> fst (write_call e c) = Inr ()"
  using assms
proof (cases e)
  case Sent
  then show ?thesis using assms sent_fault [of c]
    by (cases "cs_writeBufferQueue c") (auto simp: polite_inv_def)
next
  case (Failed x)
  then show ?thesis using assms
    by (cases "cs_writeBufferQueue c") (auto simp: polite_inv_def on_write_def Let_def)
qed (auto simp: polite_inv_def)

lemma failures_Cons: "failures (e # evs) = failures [e] + failures evs"
  and posted_Cons: "posted (e # evs) = posted [e] @ posted evs"
  by (cases e; simp)+

text \<open>No completion of a history finds its buffer's other write outstanding.\<close>

fun faultless :: "write_event list \<Rightarrow> ('h, 'e) ClientSocket \<Rightarrow> bool" where
  "faultless [] c \<longleftrightarrow> True"
| "faultless (e # evs) c \<longleftrightarrow> fst (write_call e c) = Inr () \<and> faultless evs (write_step e c)"

lemma write_run_polite:
  assumes "write_run evs c = Some (c', log)" "one_at_a_time evs c" "polite_inv k c"
  shows "log = posted evs \<and> polite_inv (k + failures evs) c' \<and> faultless evs c"
  using assms
proof (induction evs arbitrary: c log k)
  case (Cons e evs)
  obtain log2 where ok: "possible e c" and l: "log = issued e c @ log2"
    and r: "write_run evs (write_step e c) = Some (c', log2)"
    by (rule write_runE [OF Cons.prems(1)])
  have polite: "one_at_a_time evs (write_step e c)" using Cons.prems(2) by simp
  have "polite_inv (k + failures [e]) (write_step e c)" "issued e c = posted [e]" "fst (write_call e c) = Inr ()"
    using polite_inv_step [OF Cons.prems(3) ok] Cons.prems(2) by simp_all
  with Cons.IH [OF r polite, of "k + failures [e]"] l show ?case
    by (simp add: failures_Cons [of e evs] posted_Cons [of e evs] add.assoc)
qed auto

section \<open>Properties\<close>

text \<open>C16: as long as each response is posted after the previous one has been sent, every posted
  buffer is handed to \<^verbatim>\<open>async_write\<close> exactly once and in order, no completion releases a buffer
  that is in flight, at most one write is outstanding, and as long as no write has failed it is the write of
  the one buffer that the queue holds.\<close>

theorem responses_sent_once:
  assumes "idle c" and "write_run evs c = Some (c', log)" and "one_at_a_time evs c"
  shows "log = posted evs \<and> faultless evs c \<and> length (cs_writing c') \<le> 1
    \<and> (failures evs = 0 \<longrightarrow> map snd (cs_writing c') = cs_writeBufferQueue c')"
proof -
  have "polite_inv 0 c" using assms(1) by (simp add: idle_def polite_inv_def)
  from write_run_polite [OF assms(2,3) this] show ?thesis by (auto simp: polite_inv_def comp_def)
qed

definition test_socket :: "(nat, nat) ClientSocket" where
  "test_socket =
     \<lparr>cs_open = True, cs_token = 5, cs_loginKey = [], cs_alloc = [], cs_recvBuffer = None,
      cs_writeBufferQueue = [], cs_packetHandler = [], cs_disconnectHandler = [],
      cs_reading = 0, cs_popped = 0, cs_writing = []\<rparr>"

theorem responses_sent_once_witness:
  "map_option snd (write_run [Post [1], Sent, Post [2], Sent] test_socket) = Some [[1], [2]]
    \<and> faultless [Post [1], Sent, Post [2], Sent] test_socket"
proof -
  let ?evs = "[Post [1], Sent, Post [2], Sent]"
  have "idle test_socket" by (simp add: idle_def test_socket_def)
  moreover obtain c' log where r: "write_run ?evs test_socket = Some (c', log)"
    by (simp add: test_socket_def)
  moreover have "one_at_a_time ?evs test_socket" by (simp add: test_socket_def)
  ultimately show ?thesis using responses_sent_once [of test_socket ?evs c' log] by simp
qed

text \<open>C17: whatever the interleaving of posts, completions and failed completions, the buffers leave the
  queue in the order they were posted, and all that left it and its front have been handed to
  \<^verbatim>\<open>async_write\<close> at least once, in that order (handed over, not transmitted: a buffer may be
  released before its write is done). As long as no completion fails, a queue that is not empty has a write
  outstanding. A failed completion pops nothing and starts nothing, so each one may cost the queue one
  outstanding write, and with the last one it stands still until the next post.\<close>

theorem responses_handed_over:
  assumes "idle c" and "write_run evs c = Some (c', log)"
  shows "(\<exists>gone. posted evs = gone @ cs_writeBufferQueue c'
      \<and> subseq (gone @ take 1 (cs_writeBufferQueue c')) log)
    \<and> length (cs_writeBufferQueue c') \<le> length (cs_writing c') + failures evs
    \<and> (\<forall>e. cs_writeBufferQueue (write_step (Failed e) c') = cs_writeBufferQueue c'
         \<and> cs_writing (write_step (Failed e) c') = tl (cs_writing c') \<and> issued (Failed e) c' = [])"
proof -
  have "queue_inv [] [] [] 0 c" using assms(1) by (simp add: idle_def queue_inv_def)
  from write_run_inv [OF this assms(2)] show ?thesis by (auto simp: queue_inv_def)
qed

theorem responses_handed_over_witness:
  "\<exists>c' log. write_run [Post [1], Post [2], Sent, Failed ''reset''] test_socket = Some (c', log)
    \<and> length (cs_writeBufferQueue c') \<le> length (cs_writing c') + 1"
proof -
  let ?evs = "[Post [1], Post [2], Sent, Failed ''reset'']"
  have "idle test_socket" by (simp add: idle_def test_socket_def)
  moreover obtain c' log where r: "write_run ?evs test_socket = Some (c', log)"
    by (simp add: test_socket_def)
  ultimately show ?thesis using responses_handed_over [of test_socket ?evs c' log]
    by (auto simp del: write_run.simps)
qed

text \<open>The stall after a failed write: a response is queued, nothing is outstanding, and a further response
  starts with the old one.\<close>

lemma failed_write_stalls:
  assumes "idle c"
  shows "\<exists>c' c''. write_run [Post a, Failed e] c = Some (c', [a])
      \<and> cs_writeBufferQueue c' = [a] \<and> cs_writing c' = []
      \<and> write_run [Post b] c' = Some (c'', [a]) \<and> cs_writeBufferQueue c'' = [a, b]"
  using assms by (simp add: idle_def)

text \<open>C39: two responses posted before the first completion. \<^verbatim>\<open>PostWrite\<close> starts a write of the
  front buffer even when one is in flight, so the first response is written twice. The first completion
  already releases that buffer while its second write is in flight, which is undefined behaviour; when the
  handlers go on, the completion of the second copy takes the second response off the queue (and frees it)
  while its only write is still in flight.\<close>

theorem two_posts_duplicate_and_dangle:
  fixes a b :: "byte list" and c :: "('h, 'e) ClientSocket"
  shows "idle c \<Longrightarrow>
    \<exists>c1 c'. write_run [Post a, Post b] c = Some (c1, [a, a]) \<and> fst (on_write None c1) \<noteq> Inr ()
      \<and> write_run [Post a, Post b, Sent, Sent] c = Some (c', [a, a, b])
      \<and> cs_writeBufferQueue c' = [] \<and> map snd (cs_writing c') = [b] \<and> dangling c'"
  using sent_fault [of "write_step (Post b) (write_step (Post a) c)"] by (simp add: idle_def dangling_def)

theorem two_posts_duplicate_and_dangle_witness:
  "\<exists>c'. write_run [Post [1], Post [2], Sent, Sent] test_socket = Some (c', [[1], [1], [2]])
    \<and> cs_writeBufferQueue c' = [] \<and> map snd (cs_writing c') = [[2]] \<and> dangling c'"
  using two_posts_duplicate_and_dangle [of test_socket "[1]" "[2]"]
  by (auto simp: idle_def test_socket_def)

end
