(* ===== verification/Acceptor.thy ===== *)
theory Acceptor
  imports Prelude
begin

text \<open>
  \<^verbatim>\<open>src/Acceptor.h\<close> and \<^verbatim>\<open>src/Acceptor.cpp\<close>. The state of the listening socket is whether
  it is open and how many \<^verbatim>\<open>async_accept\<close> operations are outstanding. The completion handler
  \<open>on_accept\<close> works on the pair of the acceptor and the state of whoever passed the delegator; so
  does the delegator, which may stop the acceptor (\<open>beside\<close> makes one that does not touch it).
  The outcomes of the system calls (\<^verbatim>\<open>bind\<close>, \<^verbatim>\<open>getpeername\<close> behind
  \<^verbatim>\<open>remote_endpoint\<close>, \<^verbatim>\<open>setsockopt\<close>) are arguments; an error of an overload without
  \<^verbatim>\<open>error_code\<close> is an exception.
\<close>

record Acceptor =
  ac_port :: "16 word"
  ac_open :: bool
  ac_isStopped :: bool
  ac_pending :: nat

definition Acceptor_ctor :: "string option \<Rightarrow> string option \<Rightarrow> 16 word \<Rightarrow> fault + Acceptor" where
  \<comment> \<open>the error of \<^verbatim>\<open>set_option\<close> is caught and printed, that of opening and binding is not\<close>
  "Acceptor_ctor bind_error option_error port =
     (case bind_error of
        Some e \<Rightarrow> Inl (SystemError e)
      | None \<Rightarrow> Inr \<lparr>ac_port = port, ac_open = True, ac_isStopped = False, ac_pending = 0\<rparr>)"

definition Accept :: "Acceptor \<Rightarrow> Acceptor" where
  "Accept a = a\<lparr>ac_pending := Suc (ac_pending a)\<rparr>"

record accepted =
  acc_error :: "string option"
  acc_endpoint_error :: "string option"
  acc_option_error :: "string option"

definition on_accept :: "(Acceptor \<times> 's, unit) comp \<Rightarrow> accepted \<Rightarrow> (Acceptor \<times> 's, unit) comp" where
  "on_accept delegator r = (\<lambda>(a, s).
     let a = a\<lparr>ac_pending := ac_pending a - 1\<rparr>
     in if acc_error r = None \<and> \<not> ac_isStopped a then
          (case acc_endpoint_error r of
             Some e \<Rightarrow> (Inl (SystemError e), (a, s))
           | None \<Rightarrow>
               (case acc_option_error r of
                  Some e \<Rightarrow> (Inl (SystemError e), (a, s))
                | None \<Rightarrow>
                    (case delegator (a, s) of
                       (Inl e, x) \<Rightarrow> (Inl e, x)
                     | (Inr _, (a, s)) \<Rightarrow>
                         (Inr (), (if \<not> ac_isStopped a then Accept a else a, s)))))
        else (Inr (), (a, s)))"

definition beside :: "('s, 'a) comp \<Rightarrow> (Acceptor \<times> 's, 'a) comp" where
  "beside m = (\<lambda>(a, s). (fst (m s), (a, snd (m s))))"

definition Acceptor_Stop :: "Acceptor \<Rightarrow> Acceptor" where
  "Acceptor_Stop a = (if ac_isStopped a then a else a\<lparr>ac_isStopped := True, ac_open := False\<rparr>)"

section \<open>Lemmas\<close>

lemma Acceptor_Stop_idem: "Acceptor_Stop (Acceptor_Stop a) = Acceptor_Stop a"
  by (simp add: Acceptor_Stop_def)

lemma on_accept_ok:
  assumes "acc_error r = None" "acc_endpoint_error r = None" "acc_option_error r = None" "\<not> ac_isStopped a"
    and "0 < ac_pending a"
  shows "on_accept (beside m) r (a, s) =
    (case m s of (Inl e, s') \<Rightarrow> (Inl e, (a\<lparr>ac_pending := ac_pending a - 1\<rparr>, s'))
     | (Inr _, s') \<Rightarrow> (Inr (), (a, s')))"
  using assms by (auto simp: on_accept_def beside_def Let_def Accept_def split: prod.split sum.split)

section \<open>Properties\<close>

text \<open>C24: the acceptor goes on accepting. As long as it is not stopped, a completion without an error
  whose delegator returns has called the delegator once and accepts again unless the delegator has stopped
  the acceptor; when the delegator does not touch the acceptor, exactly as many \<^verbatim>\<open>async_accept\<close>
  operations are outstanding as before. After \<^verbatim>\<open>Stop\<close>, or with an error, the completion is the last
  one and the delegator is not called.\<close>

theorem accept_loop:
  assumes "0 < ac_pending a" and "on_accept delegator r (a, s) = (Inr (), (a', s'))"
  shows "if acc_error r = None \<and> \<not> ac_isStopped a
    then (\<exists>a1. delegator (a\<lparr>ac_pending := ac_pending a - 1\<rparr>, s) = (Inr (), (a1, s'))
        \<and> a' = (if ac_isStopped a1 then a1 else Accept a1)
        \<and> (a1 = a\<lparr>ac_pending := ac_pending a - 1\<rparr> \<longrightarrow> a' = a))
    else a' = a\<lparr>ac_pending := ac_pending a - 1\<rparr> \<and> s' = s"
proof (cases "acc_error r = None \<and> \<not> ac_isStopped a")
  case True
  let ?a = "a\<lparr>ac_pending := ac_pending a - 1\<rparr>"
  obtain y a1 s1 where d: "delegator (?a, s) = (y, (a1, s1))" by (metis prod.collapse)
  have "y = Inr () \<and> s' = s1 \<and> a' = (if ac_isStopped a1 then a1 else Accept a1)"
    using assms(2) True d by (auto simp: on_accept_def Let_def split: sum.splits option.splits if_splits)
  moreover have "Accept ?a = a" using assms(1) by (simp add: Accept_def)
  ultimately show ?thesis using True d by auto
next
  case False
  then show ?thesis using assms(2) by (auto simp: on_accept_def Let_def)
qed

theorem accept_loop_witness:
  "on_accept (beside (\<lambda>n. (Inr (), Suc n))) \<lparr>acc_error = None, acc_endpoint_error = None, acc_option_error = None\<rparr>
     (Accept \<lparr>ac_port = 9000, ac_open = True, ac_isStopped = False, ac_pending = 0\<rparr>, 0)
   = (Inr (), (Accept \<lparr>ac_port = 9000, ac_open = True, ac_isStopped = False, ac_pending = 0\<rparr>, 1 :: nat))"
proof -
  let ?a = "Accept \<lparr>ac_port = 9000, ac_open = True, ac_isStopped = False, ac_pending = 0\<rparr>"
  let ?r = "\<lparr>acc_error = None, acc_endpoint_error = None, acc_option_error = None\<rparr>"
  let ?m = "beside (\<lambda>n. (Inr (), Suc n)) :: (Acceptor \<times> nat, unit) comp"
  obtain a' s' where r: "on_accept ?m ?r (?a, 0) = (Inr (), (a', s'))"
    by (simp add: on_accept_def Accept_def beside_def)
  moreover have "0 < ac_pending ?a" by (simp add: Accept_def)
  ultimately show ?thesis
    using accept_loop [of ?a ?m ?r 0 a' s'] by (auto simp: Accept_def beside_def)
qed

end
