(* ===== verification/Server.thy ===== *)
theory Server
  imports Client_Socket Redis_Service Sha256
begin

text \<open>
  \<^verbatim>\<open>src/Server.h\<close> and \<^verbatim>\<open>src/Server.cpp\<close>: the authentication server. As in the sources it
  only knows its collaborators through their interfaces: \<open>rs\<close> (\<^verbatim>\<open>IRedis\<close>), \<open>cl\<close>
  (\<^verbatim>\<open>IClient\<close>) and the generated protobuf code \<open>pb\<close>, whose \<^verbatim>\<open>.proto\<close> files are
  not part of the repository. A \<^verbatim>\<open>shared_ptr<IClient>\<close> is a reference into the heap of client
  objects; a \<^verbatim>\<open>weak_ptr\<close> is a reference whose object may be gone. The closures stored in a
  client are the values of \<open>packet_handler\<close> and \<open>error_handler\<close>; calling one is
  \<open>run_packet_handler\<close> and \<open>run_error_handler\<close>. The server itself outlives every handler
  (\<^verbatim>\<open>main\<close> keeps it until the io threads are joined), so the lock of its own weak pointer
  succeeds. The log on \<^verbatim>\<open>std::cout\<close> is not modelled.
\<close>

section \<open>Messages\<close>

text \<open>The fields whose accessors the sources call; a message starts with the default values.\<close>

record PMRequestRegisterAccount =
  ra_id :: string
  ra_password :: string
  ra_nickname :: string
  ra_personalcolor :: string

record PMRequestLogin =
  rl_id :: string
  rl_password :: string

record PMResponse =
  \<comment> \<open>\<^verbatim>\<open>PMResponseRegisterAccount\<close> and \<^verbatim>\<open>PMResponseLogin\<close>\<close>
  res_result :: bool
  res_message :: string

record PMResponsePlayerData = PMResponse +
  res_nickname :: string
  res_personalcolor :: string

definition default_response :: PMResponse where
  "default_response = \<lparr>res_result = False, res_message = []\<rparr>"

definition default_player_data :: PMResponsePlayerData where
  "default_player_data = \<lparr>res_result = False, res_message = [], res_nickname = [], res_personalcolor = []\<rparr>"

text \<open>The generated code: the values of the enumerations and the codecs.\<close>

record protobuf =
  REQUEST_LOGIN :: int32
  REQUEST_REGISTER_ACCOUNT :: int32
  REQUEST_PLAYER_DATA :: int32
  REQUEST_LOGOUT :: int32
  RESPONSE_LOGIN :: int32
  RESPONSE_REGISTER_ACCOUNT :: int32
  RESPONSE_PLAYER_DATA :: int32
  EM_DISCONNECTED :: int32
  parse_register :: "byte list \<Rightarrow> PMRequestRegisterAccount option"
  parse_login :: "byte list \<Rightarrow> PMRequestLogin option"
  parse_player_data :: "byte list \<Rightarrow> unit option"
  parse_logout :: "byte list \<Rightarrow> unit option"
  serialize_register :: "PMResponse \<Rightarrow> byte list"
  serialize_login :: "PMResponse \<Rightarrow> byte list"
  serialize_player_data :: "PMResponsePlayerData \<Rightarrow> byte list"

section \<open>State\<close>

datatype packet_handler = OnLogin nat | OnRegister nat | OnPlayerData nat | OnLogout nat
datatype error_handler = OnDisconnected nat

record ('d, 'c) Server =
  sv_db :: 'd
  sv_clients :: "nat \<rightharpoonup> 'c"
  sv_connectedClients :: "(token, nat) std_map"
  sv_clock :: int

text \<open>A call through \<^verbatim>\<open>_rs\<close> and through a client pointer.\<close>

definition redis :: "('d, 'a) comp \<Rightarrow> (('d, 'c) Server, 'a) comp" where
  "redis m = (\<lambda>s. (fst (m (sv_db s)), s\<lparr>sv_db := snd (m (sv_db s))\<rparr>))"

definition client_call :: "nat \<Rightarrow> ('c \<Rightarrow> 'a \<times> 'c) \<Rightarrow> (('d, 'c) Server, 'a) comp" where
  "client_call client f =
     (\<lambda>s. case sv_clients s client of
            None \<Rightarrow> (Inl (Undefined ''call through a dangling client pointer''), s)
          | Some c \<Rightarrow> (Inr (fst (f c)), s\<lparr>sv_clients := (sv_clients s)(client \<mapsto> snd (f c))\<rparr>))"

definition client_get :: "nat \<Rightarrow> ('c \<Rightarrow> 'a) \<Rightarrow> (('d, 'c) Server, 'a) comp" where
  "client_get client f = client_call client (\<lambda>c. (f c, c))"

definition client_do :: "nat \<Rightarrow> ('c \<Rightarrow> 'c) \<Rightarrow> (('d, 'c) Server, unit) comp" where
  "client_do client f = client_call client (\<lambda>c. ((), f c))"

definition now_ms :: "(('d, 'c) Server, string) comp" where
  "now_ms = gets (\<lambda>s. to_string_int (sv_clock s))"

text \<open>The Redis keys.\<close>

definition client_key :: "token \<Rightarrow> string" where
  "client_key t = ''client:'' @ to_string_u64 t"

definition id_key :: "string \<Rightarrow> string" where
  "id_key i = ''id:'' @ i"

definition logined_key :: "string \<Rightarrow> string" where
  "logined_key i = ''logined:'' @ i"

section \<open>Requests\<close>

text \<open>\<^verbatim>\<open>static_cast<int>(n + 12)\<close> and \<^verbatim>\<open>static_cast<int>(n) + 12\<close>, passed on as \<^verbatim>\<open>size_t\<close>.\<close>

definition total_length :: "byte list \<Rightarrow> uint64" where
  "total_length body = scast (ucast (of_nat (length body) + 12 :: uint64) :: int32)"

definition total_length_login :: "byte list \<Rightarrow> uint64" where
  "total_length_login body = scast ((ucast (of_nat (length body) :: uint64) :: int32) + 12)"

definition HandleRequestCreationAccount ::
  "protobuf \<Rightarrow> 'd IRedis \<Rightarrow> ('c, 'h, 'e) IClient \<Rightarrow> nat \<Rightarrow> byte list \<Rightarrow> int \<Rightarrow> (('d, 'c) Server, unit) comp" where
  "HandleRequestCreationAccount pb rs cl client serializedData length' =
     bindM (ParseFromArray (parse_register pb) serializedData length') (\<lambda>receivedMessage.
     bindM
       (case receivedMessage of
          Some m \<Rightarrow>
            (let id = ra_id m; password = ra_password m; nickname = ra_nickname m;
                 personalColor = ra_personalcolor m; idStr = id_key id
             in bindM
                  (if length id < 2 then ret (False, ''idLength<2'')
                   else if length password < 2 then ret (False, ''passwordLength<2'')
                   else if length nickname < 2 then ret (False, ''nicknameLength<2'')
                   else bindM (redis (Exists rs idStr)) (\<lambda>used.
                        if used then ret (False, ''idAleadyInUse'') else ret (True, '''')))
                  (\<lambda>(valid, message).
                if valid then
                  (let passwordHashStr = sha256 password
                   in seqM (redis (HashSet rs idStr ''password'' passwordHashStr))
                     (seqM (redis (HashSet rs idStr ''nickname'' nickname))
                     (seqM (redis (HashSet rs idStr ''personalColor'' personalColor))
                     (ret \<lparr>res_result = valid, res_message = ''ok''\<rparr>))))
                else ret \<lparr>res_result = valid, res_message = message\<rparr>))
        | None \<Rightarrow> ret \<lparr>res_result = False, res_message = ''parsingError''\<rparr>) (\<lambda>responseMessage.
     let responseStr = serialize_register pb responseMessage;
         t = append_prot_packet [] (RESPONSE_REGISTER_ACCOUNT pb) (total_length responseStr) @ responseStr
     in seqM (client_call client (PostWrite cl t)) (ret ())))"

definition HandleRequestLogin ::
  "protobuf \<Rightarrow> 'd IRedis \<Rightarrow> ('c, 'h, 'e) IClient \<Rightarrow> nat \<Rightarrow> byte list \<Rightarrow> int \<Rightarrow> (('d, 'c) Server, unit) comp" where
  "HandleRequestLogin pb rs cl client serializedData length' =
     bindM (ParseFromArray (parse_login pb) serializedData length') (\<lambda>receivedMessage.
     bindM
       (case receivedMessage of
          Some m \<Rightarrow>
            (let idStr = rl_id m; idKeyStr = id_key idStr; passwordHashStr = sha256 (rl_password m);
                 loginedKeyStr = logined_key idStr
             in bindM
                  (bindM (redis (Exists rs idKeyStr)) (\<lambda>known.
                   if \<not> known then ret (False, ''idDoesNotExsist'')
                   else bindM (redis (HashGet rs idKeyStr ''password'')) (\<lambda>stored.
                        bindM (deref ''password'' stored) (\<lambda>hash.
                        if hash \<noteq> passwordHashStr then ret (False, ''passwordMismatch'')
                        else bindM (redis (Exists rs loginedKeyStr)) (\<lambda>logined.
                             if logined then ret (False, ''loginedAlready'') else ret (True, ''''))))))
                  (\<lambda>(valid, message).
                if valid then
                  bindM now_ms (\<lambda>ms.
                  bindM (client_get client (GetToken cl)) (\<lambda>token.
                  seqM (redis (HashSet rs (client_key token) ''loginId'' idStr))
                 (seqM (redis (HashSet rs loginedKeyStr ''token'' (to_string_u64 token)))
                 (seqM (redis (HashSet rs loginedKeyStr ''loginTime'' ms))
                 (seqM (client_do client (SetLoginKey cl loginedKeyStr))
                 (ret \<lparr>res_result = True, res_message = ''ok''\<rparr>))))))
                else ret (default_response\<lparr>res_message := message\<rparr>)))
        | None \<Rightarrow> ret \<lparr>res_result = False, res_message = ''parsingError''\<rparr>) (\<lambda>responseMessage.
     let responseStr = serialize_login pb responseMessage;
         t = append_prot_packet [] (RESPONSE_LOGIN pb) (total_length_login responseStr) @ responseStr
     in seqM (client_call client (PostWrite cl t)) (ret ())))"

definition HandleRequestPlayerData ::
  "protobuf \<Rightarrow> 'd IRedis \<Rightarrow> ('c, 'h, 'e) IClient \<Rightarrow> nat \<Rightarrow> byte list \<Rightarrow> int \<Rightarrow> (('d, 'c) Server, unit) comp" where
  "HandleRequestPlayerData pb rs cl client serializedData length' =
     bindM (ParseFromArray (parse_player_data pb) serializedData length') (\<lambda>receivedMessage.
     bindM
       (case receivedMessage of
          Some _ \<Rightarrow>
            bindM (client_get client (GetToken cl)) (\<lambda>token.
            let clientTokenStr = client_key token
            in bindM (redis (Exists rs clientTokenStr)) (\<lambda>connected.
               if \<not> connected then ret (default_player_data\<lparr>res_message := ''invalidToken''\<rparr>)
               else bindM (redis (HashGet rs clientTokenStr ''loginId'')) (\<lambda>loginId.
               case loginId of
                 None \<Rightarrow> ret (default_player_data\<lparr>res_message := ''needLogin''\<rparr>)
               | Some idStr \<Rightarrow>
                   (let idKeyStr = id_key idStr
                    in bindM (redis (Exists rs idKeyStr)) (\<lambda>known.
                       if \<not> known then ret (default_player_data\<lparr>res_message := ''invalidId''\<rparr>)
                       else bindM (redis (HashGet rs idKeyStr ''nickname'')) (\<lambda>nicknameStr.
                            bindM (redis (HashGet rs idKeyStr ''personalColor'')) (\<lambda>personalColorStr.
                            seqM (redis (Persist rs idKeyStr))
                           (bindM (deref ''nickname'' nicknameStr) (\<lambda>nickname.
                            bindM (deref ''personalColor'' personalColorStr) (\<lambda>personalColor.
                            ret \<lparr>res_result = True, res_message = ''ok'', res_nickname = nickname,
                                 res_personalcolor = personalColor\<rparr>))))))))))
        | None \<Rightarrow> ret (default_player_data\<lparr>res_result := False, res_message := ''parsingError''\<rparr>))
       (\<lambda>responseMessage.
     let responseStr = serialize_player_data pb responseMessage;
         t = append_prot_packet [] (RESPONSE_PLAYER_DATA pb) (total_length responseStr) @ responseStr
     in seqM (client_call client (PostWrite cl t)) (ret ())))"

definition LogoutClient :: "'d IRedis \<Rightarrow> ('c, 'h, 'e) IClient \<Rightarrow> nat \<Rightarrow> (('d, 'c) Server, unit) comp" where
  "LogoutClient rs cl client =
     bindM (client_get client (GetToken cl)) (\<lambda>token.
     let clientKey = client_key token
     in bindM (redis (Exists rs clientKey)) (\<lambda>connected.
        if \<not> connected then ret ()
        else bindM (redis (HashGet rs clientKey ''loginId'')) (\<lambda>loginIdStr.
             case loginIdStr of
               None \<Rightarrow> ret ()
             | Some loginId \<Rightarrow>
                 seqM (client_do client (SetLoginKey cl ''noLogined''))
                (seqM (redis (Del rs (logined_key loginId)))
                (seqM (redis (HashDel rs clientKey ''loginId''))
                (ret ()))))))"

definition HandleRequestLogout ::
  "protobuf \<Rightarrow> 'd IRedis \<Rightarrow> ('c, 'h, 'e) IClient \<Rightarrow> nat \<Rightarrow> byte list \<Rightarrow> int \<Rightarrow> (('d, 'c) Server, unit) comp" where
  "HandleRequestLogout pb rs cl client serializedData length' =
     bindM (ParseFromArray (parse_logout pb) serializedData length') (\<lambda>receivedMessage.
     case receivedMessage of Some _ \<Rightarrow> LogoutClient rs cl client | None \<Rightarrow> ret ())"

section \<open>Connections\<close>

definition RemoveClient :: "'d IRedis \<Rightarrow> token \<Rightarrow> (('d, 'c) Server, unit) comp" where
  "RemoveClient rs token =
     seqM (redis (Del rs (client_key token)))
       (modify (\<lambda>s. s\<lparr>sv_connectedClients := map_erase token (sv_connectedClients s)\<rparr>))"

definition Server_Stop :: "('c, 'h, 'e) IClient \<Rightarrow> (('d, 'c) Server, unit) comp" where
  "Server_Stop cl =
     bindM (gets sv_connectedClients) (\<lambda>connectedClients.
     seqM (forM connectedClients (\<lambda>(_, c). client_do c (Stop cl)))
       (modify (\<lambda>s. s\<lparr>sv_connectedClients := []\<rparr>)))"

definition AddClient ::
  "protobuf \<Rightarrow> 'd IRedis \<Rightarrow> ('c, packet_handler, error_handler) IClient \<Rightarrow> nat \<Rightarrow> (('d, 'c) Server, int) comp" where
  "AddClient pb rs cl client =
     bindM (client_get client (GetToken cl)) (\<lambda>token.
     seqM (modify (\<lambda>s. s\<lparr>sv_connectedClients := map_put token client (sv_connectedClients s)\<rparr>))
    (seqM (client_call client (Init cl))
    (bindM now_ms (\<lambda>ms.
     seqM (redis (HashSet rs (client_key token) ''ConnectedTime'' ms))
    (seqM (client_do client (SetPacketHandler cl (sint (REQUEST_LOGIN pb)) (OnLogin client)))
    (seqM (client_do client (SetPacketHandler cl (sint (REQUEST_REGISTER_ACCOUNT pb)) (OnRegister client)))
    (seqM (client_do client (SetPacketHandler cl (sint (REQUEST_PLAYER_DATA pb)) (OnPlayerData client)))
    (seqM (client_do client (SetPacketHandler cl (sint (REQUEST_LOGOUT pb)) (OnLogout client)))
    (seqM (client_do client (SetErrorHandler cl (sint (EM_DISCONNECTED pb)) (OnDisconnected client)))
    (ret 0))))))))))"

definition PrintStatus :: "(('d, 'c) Server, string) comp" where
  \<comment> \<open>the text it prints\<close>
  "PrintStatus =
     gets (\<lambda>s. ''--- connected clients ---\<newline>''
       @ concat (map (\<lambda>(token, _). to_string_u64 token @ '': ---\<newline>'') (sv_connectedClients s))
       @ ''-------------------------\<newline>\<newline>'')"

section \<open>The closures stored in a client\<close>

fun run_packet_handler ::
  "protobuf \<Rightarrow> 'd IRedis \<Rightarrow> ('c, 'h, 'e) IClient \<Rightarrow> packet_handler \<Rightarrow> byte list \<Rightarrow> int \<Rightarrow> (('d, 'c) Server, unit) comp" where
  "run_packet_handler pb rs cl (OnLogin c) data len =
     bindM (gets (\<lambda>s. sv_clients s c \<noteq> None)) (\<lambda>alive.
     if alive then HandleRequestLogin pb rs cl c data len else ret ())"
| "run_packet_handler pb rs cl (OnRegister c) data len =
     bindM (gets (\<lambda>s. sv_clients s c \<noteq> None)) (\<lambda>alive.
     if alive then HandleRequestCreationAccount pb rs cl c data len else ret ())"
| "run_packet_handler pb rs cl (OnPlayerData c) data len =
     bindM (gets (\<lambda>s. sv_clients s c \<noteq> None)) (\<lambda>alive.
     if alive then HandleRequestPlayerData pb rs cl c data len else ret ())"
| "run_packet_handler pb rs cl (OnLogout c) data len =
     bindM (gets (\<lambda>s. sv_clients s c \<noteq> None)) (\<lambda>alive.
     if alive then HandleRequestLogout pb rs cl c data len else ret ())"

fun run_error_handler ::
  "'d IRedis \<Rightarrow> ('c, 'h, 'e) IClient \<Rightarrow> error_handler \<Rightarrow> (('d, 'c) Server, unit) comp" where
  "run_error_handler rs cl (OnDisconnected c) =
     bindM (gets (\<lambda>s. sv_clients s c \<noteq> None)) (\<lambda>alive.
     if alive then
       bindM (client_get c (GetToken cl)) (\<lambda>token.
       seqM (LogoutClient rs cl c)
      (seqM (client_do c (Stop cl))
      (RemoveClient rs token)))
     else ret ())"

end
