(* ===== verification/Redis_Contract.thy ===== *)
theory Redis_Contract
  imports Redis_Service
begin

text \<open>
  What the sources rely on of Redis, and what \<^verbatim>\<open>RedisService\<close> makes of it. A database is
  read through a \<open>view\<close>: the value each key holds. The laws of \<open>redis_backend\<close> are the
  documented effects of the commands (redis.io, EXISTS, DEL, HSET, HGET, HDEL, HLEN, HEXISTS, SET,
  GET, PERSIST, SCAN): they say what a command did when it returned, and that a command that raised
  was either carried out or not. \<open>redis_live\<close> adds that commands return. No key of the
  sources under \<^verbatim>\<open>src/src\<close> has a time to live, so the view changes by commands only.
\<close>

section \<open>Views of a database\<close>

type_synonym view = "string \<Rightarrow> rvalue option"

definition hash_at :: "view \<Rightarrow> string \<Rightarrow> (string \<rightharpoonup> string)" where
  "hash_at v k = (case v k of Some (RHash h) \<Rightarrow> h | _ \<Rightarrow> Map.empty)"

definition hashy :: "view \<Rightarrow> string \<Rightarrow> bool" where
  "hashy v k \<longleftrightarrow> (case v k of None \<Rightarrow> True | Some (RHash h) \<Rightarrow> True | _ \<Rightarrow> False)"

definition put_field :: "view \<Rightarrow> string \<Rightarrow> string \<Rightarrow> string \<Rightarrow> view" where
  "put_field v k f x = v(k \<mapsto> RHash ((hash_at v k)(f \<mapsto> x)))"

definition drop_field :: "view \<Rightarrow> string \<Rightarrow> string \<Rightarrow> view" where
  \<comment> \<open>a hash with no field left is no key at all\<close>
  "drop_field v k f =
     v(k := (let h = (hash_at v k)(f := None) in if h = Map.empty then None else Some (RHash h)))"

lemma hash_at_update [simp]:
  "hash_at (v(k \<mapsto> RHash h)) k' = (if k' = k then h else hash_at v k')"
  "hash_at (v(k := None)) k' = (if k' = k then Map.empty else hash_at v k')"
  by (auto simp: hash_at_def)

lemma hash_at_put_field [simp]:
  "hash_at (put_field v k f x) k' = (if k' = k then (hash_at v k)(f \<mapsto> x) else hash_at v k')"
  by (simp add: put_field_def)

lemma hash_at_drop_field [simp]:
  "hash_at (drop_field v k f) k' = (if k' = k then (hash_at v k)(f := None) else hash_at v k')"
  by (auto simp: drop_field_def hash_at_def Let_def)

lemma put_field_at [simp]:
  "put_field v k f x k' = (if k' = k then Some (RHash ((hash_at v k)(f \<mapsto> x))) else v k')"
  by (simp add: put_field_def)

lemma drop_field_other [simp]: "k' \<noteq> k \<Longrightarrow> drop_field v k f k' = v k'"
  by (simp add: drop_field_def)

lemma drop_field_absent_iff [simp]:
  "drop_field v k f k = None \<longleftrightarrow> (hash_at v k)(f := None) = Map.empty"
  by (simp add: drop_field_def Let_def)

lemma hashy_simps [simp]:
  "hashy (v(k \<mapsto> RHash h)) k' \<longleftrightarrow> k' = k \<or> hashy v k'"
  "hashy (v(k := None)) k' \<longleftrightarrow> k' = k \<or> hashy v k'"
  "hashy (put_field v k f x) k' \<longleftrightarrow> k' = k \<or> hashy v k'"
  "hashy (drop_field v k f) k' \<longleftrightarrow> k' = k \<or> hashy v k'"
  by (auto simp: hashy_def drop_field_def Let_def)

lemma hash_at_SomeD: "hash_at v k f = Some x \<Longrightarrow> v k \<noteq> None"
  by (auto simp: hash_at_def split: option.splits)

lemma hash_at_absent [simp]: "v k = None \<Longrightarrow> hash_at v k = Map.empty"
  by (simp add: hash_at_def)

lemma hashy_absent: "v k = None \<Longrightarrow> hashy v k"
  by (simp add: hashy_def)

section \<open>The client library\<close>

text \<open>A pattern without a character that Redis gives a meaning of its own.\<close>

definition plain_pattern :: "string \<Rightarrow> bool" where
  "plain_pattern p \<longleftrightarrow> (\<forall>c\<in>set p. c \<notin> {CHR ''*'', CHR ''?'', CHR ''['', CHR '']'', CHR 0x5C})"

locale redis_backend =
  fixes R :: "'d redis_client"
    and view :: "'d \<Rightarrow> view"
    and glob :: "string \<Rightarrow> string \<Rightarrow> bool"
  assumes exists_result: "fst (rc_exists R k d) = Inr n \<Longrightarrow> 0 < n \<longleftrightarrow> view d k \<noteq> None"
    and exists_view: "view (snd (rc_exists R k d)) = view d"
    and del_effect: "fst (rc_del R k d) = Inr n \<Longrightarrow>
      (0 < n \<longleftrightarrow> view d k \<noteq> None) \<and> view (snd (rc_del R k d)) = (view d)(k := None)"
    and del_fault: "fst (rc_del R k d) = Inl e \<Longrightarrow>
      view (snd (rc_del R k d)) \<in> {view d, (view d)(k := None)}"
    and persist_view: "view (snd (rc_persist R k d)) = view d"
    and hget_result: "fst (rc_hget R k f d) = Inr y \<Longrightarrow> y = hash_at (view d) k f"
    and hget_view: "view (snd (rc_hget R k f d)) = view d"
    and hexists_result: "fst (rc_hexists R k f d) = Inr b \<Longrightarrow> b \<longleftrightarrow> hash_at (view d) k f \<noteq> None"
    and hexists_view: "view (snd (rc_hexists R k f d)) = view d"
    and hlen_result: "fst (rc_hlen R k d) = Inr n \<Longrightarrow> n = int (card (dom (hash_at (view d) k)))"
    and hlen_view: "view (snd (rc_hlen R k d)) = view d"
    and hset_effect: "fst (rc_hset R k f x d) = Inr n \<Longrightarrow>
      (n \<noteq> 0 \<longleftrightarrow> hash_at (view d) k f = None) \<and> view (snd (rc_hset R k f x d)) = put_field (view d) k f x"
    and hset_fault: "fst (rc_hset R k f x d) = Inl e \<Longrightarrow>
      view (snd (rc_hset R k f x d)) \<in> {view d, put_field (view d) k f x}"
    and hdel_effect: "fst (rc_hdel R k f d) = Inr n \<Longrightarrow>
      (n \<noteq> 0 \<longleftrightarrow> hash_at (view d) k f \<noteq> None) \<and> view (snd (rc_hdel R k f d)) = drop_field (view d) k f"
    and hdel_fault: "fst (rc_hdel R k f d) = Inl e \<Longrightarrow>
      view (snd (rc_hdel R k f d)) \<in> {view d, drop_field (view d) k f}"
    and set_effect: "fst (rc_set R k x d) = Inr b \<Longrightarrow> view (snd (rc_set R k x d)) = (view d)(k \<mapsto> RString x)"
    and get_result: "fst (rc_get R k d) = Inr y \<Longrightarrow> view d k = map_option RString y"
    and get_view: "view (snd (rc_get R k d)) = view d"
    and scan_result: "fst (rc_scan R c p d) = Inr (c', ks) \<Longrightarrow>
      set ks \<subseteq> {k. view d k \<noteq> None \<and> glob p k}"
    and scan_whole: "fst (rc_scan R 0 p d) = Inr (0, ks) \<Longrightarrow>
      set ks = {k. view d k \<noteq> None \<and> glob p k}"
    and scan_view: "view (snd (rc_scan R c p d)) = view d"
    and glob_prefix: "plain_pattern pre \<Longrightarrow> glob (pre @ ''*'') k \<longleftrightarrow> prefix pre k"

locale redis_live = redis_backend +
  assumes ping_live: "\<exists>u. fst (rc_ping R d) = Inr u \<and> view (snd (rc_ping R d)) = view d"
    and exists_live: "\<exists>n. fst (rc_exists R k d) = Inr n"
    and del_live: "\<exists>n. fst (rc_del R k d) = Inr n"
    and persist_live: "\<exists>b. fst (rc_persist R k d) = Inr b"
    and hget_live: "hashy (view d) k \<Longrightarrow> \<exists>y. fst (rc_hget R k f d) = Inr y"
    and hset_live: "hashy (view d) k \<Longrightarrow> \<exists>n. fst (rc_hset R k f x d) = Inr n"
    and hdel_live: "hashy (view d) k \<Longrightarrow> \<exists>n. fst (rc_hdel R k f d) = Inr n"
    and hlen_live: "hashy (view d) k \<Longrightarrow> \<exists>n. fst (rc_hlen R k d) = Inr n"
    and hexists_live: "hashy (view d) k \<Longrightarrow> \<exists>b. fst (rc_hexists R k f d) = Inr b"
    and set_live: "\<exists>b. fst (rc_set R k x d) = Inr b"
    and scan_live: "\<exists>r. fst (rc_scan R c p d) = Inr r"

section \<open>The contract of the interface\<close>

text \<open>
  Equations, so that the operations compute on views: this is what \<^verbatim>\<open>Server\<close> is verified
  against.
\<close>

locale iredis =
  fixes rs :: "'d IRedis"
    and view :: "'d \<Rightarrow> view"
  assumes Exists_ok: "fst (Exists rs k d) = Inr (view d k \<noteq> None)" "view (snd (Exists rs k d)) = view d"
    and Del_ok: "fst (Del rs k d) = Inr (view d k \<noteq> None)" "view (snd (Del rs k d)) = (view d)(k := None)"
    and Persist_ok: "\<exists>b. fst (Persist rs k d) = Inr b" "view (snd (Persist rs k d)) = view d"
    and HashGet_ok: "hashy (view d) k \<Longrightarrow> fst (HashGet rs k f d) = Inr (hash_at (view d) k f)"
      "view (snd (HashGet rs k f d)) = view d"
    and HashSet_ok: "hashy (view d) k \<Longrightarrow> fst (HashSet rs k f x d) = Inr (hash_at (view d) k f = None)"
      "hashy (view d) k \<Longrightarrow> view (snd (HashSet rs k f x d)) = put_field (view d) k f x"
    and HashDel_ok: "hashy (view d) k \<Longrightarrow> fst (HashDel rs k f d) = Inr (hash_at (view d) k f \<noteq> None)"
      "hashy (view d) k \<Longrightarrow> view (snd (HashDel rs k f d)) = drop_field (view d) k f"
begin

lemmas Redis_ok = Exists_ok Del_ok Persist_ok(2) HashGet_ok HashSet_ok HashDel_ok

lemma HashSet_then_HashGet:
  "hashy (view d) k \<Longrightarrow> fst (HashGet rs k f (snd (HashSet rs k f x d))) = Inr (Some x)"
  by (simp add: Redis_ok)

lemma Del_then_Exists: "fst (Exists rs k (snd (Del rs k d))) = Inr False"
  by (simp add: Redis_ok)

end

text \<open>\<^verbatim>\<open>RedisService\<close> over a live client keeps the contract.\<close>

sublocale redis_live \<subseteq> svc: iredis "RedisService R" view
proof
  fix k f x d
  show "fst (Exists (RedisService R) k d) = Inr (view d k \<noteq> None)"
    using exists_live [of k d] exists_result [of k d]
    by (auto simp: RedisService_def RedisService_Exists_def comp_simps)
  show "view (snd (Exists (RedisService R) k d)) = view d"
    using exists_live [of k d] exists_view [of k d]
    by (auto simp: RedisService_def RedisService_Exists_def comp_simps)
  show "fst (Del (RedisService R) k d) = Inr (view d k \<noteq> None)"
    "view (snd (Del (RedisService R) k d)) = (view d)(k := None)"
    using del_live [of k d] del_effect [of k d]
    by (auto simp: RedisService_def RedisService_Del_def comp_simps)
  show "\<exists>b. fst (Persist (RedisService R) k d) = Inr b"
    "view (snd (Persist (RedisService R) k d)) = view d"
    using persist_live [of k d] persist_view [of k d]
    by (simp_all add: RedisService_def RedisService_Persist_def)
  show "view (snd (HashGet (RedisService R) k f d)) = view d"
    using hget_view [of k f d]
    by (auto simp: RedisService_def RedisService_HashGet_def bindM_apply comp_simps split: sum.split option.split)
  assume typed: "hashy (view d) k"
  show "fst (HashGet (RedisService R) k f d) = Inr (hash_at (view d) k f)"
    using hget_live [OF typed, of f] hget_result [of k f d]
    by (auto simp: RedisService_def RedisService_HashGet_def bindM_apply comp_simps split: sum.split option.split)
  show "fst (HashSet (RedisService R) k f x d) = Inr (hash_at (view d) k f = None)"
    "view (snd (HashSet (RedisService R) k f x d)) = put_field (view d) k f x"
    using hset_live [OF typed, of f x] hset_effect [of k f x d]
    by (auto simp: RedisService_def RedisService_HashSet_def comp_simps)
  show "fst (HashDel (RedisService R) k f d) = Inr (hash_at (view d) k f \<noteq> None)"
    "view (snd (HashDel (RedisService R) k f d)) = drop_field (view d) k f"
    using hdel_live [OF typed, of f] hdel_effect [of k f d]
    by (auto simp: RedisService_def RedisService_HashDel_def comp_simps)
qed

end
