(* ===== verification/Auth_Spec.thy ===== *)
theory Auth_Spec
  imports Server Redis_Contract
begin

text \<open>
  What the authentication server promises, without Redis, sockets or packets: accounts, one session
  per connected client, and the table of accounts that are logged in. \<open>auth_rel\<close> relates this
  state to the three groups of Redis keys (README, section on the Redis data). The operations here
  are total functions; that the handlers of \<^verbatim>\<open>Server.cpp\<close> implement them is shown in
  \<open>Server_Refines\<close>.
\<close>

section \<open>The specification\<close>

record account =
  acc_password :: string
  acc_nickname :: string
  acc_personalColor :: string

record auth =
  accounts :: "string \<rightharpoonup> account"
  sessions :: "token \<rightharpoonup> string option"
  online :: "string \<rightharpoonup> token"

definition register_error :: "auth \<Rightarrow> PMRequestRegisterAccount \<Rightarrow> string option" where
  "register_error a m =
     (if length (ra_id m) < 2 then Some ''idLength<2''
      else if length (ra_password m) < 2 then Some ''passwordLength<2''
      else if length (ra_nickname m) < 2 then Some ''nicknameLength<2''
      else if accounts a (ra_id m) \<noteq> None then Some ''idAleadyInUse''
      else None)"

definition auth_register :: "PMRequestRegisterAccount \<Rightarrow> auth \<Rightarrow> PMResponse \<times> auth" where
  "auth_register m a =
     (case register_error a m of
        Some e \<Rightarrow> (\<lparr>res_result = False, res_message = e\<rparr>, a)
      | None \<Rightarrow> (\<lparr>res_result = True, res_message = ''ok''\<rparr>,
          a\<lparr>accounts := (accounts a)(ra_id m \<mapsto>
              \<lparr>acc_password = sha256 (ra_password m), acc_nickname = ra_nickname m,
               acc_personalColor = ra_personalcolor m\<rparr>)\<rparr>))"

definition login_error :: "auth \<Rightarrow> PMRequestLogin \<Rightarrow> string option" where
  "login_error a m =
     (case accounts a (rl_id m) of
        None \<Rightarrow> Some ''idDoesNotExsist''
      | Some acc \<Rightarrow>
          if acc_password acc \<noteq> sha256 (rl_password m) then Some ''passwordMismatch''
          else if online a (rl_id m) \<noteq> None then Some ''loginedAlready''
          else None)"

definition auth_login :: "token \<Rightarrow> PMRequestLogin \<Rightarrow> auth \<Rightarrow> PMResponse \<times> auth" where
  "auth_login t m a =
     (case login_error a m of
        Some e \<Rightarrow> (\<lparr>res_result = False, res_message = e\<rparr>, a)
      | None \<Rightarrow> (\<lparr>res_result = True, res_message = ''ok''\<rparr>,
          a\<lparr>sessions := (sessions a)(t \<mapsto> Some (rl_id m)), online := (online a)(rl_id m \<mapsto> t)\<rparr>))"

definition auth_player_data :: "token \<Rightarrow> auth \<Rightarrow> PMResponsePlayerData" where
  "auth_player_data t a =
     (case sessions a t of
        None \<Rightarrow> default_player_data\<lparr>res_message := ''invalidToken''\<rparr>
      | Some None \<Rightarrow> default_player_data\<lparr>res_message := ''needLogin''\<rparr>
      | Some (Some i) \<Rightarrow>
          (case accounts a i of
             None \<Rightarrow> default_player_data\<lparr>res_message := ''invalidId''\<rparr>
           | Some acc \<Rightarrow> \<lparr>res_result = True, res_message = ''ok'', res_nickname = acc_nickname acc,
                          res_personalcolor = acc_personalColor acc\<rparr>))"

definition auth_logout :: "token \<Rightarrow> auth \<Rightarrow> auth" where
  "auth_logout t a =
     (case sessions a t of
        Some (Some i) \<Rightarrow> a\<lparr>sessions := (sessions a)(t \<mapsto> None), online := (online a)(i := None)\<rparr>
      | _ \<Rightarrow> a)"

definition auth_connect :: "token \<Rightarrow> auth \<Rightarrow> auth" where
  "auth_connect t a = a\<lparr>sessions := (sessions a)(t \<mapsto> None)\<rparr>"

definition auth_disconnect :: "token \<Rightarrow> auth \<Rightarrow> auth" where
  "auth_disconnect t a = (let a' = auth_logout t a in a'\<lparr>sessions := (sessions a')(t := None)\<rparr>)"

section \<open>Histories\<close>

datatype auth_event =
    Connect token
  | Register PMRequestRegisterAccount
  | Login token PMRequestLogin
  | Logout token
  | Disconnect token

fun auth_enabled :: "auth_event \<Rightarrow> auth \<Rightarrow> bool" where
  "auth_enabled (Connect t) a \<longleftrightarrow> sessions a t = None"
| "auth_enabled (Register m) a \<longleftrightarrow> True"
| "auth_enabled (Login t m) a \<longleftrightarrow> sessions a t \<noteq> None"
| "auth_enabled (Logout t) a \<longleftrightarrow> sessions a t \<noteq> None"
| "auth_enabled (Disconnect t) a \<longleftrightarrow> sessions a t \<noteq> None"

fun auth_next :: "auth_event \<Rightarrow> auth \<Rightarrow> auth" where
  "auth_next (Connect t) a = auth_connect t a"
| "auth_next (Register m) a = snd (auth_register m a)"
| "auth_next (Login t m) a = snd (auth_login t m a)"
| "auth_next (Logout t) a = auth_logout t a"
| "auth_next (Disconnect t) a = auth_disconnect t a"

inductive auth_path :: "auth \<Rightarrow> auth \<Rightarrow> bool" for a0 where
  auth_start: "auth_path a0 a0"
| auth_more: "auth_path a0 a \<Longrightarrow> auth_enabled ev a \<Longrightarrow> auth_path a0 (auth_next ev a)"

lemmas auth_op_defs = auth_register_def auth_login_def auth_logout_def auth_connect_def
  auth_disconnect_def register_error_def login_error_def Let_def

lemma auth_path_trans: "auth_path b c \<Longrightarrow> auth_path a b \<Longrightarrow> auth_path a c"
  by (induction rule: auth_path.induct) (auto intro: auth_more)

lemma auth_path_invariant:
  assumes "auth_path a0 a" and "I a0"
    and "\<And>ev a. I a \<Longrightarrow> auth_enabled ev a \<Longrightarrow> I (auth_next ev a)"
  shows "I a"
  using assms(1) by (induction rule: auth_path.induct) (auto intro: assms(2,3))

subsection \<open>A session is backed by the table of logins\<close>

definition auth_inv :: "auth \<Rightarrow> bool" where
  "auth_inv a \<longleftrightarrow>
     (\<forall>t i. sessions a t = Some (Some i) \<longrightarrow> online a i = Some t)
     \<and> (\<forall>i. online a i \<noteq> None \<longrightarrow> accounts a i \<noteq> None)"

definition no_sessions :: "auth \<Rightarrow> bool" where
  "no_sessions a \<longleftrightarrow> sessions a = Map.empty \<and> online a = Map.empty"

lemma no_sessions_inv: "no_sessions a \<Longrightarrow> auth_inv a"
  by (simp add: no_sessions_def auth_inv_def)

lemma auth_inv_logout: "auth_inv a \<Longrightarrow> auth_inv (auth_logout t a)"
  unfolding auth_logout_def auth_inv_def
  by (auto split: option.split) (metis option.inject)

lemma auth_inv_next:
  assumes "auth_inv a"
  shows "auth_inv (auth_next ev a)"
proof (cases ev)
  case (Connect t)
  with assms show ?thesis by (auto simp: auth_inv_def auth_connect_def)
next
  case (Register m)
  with assms show ?thesis by (auto simp: auth_inv_def auth_register_def split: option.splits)
next
  case (Login t m)
  with assms show ?thesis
    by (auto simp: auth_inv_def auth_login_def login_error_def split: option.splits if_splits)
next
  case (Logout t)
  with auth_inv_logout [OF assms] show ?thesis by simp
next
  case (Disconnect t)
  with auth_inv_logout [OF assms, of t] show ?thesis
    by (auto simp: auth_inv_def auth_disconnect_def Let_def)
qed

lemma auth_inv_path: "auth_path a0 a \<Longrightarrow> auth_inv a0 \<Longrightarrow> auth_inv a"
  by (rule auth_path_invariant) (simp_all add: auth_inv_next)

subsection \<open>An account nobody can log out\<close>

definition locked_out :: "string \<Rightarrow> auth \<Rightarrow> bool" where
  "locked_out i a \<longleftrightarrow> online a i \<noteq> None \<and> (\<forall>t. sessions a t \<noteq> Some (Some i))"

lemma locked_out_next: "locked_out i a \<Longrightarrow> locked_out i (auth_next ev a)"
  by (cases ev) (auto simp: locked_out_def auth_op_defs split: option.splits if_splits)

lemma locked_out_path: "auth_path a0 a \<Longrightarrow> locked_out i a0 \<Longrightarrow> locked_out i a"
  by (rule auth_path_invariant) (simp_all add: locked_out_next)

lemma locked_out_login:
  assumes "locked_out (rl_id m) a"
  shows "\<not> res_result (fst (auth_login t m a)) \<and> snd (auth_login t m a) = a"
  using assms by (auto simp: locked_out_def auth_login_def login_error_def split: option.split)

section \<open>The Redis keys\<close>

lemma key_inject [simp]:
  "client_key t = client_key u \<longleftrightarrow> t = u"
  "id_key i = id_key j \<longleftrightarrow> i = j"
  "logined_key i = logined_key j \<longleftrightarrow> i = j"
  by (simp_all add: client_key_def id_key_def logined_key_def)

lemma key_distinct [simp]:
  "client_key t \<noteq> id_key i" "id_key i \<noteq> client_key t"
  "client_key t \<noteq> logined_key i" "logined_key i \<noteq> client_key t"
  "id_key i \<noteq> logined_key j" "logined_key j \<noteq> id_key i"
  by (simp_all add: client_key_def id_key_def logined_key_def)

definition account_rel :: "rvalue option \<Rightarrow> account option \<Rightarrow> bool" where
  "account_rel x y \<longleftrightarrow>
     (case y of None \<Rightarrow> x = None
      | Some acc \<Rightarrow> \<exists>h. x = Some (RHash h) \<and> h ''password'' = Some (acc_password acc)
          \<and> h ''nickname'' = Some (acc_nickname acc) \<and> h ''personalColor'' = Some (acc_personalColor acc))"

definition session_rel :: "rvalue option \<Rightarrow> string option option \<Rightarrow> bool" where
  "session_rel x y \<longleftrightarrow>
     (case y of None \<Rightarrow> x = None
      | Some l \<Rightarrow> \<exists>h. x = Some (RHash h) \<and> h ''ConnectedTime'' \<noteq> None \<and> h ''loginId'' = l)"

definition online_rel :: "rvalue option \<Rightarrow> token option \<Rightarrow> bool" where
  "online_rel x y \<longleftrightarrow>
     (case y of None \<Rightarrow> x = None
      | Some t \<Rightarrow> \<exists>h. x = Some (RHash h) \<and> h ''token'' = Some (to_string_u64 t))"

definition auth_rel :: "view \<Rightarrow> auth \<Rightarrow> bool" where
  "auth_rel v a \<longleftrightarrow>
     (\<forall>i. account_rel (v (id_key i)) (accounts a i))
     \<and> (\<forall>t. session_rel (v (client_key t)) (sessions a t))
     \<and> (\<forall>i. online_rel (v (logined_key i)) (online a i))"

lemma rel_simps [simp]:
  "account_rel (Some (RHash h)) (Some acc) \<longleftrightarrow> h ''password'' = Some (acc_password acc)
     \<and> h ''nickname'' = Some (acc_nickname acc) \<and> h ''personalColor'' = Some (acc_personalColor acc)"
  "session_rel (Some (RHash h)) (Some l) \<longleftrightarrow> h ''ConnectedTime'' \<noteq> None \<and> h ''loginId'' = l"
  "online_rel (Some (RHash h)) (Some t) \<longleftrightarrow> h ''token'' = Some (to_string_u64 t)"
  "account_rel x None \<longleftrightarrow> x = None" "session_rel x None \<longleftrightarrow> x = None" "online_rel x None \<longleftrightarrow> x = None"
  by (simp_all add: account_rel_def session_rel_def online_rel_def)

lemma session_relE:
  assumes "session_rel (v k) (Some l)"
  obtains h where "v k = Some (RHash h)" "hash_at v k = h" "h ''ConnectedTime'' \<noteq> None" "h ''loginId'' = l"
  using assms by (auto simp: session_rel_def hash_at_def)

lemma account_relD:
  assumes "account_rel (v k) y"
  shows "v k = None \<longleftrightarrow> y = None" "hashy v k"
    "y = Some acc \<Longrightarrow> hash_at v k ''password'' = Some (acc_password acc)"
    "y = Some acc \<Longrightarrow> hash_at v k ''nickname'' = Some (acc_nickname acc)"
    "y = Some acc \<Longrightarrow> hash_at v k ''personalColor'' = Some (acc_personalColor acc)"
  using assms by (auto simp: account_rel_def hashy_def hash_at_def split: option.splits)

lemma session_relD:
  assumes "session_rel (v k) y"
  shows "v k = None \<longleftrightarrow> y = None" "hashy v k" "y = Some l \<Longrightarrow> hash_at v k ''loginId'' = l"
  using assms by (auto simp: session_rel_def hashy_def hash_at_def split: option.splits)

lemma online_relD:
  assumes "online_rel (v k) y"
  shows "v k = None \<longleftrightarrow> y = None" "hashy v k"
  using assms by (auto simp: online_rel_def hashy_def hash_at_def split: option.splits)

lemma auth_relD:
  assumes "auth_rel v a"
  shows "account_rel (v (id_key i)) (accounts a i)"
    "session_rel (v (client_key t)) (sessions a t)"
    "online_rel (v (logined_key i)) (online a i)"
  using assms by (simp_all add: auth_rel_def)

lemma auth_reads:
  assumes "auth_rel v a"
  shows "v (id_key i) = None \<longleftrightarrow> accounts a i = None" "hashy v (id_key i)"
    "accounts a i = Some acc \<Longrightarrow> hash_at v (id_key i) ''password'' = Some (acc_password acc)"
    "accounts a i = Some acc \<Longrightarrow> hash_at v (id_key i) ''nickname'' = Some (acc_nickname acc)"
    "accounts a i = Some acc \<Longrightarrow> hash_at v (id_key i) ''personalColor'' = Some (acc_personalColor acc)"
    "v (client_key t) = None \<longleftrightarrow> sessions a t = None" "hashy v (client_key t)"
    "sessions a t = Some l \<Longrightarrow> hash_at v (client_key t) ''loginId'' = l"
    "v (logined_key i) = None \<longleftrightarrow> online a i = None" "hashy v (logined_key i)"
  using account_relD [of v "id_key i" "accounts a i", OF auth_relD(1) [OF assms]]
    session_relD [of v "client_key t" "sessions a t", OF auth_relD(2) [OF assms]]
    online_relD [of v "logined_key i" "online a i", OF auth_relD(3) [OF assms]]
  by simp_all

lemma session_of_view:
  assumes "auth_rel v a"
  shows "sessions a t = Some (Some i) \<longleftrightarrow> hash_at v (client_key t) ''loginId'' = Some i"
  using auth_reads(6,8) [OF assms, of t] by (cases "sessions a t") auto

lemma login_error_view:
  assumes "auth_rel v a" and "hash_at v (id_key (rl_id m)) ''password'' = Some (sha256 (rl_password m))"
    and "v (logined_key (rl_id m)) = None"
  shows "login_error a m = None"
proof -
  have "accounts a (rl_id m) \<noteq> None"
    using auth_reads(1) [OF assms(1), of "rl_id m"] hash_at_SomeD [OF assms(2)] by simp
  then show ?thesis
    using assms(2,3) auth_reads(3,9) [OF assms(1), of "rl_id m"] by (auto simp: login_error_def)
qed

lemma locked_out_view:
  assumes "auth_rel v a"
  shows "locked_out i a \<longleftrightarrow>
    v (logined_key i) \<noteq> None \<and> (\<forall>t. hash_at v (client_key t) ''loginId'' \<noteq> Some i)"
  using auth_reads(9) [OF assms, of i] session_of_view [OF assms] by (simp add: locked_out_def)

lemma rel_register:
  assumes "auth_rel v a"
  shows "auth_rel
    (put_field (put_field (put_field v (id_key i) ''password'' p) (id_key i) ''nickname'' n) (id_key i) ''personalColor'' c)
    (a\<lparr>accounts := (accounts a)(i \<mapsto> \<lparr>acc_password = p, acc_nickname = n, acc_personalColor = c\<rparr>)\<rparr>)"
  using assms by (simp add: auth_rel_def)

lemma rel_login:
  assumes "auth_rel v a" and "sessions a t \<noteq> None"
  shows "auth_rel
    (put_field (put_field (put_field v (client_key t) ''loginId'' i) (logined_key i) ''token'' (to_string_u64 t))
       (logined_key i) ''loginTime'' ms)
    (a\<lparr>sessions := (sessions a)(t \<mapsto> Some i), online := (online a)(i \<mapsto> t)\<rparr>)"
proof -
  obtain l where "session_rel (v (client_key t)) (Some l)"
    using assms(2) auth_relD(2) [OF assms(1), of t] by auto
  then show ?thesis using assms(1) by (auto elim!: session_relE simp: auth_rel_def)
qed

lemma rel_logout:
  assumes "auth_rel v a" and "sessions a t \<noteq> None"
  shows "auth_rel (drop_field (v(logined_key i := None)) (client_key t) ''loginId'')
    (a\<lparr>sessions := (sessions a)(t \<mapsto> None), online := (online a)(i := None)\<rparr>)"
proof -
  obtain l where "session_rel (v (client_key t)) (Some l)"
    using assms(2) auth_relD(2) [OF assms(1), of t] by auto
  then obtain h where "v (client_key t) = Some (RHash h)" and h: "hash_at v (client_key t) = h"
    "h ''ConnectedTime'' \<noteq> None" and "h ''loginId'' = l"
    by (rule session_relE)
  have "(h(''loginId'' := None)) ''ConnectedTime'' \<noteq> None" using h(2) by simp
  then have "h(''loginId'' := None) \<noteq> Map.empty" by fastforce
  with h have "drop_field (v(logined_key i := None)) (client_key t) ''loginId'' (client_key t)
      = Some (RHash (h(''loginId'' := None)))"
    by (simp add: drop_field_def Let_def)
  with assms(1) h show ?thesis by (simp add: auth_rel_def)
qed

lemma rel_connect:
  assumes "auth_rel v a" and "sessions a t = None"
  shows "auth_rel (put_field v (client_key t) ''ConnectedTime'' ms) (auth_connect t a)"
  using assms auth_relD(2) [OF assms(1), of t]
  by (simp add: auth_rel_def auth_connect_def)

lemma rel_remove:
  assumes "auth_rel v a"
  shows "auth_rel (v(client_key t := None)) (a\<lparr>sessions := (sessions a)(t := None)\<rparr>)"
  using assms by (simp add: auth_rel_def)

end
