(* ===== verification/Redis_Memory.thy ===== *)
theory Redis_Memory
  imports Redis_Contract
begin

text \<open>
  An in-memory client that satisfies \<open>redis_live\<close>: an association list of keys and values,
  SCAN over pages of ten keys of which those that match are returned, and a raised error for a command on a key of the wrong type. It shows
  that the hypotheses about Redis can hold together, and the witnesses run on it.
\<close>

type_synonym memdb = "(string \<times> rvalue) list"

definition mem_view :: "memdb \<Rightarrow> view" where
  "mem_view d = map_of d"

definition mem_put :: "string \<Rightarrow> rvalue option \<Rightarrow> memdb \<Rightarrow> memdb" where
  "mem_put k v d =
     (case v of None \<Rightarrow> filter (\<lambda>(k', _). k' \<noteq> k) d
      | Some x \<Rightarrow> (k, x) # filter (\<lambda>(k', _). k' \<noteq> k) d)"

definition mem_glob :: "string \<Rightarrow> string \<Rightarrow> bool" where
  "mem_glob p k \<longleftrightarrow>
     (if p \<noteq> [] \<and> last p = CHR ''*'' then take (length p - 1) k = butlast p else p = k)"

definition wrong_type :: fault where
  "wrong_type = RedisError ''WRONGTYPE''"

definition on_hash :: "string \<Rightarrow> (memdb \<Rightarrow> 'a) \<Rightarrow> (memdb \<Rightarrow> memdb) \<Rightarrow> (memdb, 'a) comp" where
  "on_hash k res upd = (\<lambda>d. if hashy (mem_view d) k then (Inr (res d), upd d) else (Inl wrong_type, d))"

definition mem_scan :: "nat \<Rightarrow> string \<Rightarrow> (memdb, nat \<times> string list) comp" where
  "mem_scan c p = (\<lambda>d. let ks = remdups (map fst d) in
     (Inr (if length ks \<le> c + 10 then 0 else c + 10, filter (mem_glob p) (take 10 (drop c ks))), d))"

definition mem_redis :: "memdb redis_client" where
  "mem_redis =
     \<lparr>rc_ping = ret (),
      rc_set = (\<lambda>k x d. (Inr True, mem_put k (Some (RString x)) d)),
      rc_get = (\<lambda>k d. case mem_view d k of None \<Rightarrow> (Inr None, d)
          | Some (RString x) \<Rightarrow> (Inr (Some x), d) | _ \<Rightarrow> (Inl wrong_type, d)),
      rc_exists = (\<lambda>k d. (Inr (if mem_view d k = None then 0 else 1), d)),
      rc_del = (\<lambda>k d. (Inr (if mem_view d k = None then 0 else 1), mem_put k None d)),
      rc_persist = (\<lambda>k d. (Inr False, d)),
      rc_flushall = (\<lambda>d. (Inr (), [])),
      rc_scan = mem_scan,
      rc_hexists = (\<lambda>k f. on_hash k (\<lambda>d. hash_at (mem_view d) k f \<noteq> None) (\<lambda>d. d)),
      rc_hset = (\<lambda>k f x. on_hash k (\<lambda>d. if hash_at (mem_view d) k f = None then 1 else 0)
          (\<lambda>d. mem_put k (Some (RHash ((hash_at (mem_view d) k)(f \<mapsto> x)))) d)),
      rc_hmset = (\<lambda>k fs. on_hash k (\<lambda>d. ())
          (\<lambda>d. mem_put k (Some (RHash (hash_at (mem_view d) k ++ map_of (rev fs)))) d)),
      rc_hlen = (\<lambda>k. on_hash k (\<lambda>d. int (card (dom (hash_at (mem_view d) k)))) (\<lambda>d. d)),
      rc_hget = (\<lambda>k f. on_hash k (\<lambda>d. hash_at (mem_view d) k f) (\<lambda>d. d)),
      rc_hdel = (\<lambda>k f. on_hash k (\<lambda>d. if hash_at (mem_view d) k f = None then 0 else 1)
          (\<lambda>d. mem_put k (drop_field (mem_view d) k f k) d)),
      rc_sadd = (\<lambda>k m d. (Inr 1, d)), rc_srem = (\<lambda>k m d. (Inr 1, d)),
      rc_sismember = (\<lambda>k m d. (Inr False, d)), rc_smembers = (\<lambda>k d. (Inr [], d)),
      rc_scard = (\<lambda>k d. (Inr 0, d)), rc_expire = (\<lambda>k t d. (Inr False, d))\<rparr>"

lemma map_of_filter_other: "map_of (filter (\<lambda>(k', _). k' \<noteq> k) d) = (map_of d)(k := None)"
  by (induction d) (auto simp: fun_eq_iff)

lemma mem_view_put [simp]: "mem_view (mem_put k v d) = (mem_view d)(k := v)"
  by (cases v) (auto simp: mem_view_def mem_put_def map_of_filter_other)

lemma mem_view_keys: "mem_view d k \<noteq> None \<longleftrightarrow> k \<in> fst ` set d"
  by (simp add: mem_view_def map_of_eq_None_iff)

lemma mem_glob_prefix: "mem_glob (pre @ ''*'') k \<longleftrightarrow> prefix pre k"
  by (auto simp: mem_glob_def prefix_def) (metis append_take_drop_id)

lemma mem_put_field: "(mem_view d)(k \<mapsto> RHash ((hash_at (mem_view d) k)(f \<mapsto> x))) = put_field (mem_view d) k f x"
  by (simp add: put_field_def)

lemma mem_drop_field: "(mem_view d)(k := drop_field (mem_view d) k f k) = drop_field (mem_view d) k f"
  by (rule ext) (simp add: drop_field_def)

lemma mem_scan_apply:
  "mem_scan c p d = (Inr (if length (remdups (map fst d)) \<le> c + 10 then 0 else c + 10,
     filter (mem_glob p) (take 10 (drop c (remdups (map fst d))))), d)"
  by (simp add: mem_scan_def Let_def)

lemma mem_scan_set:
  "set (filter (mem_glob p) (remdups (map fst d))) = {k. mem_view d k \<noteq> None \<and> mem_glob p k}"
  by (auto simp: mem_view_keys simp del: not_None_eq)

interpretation mem: redis_live mem_redis mem_view mem_glob
proof
  fix c p d c' ks
  assume "fst (rc_scan mem_redis c p d) = Inr (c', ks)"
  then have "ks = filter (mem_glob p) (take 10 (drop c (remdups (map fst d))))"
    by (simp add: mem_redis_def mem_scan_apply)
  then have "set ks \<subseteq> set (filter (mem_glob p) (remdups (map fst d)))"
    using in_set_dropD in_set_takeD by (fastforce simp del: set_remdups)
  then show "set ks \<subseteq> {k. mem_view d k \<noteq> None \<and> mem_glob p k}"
    by (simp only: mem_scan_set)
next
  fix p d ks
  assume "fst (rc_scan mem_redis 0 p d) = Inr (0, ks)"
  then have "ks = filter (mem_glob p) (remdups (map fst d))"
    by (auto simp: mem_redis_def mem_scan_apply split: if_splits)
  then show "set ks = {k. mem_view d k \<noteq> None \<and> mem_glob p k}"
    by (simp only: mem_scan_set)
qed (auto simp: mem_redis_def on_hash_def mem_scan_apply mem_glob_prefix mem_put_field mem_drop_field
    ret_def split: if_splits option.splits rvalue.splits)

end
