(* ===== verification/Server_Refines.thy ===== *)
theory Server_Refines
  imports Auth_Spec Client_Contract Redis_Memory
begin

text \<open>
  The handlers of \<^verbatim>\<open>Server.cpp\<close> implement the specification \<open>Auth_Spec\<close>, for every Redis
  and every client that keep the contracts \<open>iredis\<close> and \<open>iclient\<close>: from a state related to
  an abstract one, a handler returns (no exception, no dereference of an empty optional), leaves a
  state related to what the specification says, posts exactly the specified response, and changes no
  other client.
\<close>

section \<open>Calls\<close>

lemma redis_simps [simp]:
  "fst (redis m s) = fst (m (sv_db s))"
  "snd (redis m s) = s\<lparr>sv_db := snd (m (sv_db s))\<rparr>"
  by (simp_all add: redis_def)

lemma client_call_simps [simp]:
  "sv_clients s r = Some c \<Longrightarrow> fst (client_call r f s) = Inr (fst (f c))"
  "sv_clients s r = Some c \<Longrightarrow> snd (client_call r f s) = s\<lparr>sv_clients := (sv_clients s)(r \<mapsto> snd (f c))\<rparr>"
  by (simp_all add: client_call_def)

lemma client_do_simps [simp]:
  "sv_clients s r = Some c \<Longrightarrow> fst (client_do r f s) = Inr ()"
  "sv_clients s r = Some c \<Longrightarrow> snd (client_do r f s) = s\<lparr>sv_clients := (sv_clients s)(r \<mapsto> f c)\<rparr>"
  by (simp_all add: client_do_def)

lemma Server_heap_same: "sv_clients s r = Some c \<Longrightarrow> s\<lparr>sv_clients := (sv_clients s)(r \<mapsto> c)\<rparr> = s"
  by (simp add: fun_upd_idem)

lemma client_get_simps [simp]:
  "sv_clients s r = Some c \<Longrightarrow> fst (client_get r f s) = Inr (f c)"
  "sv_clients s r = Some c \<Longrightarrow> snd (client_get r f s) = s"
  by (simp_all add: client_get_def Server_heap_same)

lemma now_ms_simps [simp]: "fst (now_ms s) = Inr (to_string_int (sv_clock s))" "snd (now_ms s) = s"
  by (simp_all add: now_ms_def gets_def)

text \<open>The packets the handlers post.\<close>

definition register_packet :: "protobuf \<Rightarrow> PMResponse \<Rightarrow> byte list" where
  "register_packet pb r =
     append_prot_packet [] (RESPONSE_REGISTER_ACCOUNT pb) (total_length (serialize_register pb r))
       @ serialize_register pb r"

definition login_packet :: "protobuf \<Rightarrow> PMResponse \<Rightarrow> byte list" where
  "login_packet pb r =
     append_prot_packet [] (RESPONSE_LOGIN pb) (total_length_login (serialize_login pb r))
       @ serialize_login pb r"

definition player_data_packet :: "protobuf \<Rightarrow> PMResponsePlayerData \<Rightarrow> byte list" where
  "player_data_packet pb r =
     append_prot_packet [] (RESPONSE_PLAYER_DATA pb) (total_length (serialize_player_data pb r))
       @ serialize_player_data pb r"

definition parsing_error :: PMResponse where
  "parsing_error = \<lparr>res_result = False, res_message = ''parsingError''\<rparr>"

definition after_login :: "('c, 'h, 'e) IClient \<Rightarrow> PMRequestLogin \<Rightarrow> PMResponse \<Rightarrow> 'c \<Rightarrow> 'c" where
  "after_login cl m resp c = (if res_result resp then SetLoginKey cl (logined_key (rl_id m)) c else c)"

definition after_logout :: "('c, 'h, 'e) IClient \<Rightarrow> auth \<Rightarrow> 'c \<Rightarrow> 'c" where
  "after_logout cl a c =
     (case sessions a (GetToken cl c) of Some (Some _) \<Rightarrow> SetLoginKey cl ''noLogined'' c | _ \<Rightarrow> c)"

definition with_handlers ::
  "protobuf \<Rightarrow> ('c, packet_handler, error_handler) IClient \<Rightarrow> nat \<Rightarrow> 'c \<Rightarrow> 'c" where
  "with_handlers pb cl r c =
     SetErrorHandler cl (sint (EM_DISCONNECTED pb)) (OnDisconnected r)
    (SetPacketHandler cl (sint (REQUEST_LOGOUT pb)) (OnLogout r)
    (SetPacketHandler cl (sint (REQUEST_PLAYER_DATA pb)) (OnPlayerData r)
    (SetPacketHandler cl (sint (REQUEST_REGISTER_ACCOUNT pb)) (OnRegister r)
    (SetPacketHandler cl (sint (REQUEST_LOGIN pb)) (OnLogin r) c))))"

lemma bindM_result: "fst (bindM m f s) = Inr y \<Longrightarrow> \<exists>x s'. fst (f x s') = Inr y"
  by (auto simp: bindM_def split: sum.splits)

lemma AddClient_result: "fst (AddClient pb rs cl r s) = Inr x \<Longrightarrow> x = 0"
  unfolding AddClient_def seqM_def by (drule bindM_result, elim exE)+ simp

section \<open>The simulation\<close>

text \<open>
  \<open>handled view s heap a res\<close>: the call returned normally, turned the client objects of
  \<open>s\<close> into \<open>heap\<close> and the database into one related to \<open>a\<close>, and changed nothing else.
\<close>

definition handled ::
  "('d \<Rightarrow> view) \<Rightarrow> ('d, 'c) Server \<Rightarrow> (nat \<rightharpoonup> 'c) \<Rightarrow> auth \<Rightarrow> (fault + 'a) \<times> ('d, 'c) Server \<Rightarrow> bool" where
  "handled view s heap a res \<longleftrightarrow>
     \<not> isl (fst res) \<and> auth_rel (view (sv_db (snd res))) a
     \<and> snd res = s\<lparr>sv_db := sv_db (snd res), sv_clients := heap\<rparr>"

lemma handledE:
  assumes "handled view s heap a res"
  obtains x d where "res = (Inr x, s\<lparr>sv_db := d, sv_clients := heap\<rparr>)" "auth_rel (view d) a"
proof (cases res)
  case (Pair y s')
  with assms have "\<not> isl y" and s': "s' = s\<lparr>sv_db := sv_db s', sv_clients := heap\<rparr>"
    and rel: "auth_rel (view (sv_db s')) a"
    by (auto simp: handled_def)
  then obtain x where "y = Inr x" by (cases y) auto
  with Pair s' rel that [of x "sv_db s'"] show thesis by simp
qed

locale auth_server = rd: iredis rs view + ic: iclient cl queue phandler ehandler wf
  for rs :: "'d IRedis" and view :: "'d \<Rightarrow> view"
    and cl :: "('c, packet_handler, error_handler) IClient"
    and queue :: "'c \<Rightarrow> byte list list"
    and phandler :: "'c \<Rightarrow> int \<Rightarrow> packet_handler option"
    and ehandler :: "'c \<Rightarrow> int \<Rightarrow> error_handler option"
    and wf :: "'c \<Rightarrow> bool"
begin

text \<open>Running a handler: one call at a time, then the comparison of the final states.\<close>

lemmas run_simps = ParseFromArray_nonneg bindM_norm bindM_run Let_def rd.Redis_ok
lemmas end_simps = handled_def rd.Redis_ok Server_heap_same

lemma HandleRequestCreationAccount_sim:
  assumes rel: "auth_rel (view (sv_db s)) a" and c: "sv_clients s r = Some c" and len: "0 \<le> len"
    and m: "parse_register pb (take (nat len) data) = Some m"
  shows "handled view s
    ((sv_clients s)(r \<mapsto> snd (PostWrite cl (register_packet pb (fst (auth_register m a))) c)))
    (snd (auth_register m a)) (HandleRequestCreationAccount pb rs cl r data len s)"
  using rel_register [OF rel, of "ra_id m"] rel unfolding HandleRequestCreationAccount_def
  by (simp add: len m c auth_reads [OF rel] run_simps auth_register_def register_error_def register_packet_def)
    (simp add: end_simps auth_reads [OF rel])

lemma HandleRequestCreationAccount_malformed:
  assumes rel: "auth_rel (view (sv_db s)) a" and c: "sv_clients s r = Some c" and len: "0 \<le> len"
    and m: "parse_register pb (take (nat len) data) = None"
  shows "handled view s ((sv_clients s)(r \<mapsto> snd (PostWrite cl (register_packet pb parsing_error) c))) a
    (HandleRequestCreationAccount pb rs cl r data len s)"
  using rel unfolding HandleRequestCreationAccount_def
  by (simp add: len m c run_simps register_packet_def parsing_error_def) (simp add: end_simps)

lemma HandleRequestLogin_sim:
  assumes rel: "auth_rel (view (sv_db s)) a" and c: "sv_clients s r = Some c" and len: "0 \<le> len"
    and m: "parse_login pb (take (nat len) data) = Some m" and sess: "sessions a (GetToken cl c) \<noteq> None"
  shows "handled view s
    ((sv_clients s)(r \<mapsto> snd (PostWrite cl (login_packet pb (fst (auth_login (GetToken cl c) m a)))
       (after_login cl m (fst (auth_login (GetToken cl c) m a)) c))))
    (snd (auth_login (GetToken cl c) m a)) (HandleRequestLogin pb rs cl r data len s)"
proof (cases "accounts a (rl_id m)")
  case None
  with rel show ?thesis unfolding HandleRequestLogin_def
    by (simp add: len m c auth_reads [OF rel] run_simps auth_login_def login_error_def login_packet_def
        default_response_def after_login_def) (simp add: end_simps)
next
  case (Some acc)
  then show ?thesis using rel_login [OF rel sess, of "rl_id m"] rel unfolding HandleRequestLogin_def
    by (simp add: len m c auth_reads [OF rel] run_simps auth_login_def login_error_def login_packet_def
        default_response_def after_login_def) (simp add: end_simps auth_reads [OF rel])
qed

lemma HandleRequestLogin_malformed:
  assumes rel: "auth_rel (view (sv_db s)) a" and c: "sv_clients s r = Some c" and len: "0 \<le> len"
    and m: "parse_login pb (take (nat len) data) = None"
  shows "handled view s ((sv_clients s)(r \<mapsto> snd (PostWrite cl (login_packet pb parsing_error) c))) a
    (HandleRequestLogin pb rs cl r data len s)"
  using rel unfolding HandleRequestLogin_def
  by (simp add: len m c run_simps login_packet_def parsing_error_def) (simp add: end_simps)

lemma HandleRequestPlayerData_sim:
  assumes rel: "auth_rel (view (sv_db s)) a" and c: "sv_clients s r = Some c" and len: "0 \<le> len"
    and m: "parse_player_data pb (take (nat len) data) = Some u"
  shows "handled view s
    ((sv_clients s)(r \<mapsto> snd (PostWrite cl (player_data_packet pb (auth_player_data (GetToken cl c) a)) c)))
    a (HandleRequestPlayerData pb rs cl r data len s)
    \<and> view (sv_db (snd (HandleRequestPlayerData pb rs cl r data len s))) = view (sv_db s)"
proof (cases "sessions a (GetToken cl c)")
  case None
  with rel show ?thesis unfolding HandleRequestPlayerData_def
    by (simp add: len m c auth_reads [OF rel] run_simps auth_player_data_def player_data_packet_def)
      (simp add: end_simps)
next
  case (Some l)
  note facts = this rel
  show ?thesis
  proof (cases l)
    case None
    with facts show ?thesis unfolding HandleRequestPlayerData_def
      by (simp add: len m c auth_reads [OF rel] run_simps auth_player_data_def player_data_packet_def)
        (simp add: end_simps)
  next
    case (Some i)
    obtain b where "fst (Persist rs k d) = Inr (b k d)" for k d using rd.Persist_ok(1) by metis
    with Some facts show ?thesis unfolding HandleRequestPlayerData_def
      by (cases "accounts a i"; simp add: len m c auth_reads [OF rel] run_simps auth_player_data_def
          player_data_packet_def) (simp_all add: end_simps)
  qed
qed

lemma HandleRequestPlayerData_malformed:
  assumes rel: "auth_rel (view (sv_db s)) a" and c: "sv_clients s r = Some c" and len: "0 \<le> len"
    and m: "parse_player_data pb (take (nat len) data) = None"
  shows "handled view s
    ((sv_clients s)(r \<mapsto> snd (PostWrite cl
       (player_data_packet pb (default_player_data\<lparr>res_message := ''parsingError''\<rparr>)) c)))
    a (HandleRequestPlayerData pb rs cl r data len s)
    \<and> view (sv_db (snd (HandleRequestPlayerData pb rs cl r data len s))) = view (sv_db s)"
  using rel unfolding HandleRequestPlayerData_def
  by (simp add: len m c run_simps player_data_packet_def default_player_data_def) (simp add: end_simps)

lemma LogoutClient_sim:
  assumes rel: "auth_rel (view (sv_db s)) a" and c: "sv_clients s r = Some c"
  shows "handled view s ((sv_clients s)(r \<mapsto> after_logout cl a c)) (auth_logout (GetToken cl c) a)
    (LogoutClient rs cl r s)"
proof (cases "\<exists>i. sessions a (GetToken cl c) = Some (Some i)")
  case True
  then obtain i where i: "sessions a (GetToken cl c) = Some (Some i)" by blast
  then show ?thesis using rel_logout [OF rel, of "GetToken cl c" i] unfolding LogoutClient_def
    by (simp add: c auth_reads [OF rel] run_simps auth_logout_def after_logout_def)
      (simp add: end_simps auth_reads [OF rel])
next
  case False
  with rel show ?thesis unfolding LogoutClient_def
    by (cases "sessions a (GetToken cl c)")
      (auto simp: c auth_reads [OF rel] run_simps auth_logout_def after_logout_def end_simps fun_upd_idem)
qed

lemma HandleRequestLogout_sim:
  assumes "auth_rel (view (sv_db s)) a" "sv_clients s r = Some c" "0 \<le> len"
    and "parse_logout pb (take (nat len) data) = Some u"
  shows "handled view s ((sv_clients s)(r \<mapsto> after_logout cl a c)) (auth_logout (GetToken cl c) a)
    (HandleRequestLogout pb rs cl r data len s)"
  using LogoutClient_sim [OF assms(1,2)] assms(3,4)
  by (simp add: HandleRequestLogout_def ParseFromArray_nonneg)

lemma HandleRequestLogout_malformed:
  assumes "auth_rel (view (sv_db s)) a" "0 \<le> len" "parse_logout pb (take (nat len) data) = None"
  shows "handled view s (sv_clients s) a (HandleRequestLogout pb rs cl r data len s)"
  using assms by (simp add: HandleRequestLogout_def run_simps) (simp add: end_simps)

lemma AddClient_sim:
  assumes rel: "auth_rel (view (sv_db s)) a" and c: "sv_clients s r = Some c"
    and new: "sessions a (GetToken cl c) = None"
  shows "handled view
    (s\<lparr>sv_connectedClients := map_put (GetToken cl c) r (sv_connectedClients s)\<rparr>)
    ((sv_clients s)(r \<mapsto> with_handlers pb cl r (snd (Init cl c))))
    (auth_connect (GetToken cl c) a) (AddClient pb rs cl r s)"
  using rel_connect [OF rel new] unfolding AddClient_def
  by (simp add: c auth_reads [OF rel] run_simps with_handlers_def) (simp add: end_simps auth_reads [OF rel])

lemma run_error_handler_sim:
  assumes rel: "auth_rel (view (sv_db s)) a" and c: "sv_clients s r = Some c"
  shows "handled view
    (s\<lparr>sv_connectedClients := map_erase (GetToken cl c) (sv_connectedClients s)\<rparr>)
    ((sv_clients s)(r \<mapsto> Stop cl (after_logout cl a c)))
    (auth_disconnect (GetToken cl c) a) (run_error_handler rs cl (OnDisconnected r) s)"
proof -
  let ?t = "GetToken cl c"
  obtain u d where r: "LogoutClient rs cl r s
      = (Inr u, s\<lparr>sv_db := d, sv_clients := (sv_clients s)(r \<mapsto> after_logout cl a c)\<rparr>)"
    and rel1: "auth_rel (view d) (auth_logout ?t a)"
    using LogoutClient_sim [OF rel c] by (rule handledE)
  show ?thesis
    using rel_remove [OF rel1, of ?t]
    by (simp add: c r RemoveClient_def run_simps) (simp add: end_simps auth_disconnect_def Let_def)
qed

end

text \<open>The server as it is put together: \<^verbatim>\<open>RedisService\<close> over a live client library, and
  \<^verbatim>\<open>ClientSocket\<close> objects.\<close>

sublocale redis_live \<subseteq> srv: auth_server "RedisService R" view ClientSocket_IClient
  cs_writeBufferQueue packet_handler_of error_handler_of handlers_ok
  ..

context redis_live
begin

lemma live_server: "auth_server (RedisService R) view ClientSocket_IClient
    cs_writeBufferQueue packet_handler_of error_handler_of handlers_ok"
  by (rule srv.auth_server_axioms)

end

interpretation memsrv: auth_server "RedisService mem_redis" mem_view ClientSocket_IClient
  cs_writeBufferQueue packet_handler_of error_handler_of handlers_ok
  ..

end
