(* ===== verification/System.thy ===== *)
theory System
  imports Server_Refines Acceptor
begin

text \<open>
  The running program: the server, the client objects with their outstanding asio operations, the
  token pool and the acceptor, driven by the completions that asio delivers. Each completion handler
  runs to its end before the next one starts, which is how \<^verbatim>\<open>io_context::run\<close> executes them
  on one thread. \<^verbatim>\<open>main\<close> starts half as many threads as the machine has, at least one: with
  more than one the histories here are those in which handlers do not overlap (\<open>Login_Race\<close> has one in
  which they do). An
  exception that leaves a handler leaves \<^verbatim>\<open>io_context::run\<close> and the thread: a fault is the end
  of the program. (A completion that releases a write buffer another write points to is such a fault, so
  no history goes on after it.)
\<close>

type_synonym socket = "(packet_handler, error_handler) ClientSocket"

record 'd world =
  w_server :: "('d, socket) Server"
  w_pool :: TokenPool64
  w_next :: nat

section \<open>Completion handlers\<close>

text \<open>The two calls of \<open>ReadAsync\<close>'s lambda that reach a stored closure.\<close>

definition handle_packet ::
  "protobuf \<Rightarrow> 'd IRedis \<Rightarrow> nat \<Rightarrow> int \<Rightarrow> byte list \<Rightarrow> int \<Rightarrow> (('d, socket) Server, unit) comp" where
  "handle_packet pb rs r type data len =
     bindM (client_get r (HandlePacket (sint (EM_DISCONNECTED pb)) type)) (\<lambda>d.
     case d of
       Inl e \<Rightarrow> raise e
     | Inr NoHandler \<Rightarrow> ret ()
     | Inr Logged \<Rightarrow> ret ()
     | Inr (CallHandler h) \<Rightarrow> run_packet_handler pb rs ClientSocket_IClient h data len)"

definition handle_error :: "'d IRedis \<Rightarrow> nat \<Rightarrow> (('d, socket) Server, unit) comp" where
  "handle_error rs r =
     bindM (client_get r HandleError) (\<lambda>handlers.
     forM handlers (run_error_handler rs ClientSocket_IClient))"

text \<open>
  The lambda of \<^verbatim>\<open>ReadAsync\<close>: the bytes received are already in the buffer. (Its inner test
  \<^verbatim>\<open>length == 0\<close> comes after the outer one and is never true.)
\<close>

definition on_read ::
  "protobuf \<Rightarrow> 'd IRedis \<Rightarrow> nat \<Rightarrow> string option \<Rightarrow> byte list \<Rightarrow> (('d, socket) Server, unit) comp" where
  "on_read pb rs r ec received =
     seqM (client_do r (\<lambda>c. c\<lparr>cs_reading := cs_reading c - 1,
                             cs_recvBuffer := map_option (\<lambda>b. fill_buffer b received) (cs_recvBuffer c)\<rparr>))
    (if length received = 0 then handle_error rs r
     else if ec = None then
       bindM (client_get r cs_recvBuffer) (\<lambda>recvBuffer.
       bindM (deref ''receive buffer'' recvBuffer) (\<lambda>buffer.
       seqM (case decode_packet buffer (length received) of
               None \<Rightarrow> ret ()
             | Some (type, data, len) \<Rightarrow> handle_packet pb rs r type data len)
            (client_do r ReadAsync)))
     else handle_error rs r)"

text \<open>\<^verbatim>\<open>main\<close>'s delegator: a new client object, and \<^verbatim>\<open>AddClient\<close>.\<close>

definition on_server :: "(('d, socket) Server, 'a) comp \<Rightarrow> ('d world, 'a) comp" where
  "on_server m = (\<lambda>w. (fst (m (w_server w)), w\<lparr>w_server := snd (m (w_server w))\<rparr>))"

definition add_connection :: "protobuf \<Rightarrow> 'd IRedis \<Rightarrow> byte list \<Rightarrow> ('d world, unit) comp" where
  "add_connection pb rs fill = (\<lambda>w.
     case ClientSocket_ctor fill (w_pool w) of
       None \<Rightarrow> (Inl OutOfFuel, w)
     | Some (c, pool) \<Rightarrow>
         (let r = w_next w;
              s = w_server w
          in seqM (on_server (AddClient pb rs ClientSocket_IClient r)) (ret ())
               (w\<lparr>w_server := s\<lparr>sv_clients := (sv_clients s)(r \<mapsto> c)\<rparr>, w_pool := pool, w_next := Suc r\<rparr>)))"

text \<open>The completion of the oldest write of a client.\<close>

definition write_completed :: "nat \<Rightarrow> string option \<Rightarrow> (('d, socket) Server, unit) comp" where
  "write_completed r ec =
     bindM (client_call r (on_write ec)) (\<lambda>y. case y of Inl e \<Rightarrow> raise e | Inr _ \<Rightarrow> ret ())"

section \<open>Events\<close>

text \<open>
  An accepted connection (with the outcome of the system calls, the bytes the allocator left in the
  receive buffer, and the numbers the engine draws), the completion of a read or of a write, the end
  of a client object that nothing owns, and the passing of time.
\<close>

datatype sys_event =
    AcceptEv accepted "byte list" "token list"
  | ReadEv nat "string option" "byte list"
  | WriteEv nat "string option"
  | DestroyEv nat
  | ClockEv int

fun enabled :: "sys_event \<Rightarrow> Acceptor \<times> 'd world \<Rightarrow> bool" where
  "enabled (AcceptEv r fill ds) (ac, w) \<longleftrightarrow>
     0 < ac_pending ac \<and> length fill = RECV_BUFFER_SIZE \<and> 0 \<notin> set ds \<and> \<not> set ds \<subseteq> used (w_pool w)"
| "enabled (ReadEv r ec received) (ac, w) \<longleftrightarrow>
     (case sv_clients (w_server w) r of None \<Rightarrow> False
      | Some c \<Rightarrow> 0 < cs_reading c \<and> length received \<le> RECV_BUFFER_SIZE)"
| "enabled (WriteEv r ec) (ac, w) \<longleftrightarrow>
     (case sv_clients (w_server w) r of None \<Rightarrow> False | Some c \<Rightarrow> cs_writing c \<noteq> [])"
| "enabled (DestroyEv r) (ac, w) \<longleftrightarrow>
     (case sv_clients (w_server w) r of None \<Rightarrow> False
      | Some c \<Rightarrow> cs_reading c = 0 \<and> cs_writing c = [] \<and> r \<notin> snd ` set (sv_connectedClients (w_server w)))"
| "enabled (ClockEv t) (ac, w) \<longleftrightarrow> True"

definition destroy :: "nat \<Rightarrow> 'd world \<Rightarrow> 'd world" where
  "destroy r w =
     (case sv_clients (w_server w) r of
        None \<Rightarrow> w
      | Some c \<Rightarrow> w\<lparr>w_server := (w_server w)\<lparr>sv_clients := (sv_clients (w_server w))(r := None)\<rparr>,
                     w_pool := ClientSocket_dtor c (w_pool w)\<rparr>)"

fun sys_next ::
  "protobuf \<Rightarrow> 'd IRedis \<Rightarrow> sys_event \<Rightarrow> Acceptor \<times> 'd world \<Rightarrow> (fault + unit) \<times> (Acceptor \<times> 'd world)" where
  "sys_next pb rs (AcceptEv r fill ds) (ac, w) =
     on_accept (beside (add_connection pb rs fill)) r (ac, w\<lparr>w_pool := (w_pool w)\<lparr>draws := ds\<rparr>\<rparr>)"
| "sys_next pb rs (ReadEv r ec received) (ac, w) =
     (let (y, w') = on_server (on_read pb rs r ec received) w in (y, (ac, w')))"
| "sys_next pb rs (WriteEv r ec) (ac, w) =
     (let (y, w') = on_server (write_completed r ec) w in (y, (ac, w')))"
| "sys_next pb rs (DestroyEv r) (ac, w) = (Inr (), (ac, destroy r w))"
| "sys_next pb rs (ClockEv t) (ac, w) =
     (Inr (), (ac, w\<lparr>w_server := (w_server w)\<lparr>sv_clock := t\<rparr>\<rparr>))"

inductive reachable :: "protobuf \<Rightarrow> 'd IRedis \<Rightarrow> Acceptor \<times> 'd world \<Rightarrow> Acceptor \<times> 'd world \<Rightarrow> bool"
  for pb rs x0 where
  reach_init: "reachable pb rs x0 x0"
| reach_step: "reachable pb rs x0 x \<Longrightarrow> enabled ev x \<Longrightarrow> sys_next pb rs ev x = (Inr (), x') \<Longrightarrow>
    reachable pb rs x0 x'"

text \<open>
  The histories in which the clients wait for their answers: no bytes of a client arrive while a write
  to it is outstanding. With several writes outstanding the first completion releases a buffer that another
  one points to (\<open>Write_Queue\<close>).
\<close>

fun polite :: "sys_event \<Rightarrow> Acceptor \<times> 'd world \<Rightarrow> bool" where
  "polite (ReadEv r ec received) (ac, w) \<longleftrightarrow>
     (case sv_clients (w_server w) r of None \<Rightarrow> True
      | Some c \<Rightarrow> ec = None \<and> received \<noteq> [] \<longrightarrow> cs_writing c = [])"
| "polite _ x \<longleftrightarrow> True"

inductive polite_reachable ::
  "protobuf \<Rightarrow> 'd IRedis \<Rightarrow> Acceptor \<times> 'd world \<Rightarrow> Acceptor \<times> 'd world \<Rightarrow> bool"
  for pb rs x0 where
  polite_init: "polite_reachable pb rs x0 x0"
| polite_step: "polite_reachable pb rs x0 x \<Longrightarrow> enabled ev x \<Longrightarrow> polite ev x \<Longrightarrow>
    sys_next pb rs ev x = (Inr (), x') \<Longrightarrow> polite_reachable pb rs x0 x'"

lemma polite_reachable_reachable: "polite_reachable pb rs x0 x \<Longrightarrow> reachable pb rs x0 x"
  by (induction rule: polite_reachable.induct) (auto intro: reachable.intros)

text \<open>The state in which \<^verbatim>\<open>main\<close> starts the io threads, over a database without stale sessions.\<close>

definition sys_init :: "('d \<Rightarrow> view) \<Rightarrow> Acceptor \<times> 'd world \<Rightarrow> bool" where
  "sys_init view x \<longleftrightarrow>
     (let w = snd x in
      sv_clients (w_server w) = Map.empty \<and> sv_connectedClients (w_server w) = [] \<and> used (w_pool w) = {}
      \<and> (\<exists>a. auth_rel (view (sv_db (w_server w))) a \<and> no_sessions a))"

end
