(* ===== verification/System_Inv.thy ===== *)
theory System_Inv
  imports System
begin

text \<open>
  The invariant of the running program. \<open>objects_ok\<close> ties together the table of connected clients,
  the client objects and the token pool: every entry of the table points to a live object with that
  token, with all five handlers installed, a receive buffer of full size and exactly one outstanding
  read; tokens are unique; the tokens in use are those of the live objects, no more and no less; an object
  that is not in the table reads no more. \<open>sys_inv\<close> adds that
  the database is related to an abstract state whose sessions are exactly the connected clients.
  \<open>one_write\<close>, the invariant of the histories in which clients wait for their answers, bounds the
  outstanding writes.
\<close>

section \<open>Objects\<close>

definition packet_table :: "protobuf \<Rightarrow> nat \<Rightarrow> (int, packet_handler) std_map" where
  "packet_table pb r =
     map_put (sint (REQUEST_LOGOUT pb)) (OnLogout r)
    (map_put (sint (REQUEST_PLAYER_DATA pb)) (OnPlayerData r)
    (map_put (sint (REQUEST_REGISTER_ACCOUNT pb)) (OnRegister r)
    (map_put (sint (REQUEST_LOGIN pb)) (OnLogin r) [])))"

definition conn_ok :: "protobuf \<Rightarrow> nat \<Rightarrow> token \<Rightarrow> socket \<Rightarrow> bool" where
  "conn_ok pb r t c \<longleftrightarrow>
     cs_token c = t \<and> cs_packetHandler c = packet_table pb r
     \<and> cs_disconnectHandler c = [(sint (EM_DISCONNECTED pb), OnDisconnected r)]
     \<and> (\<exists>b. cs_recvBuffer c = Some b \<and> length b = RECV_BUFFER_SIZE)"

definition objects_ok ::
  "protobuf \<Rightarrow> (nat \<rightharpoonup> socket) \<Rightarrow> (token, nat) std_map \<Rightarrow> token set \<Rightarrow> nat \<Rightarrow> bool" where
  "objects_ok pb heap conn us n \<longleftrightarrow>
     map_ok conn
     \<and> (\<forall>t r. map_find t conn = Some r \<longrightarrow> (\<exists>c. heap r = Some c \<and> conn_ok pb r t c \<and> cs_reading c = 1))
     \<and> (\<forall>r c. heap r = Some c \<longrightarrow> cs_token c \<in> us \<and> r < n
          \<and> (map_find (cs_token c) conn = Some r \<or> cs_reading c = 0))
     \<and> (\<forall>r c r' c'. heap r = Some c \<longrightarrow> heap r' = Some c' \<longrightarrow> cs_token c = cs_token c' \<longrightarrow> r = r')
     \<and> (\<forall>t\<in>us. \<exists>r c. heap r = Some c \<and> cs_token c = t)"

text \<open>Two objects that differ at most in what they have to send, their login key and whether they are open.\<close>

definition same_conn :: "socket \<Rightarrow> socket \<Rightarrow> bool" where
  "same_conn c c' \<longleftrightarrow>
     cs_token c' = cs_token c \<and> cs_packetHandler c' = cs_packetHandler c
     \<and> cs_disconnectHandler c' = cs_disconnectHandler c \<and> cs_recvBuffer c' = cs_recvBuffer c
     \<and> cs_reading c' = cs_reading c"

lemma same_conn_ops [simp]:
  "same_conn c c"
  "same_conn c (snd (PostWrite ClientSocket_IClient b c')) = same_conn c c'"
  "same_conn c (SetLoginKey ClientSocket_IClient k c') = same_conn c c'"
  "same_conn c (Stop ClientSocket_IClient c') = same_conn c c'"
  "same_conn c (snd (on_write ec c')) = same_conn c c'"
  by (simp_all add: same_conn_def ClientSocket_defs on_write_def PopFrontWriteBuffer_def Let_def
      split: list.split option.split)

lemma writes_ops [simp]:
  "length (cs_writing (snd (PostWrite ClientSocket_IClient b c))) = Suc (length (cs_writing c))"
  "cs_writing (SetLoginKey ClientSocket_IClient k c) = cs_writing c"
  "cs_writing (Stop ClientSocket_IClient c) = cs_writing c"
  "cs_writing (ReadAsync c) = cs_writing c"
  "cs_writing (snd (Init ClientSocket_IClient c)) = cs_writing c"
  "cs_writing (SetPacketHandler ClientSocket_IClient t h c) = cs_writing c"
  "cs_writing (SetErrorHandler ClientSocket_IClient t e c) = cs_writing c"
  by (simp_all add: ClientSocket_defs split: list.split)

lemma reads_ops [simp]:
  "cs_reading (snd (Init ClientSocket_IClient c)) = Suc (cs_reading c)"
  "cs_reading (SetPacketHandler ClientSocket_IClient t h c) = cs_reading c"
  "cs_reading (SetErrorHandler ClientSocket_IClient t e c) = cs_reading c"
  by (simp_all add: ClientSocket_defs)

lemma PostWrite_socket: "PostWrite ClientSocket_IClient = ClientSocket_PostWrite"
  and SetLoginKey_socket: "SetLoginKey ClientSocket_IClient = ClientSocket_SetLoginKey"
  and Stop_socket: "Stop ClientSocket_IClient = ClientSocket_Stop"
  and Init_socket: "Init ClientSocket_IClient = ClientSocket_Init"
  by (simp_all add: ClientSocket_IClient_def)

lemma GetToken_socket [simp]: "GetToken ClientSocket_IClient = cs_token"
  by (rule ext) (simp add: ClientSocket_defs)

lemma same_conn_ok: "same_conn c c' \<Longrightarrow> conn_ok pb r t c' = conn_ok pb r t c"
  by (simp add: same_conn_def conn_ok_def)

lemma objects_okI:
  assumes "map_ok conn"
    and "\<And>t r. map_find t conn = Some r \<Longrightarrow> \<exists>c. heap r = Some c \<and> conn_ok pb r t c \<and> cs_reading c = 1"
    and "\<And>r c. heap r = Some c \<Longrightarrow> cs_token c \<in> us \<and> r < n"
    and "\<And>r c. heap r = Some c \<Longrightarrow> map_find (cs_token c) conn = Some r \<or> cs_reading c = 0"
    and "\<And>r c r' c'. heap r = Some c \<Longrightarrow> heap r' = Some c' \<Longrightarrow> cs_token c = cs_token c' \<Longrightarrow> r = r'"
    and "\<And>t. t \<in> us \<Longrightarrow> \<exists>r c. heap r = Some c \<and> cs_token c = t"
  shows "objects_ok pb heap conn us n"
  using assms by (simp add: objects_ok_def)

lemma objects_okD:
  assumes "objects_ok pb heap conn us n"
  shows "map_ok conn"
    and "map_find t conn = Some r \<Longrightarrow> \<exists>c. heap r = Some c \<and> conn_ok pb r t c \<and> cs_reading c = 1"
    and "heap r = Some c \<Longrightarrow> cs_token c \<in> us" "heap r = Some c \<Longrightarrow> r < n"
    and "heap r = Some c \<Longrightarrow> map_find (cs_token c) conn = Some r \<or> cs_reading c = 0"
    and "heap r = Some c \<Longrightarrow> heap r' = Some c' \<Longrightarrow> cs_token c = cs_token c' \<Longrightarrow> r = r'"
    and "t \<in> us \<Longrightarrow> \<exists>r c. heap r = Some c \<and> cs_token c = t"
  using assms unfolding objects_ok_def by simp_all

lemma objects_used: "objects_ok pb heap conn us n \<Longrightarrow> us = {cs_token c | r c. heap r = Some c}"
  using objects_okD(3,7) [of pb heap conn us n] by fastforce

text \<open>An object that changes and keeps its token.\<close>

lemma used_update:
  assumes "objects_ok pb heap conn us n" "heap r = Some c" "cs_token c' = cs_token c" "t \<in> us"
  shows "\<exists>r1 c1. (heap(r \<mapsto> c')) r1 = Some c1 \<and> cs_token c1 = t"
proof -
  obtain r1 c1 where "heap r1 = Some c1" "cs_token c1 = t" using objects_okD(7) [OF assms(1,4)] by blast
  then show ?thesis using assms(2,3) by (cases "r1 = r") auto
qed

lemma conn_ok_token: "conn_ok pb r t c \<Longrightarrow> cs_token c = t"
  by (simp add: conn_ok_def)

lemma objects_same:
  assumes ok: "objects_ok pb heap conn us n" and r: "heap r = Some c" and c': "same_conn c c'"
  shows "objects_ok pb (heap(r \<mapsto> c')) conn us n"
proof (rule objects_okI)
  have same: "cs_token c' = cs_token c" "cs_reading c' = cs_reading c" using c' by (simp_all add: same_conn_def)
  fix t r1 assume "map_find t conn = Some r1"
  then show "\<exists>c. (heap(r \<mapsto> c')) r1 = Some c \<and> conn_ok pb r1 t c \<and> cs_reading c = 1"
    using objects_okD(2) [OF ok, of t r1] r same_conn_ok [OF c'] same by auto
next
  have same: "cs_token c' = cs_token c" "cs_reading c' = cs_reading c" using c' by (simp_all add: same_conn_def)
  fix r1 c1 assume h: "(heap(r \<mapsto> c')) r1 = Some c1"
  show "cs_token c1 \<in> us \<and> r1 < n" "map_find (cs_token c1) conn = Some r1 \<or> cs_reading c1 = 0"
    using h objects_okD(3-5) [OF ok] r same by (auto split: if_splits)
  fix r2 c2 assume "(heap(r \<mapsto> c')) r2 = Some c2" "cs_token c1 = cs_token c2"
  with h show "r1 = r2" using objects_okD(6) [OF ok] r same by (auto split: if_splits)
next
  fix t assume "t \<in> us"
  then show "\<exists>r1 c1. (heap(r \<mapsto> c')) r1 = Some c1 \<and> cs_token c1 = t"
    using used_update [OF ok r] c' by (simp add: same_conn_def)
qed (rule objects_okD(1) [OF ok])

lemma objects_disconnect:
  assumes ok: "objects_ok pb heap conn us n" and r: "heap r = Some c"
    and c': "cs_token c' = cs_token c" "cs_reading c' = 0"
  shows "objects_ok pb (heap(r \<mapsto> c')) (map_erase (cs_token c) conn) us n"
proof (rule objects_okI)
  fix t r1 assume "map_find t (map_erase (cs_token c) conn) = Some r1"
  then have "t \<noteq> cs_token c" "map_find t conn = Some r1"
    using objects_okD(1) [OF ok] by (auto split: if_splits)
  then show "\<exists>c. (heap(r \<mapsto> c')) r1 = Some c \<and> conn_ok pb r1 t c \<and> cs_reading c = 1"
    using objects_okD(2) [OF ok, of t r1] r conn_ok_token by fastforce
next
  fix r1 c1 assume h: "(heap(r \<mapsto> c')) r1 = Some c1"
  show "cs_token c1 \<in> us \<and> r1 < n"
    using h objects_okD(3,4) [OF ok] r c' by (auto split: if_splits)
  show "map_find (cs_token c1) (map_erase (cs_token c) conn) = Some r1 \<or> cs_reading c1 = 0"
    using h objects_okD(1,5) [OF ok] objects_okD(6) [OF ok _ r] c' by (auto split: if_splits)
  fix r2 c2 assume "(heap(r \<mapsto> c')) r2 = Some c2" "cs_token c1 = cs_token c2"
  with h show "r1 = r2" using objects_okD(6) [OF ok] r c' by (auto split: if_splits)
next
  fix t assume "t \<in> us"
  then show "\<exists>r1 c1. (heap(r \<mapsto> c')) r1 = Some c1 \<and> cs_token c1 = t"
    by (rule used_update [OF ok r c'(1)])
qed (use objects_okD(1) [OF ok] in blast)

lemma map_erase_keys:
  "map_ok conn \<Longrightarrow> {t. map_find t (map_erase k conn) \<noteq> None} = {t. map_find t conn \<noteq> None} - {k}"
  by (auto split: if_splits)

lemma objects_update:
  assumes ok: "objects_ok pb heap conn us n" and r: "map_find t conn = Some r"
    and c': "conn_ok pb r t c'" "cs_reading c' = 1"
  shows "objects_ok pb (heap(r \<mapsto> c')) conn us n"
proof -
  obtain c where c: "heap r = Some c" "conn_ok pb r t c" using objects_okD(2) [OF ok r] by blast
  note t = conn_ok_token [OF c(2)] conn_ok_token [OF c'(1)]
  show ?thesis
  proof (rule objects_okI)
    fix t1 r1 assume f: "map_find t1 conn = Some r1"
    show "\<exists>c. (heap(r \<mapsto> c')) r1 = Some c \<and> conn_ok pb r1 t1 c \<and> cs_reading c = 1"
    proof (cases "r1 = r")
      case True
      with objects_okD(2) [OF ok f] c(1) have "conn_ok pb r t1 c" by simp
      with t(1) have "t1 = t" using conn_ok_token by blast
      with True c' show ?thesis by simp
    qed (use objects_okD(2) [OF ok f] in simp)
  next
    fix r1 c1 assume h: "(heap(r \<mapsto> c')) r1 = Some c1"
    show "cs_token c1 \<in> us \<and> r1 < n"
      using h objects_okD(3,4) [OF ok] c(1) t by (auto split: if_splits)
    show "map_find (cs_token c1) conn = Some r1 \<or> cs_reading c1 = 0"
      using h objects_okD(5) [OF ok] r t by (auto split: if_splits)
    fix r2 c2 assume "(heap(r \<mapsto> c')) r2 = Some c2" "cs_token c1 = cs_token c2"
    with h show "r1 = r2" using objects_okD(6) [OF ok] c(1) t by (auto split: if_splits)
  next
    fix t1 assume "t1 \<in> us"
    then show "\<exists>r1 c1. (heap(r \<mapsto> c')) r1 = Some c1 \<and> cs_token c1 = t1"
      using used_update [OF ok c(1)] t by simp
  qed (rule objects_okD(1) [OF ok])
qed

lemma objects_accept:
  assumes ok: "objects_ok pb heap conn us n" and new: "t \<notin> us" and c: "conn_ok pb n t c" "cs_reading c = 1"
  shows "objects_ok pb (heap(n \<mapsto> c)) (map_put t n conn) (insert t us) (Suc n)"
proof (rule objects_okI)
  have fresh: "heap n = None" using objects_okD(4) [OF ok, of n] by (cases "heap n") auto
  have other: "cs_token c' \<noteq> t" if "heap r = Some c'" for r c'
    using objects_okD(3) [OF ok that] new by auto
  note t = conn_ok_token [OF c(1)]
  fix t1 r1 assume "map_find t1 (map_put t n conn) = Some r1"
  then have "t1 = t \<and> r1 = n \<or> t1 \<noteq> t \<and> map_find t1 conn = Some r1"
    using objects_okD(1) [OF ok] by (auto split: if_splits)
  then show "\<exists>c'. (heap(n \<mapsto> c)) r1 = Some c' \<and> conn_ok pb r1 t1 c' \<and> cs_reading c' = 1"
    using objects_okD(2) [OF ok, of t1 r1] c fresh by auto
next
  have other: "cs_token c' \<noteq> t" if "heap r = Some c'" for r c'
    using objects_okD(3) [OF ok that] new by auto
  note t = conn_ok_token [OF c(1)]
  fix r1 c1 assume h: "(heap(n \<mapsto> c)) r1 = Some c1"
  show "cs_token c1 \<in> insert t us \<and> r1 < Suc n"
    using h objects_okD(3,4) [OF ok] t by (auto split: if_splits simp: less_Suc_eq)
  show "map_find (cs_token c1) (map_put t n conn) = Some r1 \<or> cs_reading c1 = 0"
    using h objects_okD(1,5) [OF ok] t other by (auto split: if_splits)
  fix r2 c2 assume "(heap(n \<mapsto> c)) r2 = Some c2" "cs_token c1 = cs_token c2"
  with h show "r1 = r2" using objects_okD(6) [OF ok] t other by (auto split: if_splits)
next
  have fresh: "heap n = None" using objects_okD(4) [OF ok, of n] by (cases "heap n") auto
  fix t1 assume "t1 \<in> insert t us"
  then show "\<exists>r1 c1. (heap(n \<mapsto> c)) r1 = Some c1 \<and> cs_token c1 = t1"
  proof
    assume "t1 = t"
    then show ?thesis using conn_ok_token [OF c(1)] by (intro exI [of _ n] exI [of _ c]) simp
  next
    assume "t1 \<in> us"
    then obtain r1 c1 where "heap r1 = Some c1" "cs_token c1 = t1" using objects_okD(7) [OF ok] by blast
    with fresh show ?thesis by (intro exI [of _ r1] exI [of _ c1]) auto
  qed
qed (use objects_okD(1) [OF ok] in blast)

lemma objects_destroy:
  assumes ok: "objects_ok pb heap conn us n" and r: "heap r = Some c" and free: "r \<notin> snd ` set conn"
  shows "objects_ok pb (heap(r := None)) conn (us - {cs_token c}) n"
proof (rule objects_okI)
  fix t r1 assume f: "map_find t conn = Some r1"
  then have "(t, r1) \<in> set conn" by (simp add: map_find_mem [OF objects_okD(1) [OF ok]])
  with free have "r1 \<noteq> r" by force
  then show "\<exists>c. (heap(r := None)) r1 = Some c \<and> conn_ok pb r1 t c \<and> cs_reading c = 1"
    using objects_okD(2) [OF ok f] by simp
next
  fix r1 c1 assume "(heap(r := None)) r1 = Some c1"
  then have h: "r1 \<noteq> r" "heap r1 = Some c1" by (auto split: if_splits)
  then show "cs_token c1 \<in> us - {cs_token c} \<and> r1 < n"
    using objects_okD(3,4) [OF ok h(2)] objects_okD(6) [OF ok h(2) r] by auto
  show "map_find (cs_token c1) conn = Some r1 \<or> cs_reading c1 = 0" by (rule objects_okD(5) [OF ok h(2)])
  fix r2 c2 assume "(heap(r := None)) r2 = Some c2" "cs_token c1 = cs_token c2"
  then have "heap r2 = Some c2" by (simp split: if_splits)
  then show "r1 = r2" using objects_okD(6) [OF ok h(2)] \<open>cs_token c1 = cs_token c2\<close> by blast
next
  fix t assume t: "t \<in> us - {cs_token c}"
  then obtain r1 c1 where "heap r1 = Some c1" "cs_token c1 = t" using objects_okD(7) [OF ok] by blast
  with t r show "\<exists>r1 c1. (heap(r := None)) r1 = Some c1 \<and> cs_token c1 = t"
    by (intro exI [of _ r1] exI [of _ c1]) auto
qed (rule objects_okD(1) [OF ok])

section \<open>Handlers on connected clients\<close>

text \<open>The generated enumerations: the request types are different, and none is \<^verbatim>\<open>EM_DISCONNECTED\<close>.\<close>

definition pb_ok :: "protobuf \<Rightarrow> bool" where
  "pb_ok pb \<longleftrightarrow> distinct [REQUEST_LOGIN pb, REQUEST_REGISTER_ACCOUNT pb, REQUEST_PLAYER_DATA pb,
     REQUEST_LOGOUT pb, EM_DISCONNECTED pb]"

lemma packet_table_find:
  assumes "map_find type (packet_table pb r) = Some h"
  shows "h \<in> {OnLogin r, OnRegister r, OnPlayerData r, OnLogout r}"
  using assms by (auto simp: packet_table_def simp del: map_put.simps split: if_splits)

lemma packet_table_disconnected: "pb_ok pb \<Longrightarrow> map_find (sint (EM_DISCONNECTED pb)) (packet_table pb r) = None"
  by (auto simp: packet_table_def pb_ok_def simp del: map_put.simps)

lemma packet_table_entries:
  assumes "pb_ok pb"
  shows "map_find (sint (REQUEST_LOGIN pb)) (packet_table pb r) = Some (OnLogin r)"
    "map_find (sint (REQUEST_REGISTER_ACCOUNT pb)) (packet_table pb r) = Some (OnRegister r)"
    "map_find (sint (REQUEST_PLAYER_DATA pb)) (packet_table pb r) = Some (OnPlayerData r)"
    "map_find (sint (REQUEST_LOGOUT pb)) (packet_table pb r) = Some (OnLogout r)"
  using assms by (auto simp: packet_table_def pb_ok_def simp del: map_put.simps)

lemma dom_sessions_login: "sessions a t \<noteq> None \<Longrightarrow> dom (sessions (snd (auth_login t m a))) = dom (sessions a)"
  by (auto simp: auth_login_def split: option.split)

lemma dom_sessions_register: "sessions (snd (auth_register m a)) = sessions a"
  by (simp add: auth_register_def split: option.split)

lemma dom_sessions_logout: "dom (sessions (auth_logout t a)) = dom (sessions a)"
  by (auto simp: auth_logout_def split: option.split)

lemma same_conn_after [simp]:
  "same_conn c (after_login ClientSocket_IClient m resp c)"
  "same_conn c (after_logout ClientSocket_IClient a c)"
  by (simp_all add: after_login_def after_logout_def split: option.split)

lemma writes_after [simp]:
  "cs_writing (after_login ClientSocket_IClient m resp c) = cs_writing c"
  "cs_writing (after_logout ClientSocket_IClient a c) = cs_writing c"
  by (simp_all add: after_login_def after_logout_def split: option.split)

lemma run_packet_handler_alive:
  assumes "sv_clients s r = Some c"
  shows "run_packet_handler pb rs cl (OnLogin r) data len s = HandleRequestLogin pb rs cl r data len s"
    "run_packet_handler pb rs cl (OnRegister r) data len s = HandleRequestCreationAccount pb rs cl r data len s"
    "run_packet_handler pb rs cl (OnPlayerData r) data len s = HandleRequestPlayerData pb rs cl r data len s"
    "run_packet_handler pb rs cl (OnLogout r) data len s = HandleRequestLogout pb rs cl r data len s"
  using assms by (simp_all add: bindM_run)

lemma run_packet_handler_negative:
  assumes "len < 0" "h \<in> {OnLogin r, OnRegister r, OnPlayerData r, OnLogout r}" "sv_clients s r = Some c"
  shows "run_packet_handler pb rs cl h data len s
    = (Inl (Undefined ''ParseFromArray of a negative length''), s)"
  using assms(1,2) by (auto simp: run_packet_handler_alive [OF assms(3)] HandleRequestLogin_def
      HandleRequestCreationAccount_def HandleRequestPlayerData_def HandleRequestLogout_def
      ParseFromArray_def bindM_raise raise_apply simp del: run_packet_handler.simps)

text \<open>What a request does to the objects and to the abstract state.\<close>

definition request_done ::
  "('d \<Rightarrow> view) \<Rightarrow> ('d, socket) Server \<Rightarrow> nat \<Rightarrow> socket \<Rightarrow> auth \<Rightarrow> (fault + unit) \<times> ('d, socket) Server \<Rightarrow> bool" where
  "request_done view s r c a res \<longleftrightarrow>
     (\<exists>a' c'. handled view s ((sv_clients s)(r \<mapsto> c')) a' res \<and> same_conn c c' \<and> auth_path a a'
        \<and> dom (sessions a') = dom (sessions a) \<and> length (cs_writing c') \<le> Suc (length (cs_writing c)))"

lemma request_doneI:
  "handled view s ((sv_clients s)(r \<mapsto> c')) a' res \<Longrightarrow> same_conn c c' \<Longrightarrow> auth_path a a' \<Longrightarrow>
   dom (sessions a') = dom (sessions a) \<Longrightarrow> length (cs_writing c') \<le> Suc (length (cs_writing c)) \<Longrightarrow>
   request_done view s r c a res"
  unfolding request_done_def by blast

context redis_live
begin

lemma auth_step: "auth_enabled ev a \<Longrightarrow> auth_path a (auth_next ev a)"
  by (rule auth_more [OF auth_start])

lemma login_done:
  assumes rel: "auth_rel (view (sv_db s)) a" and c: "sv_clients s r = Some c"
    and sess: "sessions a (cs_token c) \<noteq> None" and len: "0 \<le> len"
  shows "request_done view s r c a (HandleRequestLogin pb (RedisService R) ClientSocket_IClient r data len s)"
proof (cases "parse_login pb (take (nat len) data)")
  case None
  then show ?thesis
    by (rule request_doneI [OF srv.HandleRequestLogin_malformed [OF rel c len]]) (auto intro: auth_start)
next
  case (Some m)
  show ?thesis
    using sess auth_step [of "Login (cs_token c) m"] dom_sessions_login [OF sess, of m]
    by (intro request_doneI [OF srv.HandleRequestLogin_sim [OF rel c len Some]]) simp_all
qed

lemma register_done:
  assumes rel: "auth_rel (view (sv_db s)) a" and c: "sv_clients s r = Some c" and len: "0 \<le> len"
  shows "request_done view s r c a (HandleRequestCreationAccount pb (RedisService R) ClientSocket_IClient r data len s)"
proof (cases "parse_register pb (take (nat len) data)")
  case None
  then show ?thesis
    by (rule request_doneI [OF srv.HandleRequestCreationAccount_malformed [OF rel c len]]) (auto intro: auth_start)
next
  case (Some m)
  show ?thesis
    using auth_step [of "Register m"]
    by (intro request_doneI [OF srv.HandleRequestCreationAccount_sim [OF rel c len Some]])
      (simp_all add: dom_sessions_register)
qed

lemma player_data_done:
  assumes rel: "auth_rel (view (sv_db s)) a" and c: "sv_clients s r = Some c" and len: "0 \<le> len"
  shows "request_done view s r c a (HandleRequestPlayerData pb (RedisService R) ClientSocket_IClient r data len s)"
proof (cases "parse_player_data pb (take (nat len) data)")
  case None
  then show ?thesis
    by (rule request_doneI [OF conjunct1 [OF srv.HandleRequestPlayerData_malformed [OF rel c len]]]) (auto intro: auth_start)
next
  case (Some u)
  then show ?thesis
    by (rule request_doneI [OF conjunct1 [OF srv.HandleRequestPlayerData_sim [OF rel c len]]]) (auto intro: auth_start)
qed

lemma logout_done:
  assumes rel: "auth_rel (view (sv_db s)) a" and c: "sv_clients s r = Some c"
    and sess: "sessions a (cs_token c) \<noteq> None" and len: "0 \<le> len"
  shows "request_done view s r c a (HandleRequestLogout pb (RedisService R) ClientSocket_IClient r data len s)"
proof (cases "parse_logout pb (take (nat len) data)")
  case None
  from srv.HandleRequestLogout_malformed [OF rel len None] show ?thesis
    by (intro request_doneI [where c' = c and a' = a]) (auto intro: auth_start simp: c fun_upd_idem)
next
  case (Some u)
  show ?thesis
    using auth_step [of "Logout (cs_token c)"] sess dom_sessions_logout [of "cs_token c" a]
    by (intro request_doneI [OF srv.HandleRequestLogout_sim [OF rel c len Some]]) simp_all
qed

lemma run_packet_handler_done:
  assumes rel: "auth_rel (view (sv_db s)) a" and c: "sv_clients s r = Some c"
    and sess: "sessions a (cs_token c) \<noteq> None" and len: "0 \<le> len"
    and h: "h \<in> {OnLogin r, OnRegister r, OnPlayerData r, OnLogout r}"
  shows "request_done view s r c a
    (run_packet_handler pb (RedisService R) ClientSocket_IClient h data len s)"
  using h login_done [OF rel c sess len] register_done [OF rel c len] player_data_done [OF rel c len]
    logout_done [OF rel c sess len]
  by (auto simp: run_packet_handler_alive [OF c] simp del: run_packet_handler.simps)

end

section \<open>Reads\<close>

text \<open>
  A read on a connected client either keeps the connection, with the next read outstanding, or ends
  it: the client leaves the table and the abstract session is gone. It leaves at most \<open>k\<close> writes
  outstanding: one more than before, and none more when the connection ends.
\<close>

definition read_done ::
  "protobuf \<Rightarrow> ('d \<Rightarrow> view) \<Rightarrow> ('d, socket) Server \<Rightarrow> nat \<Rightarrow> token \<Rightarrow> auth \<Rightarrow> nat
     \<Rightarrow> (fault + unit) \<times> ('d, socket) Server \<Rightarrow> bool" where
  "read_done pb view s r t a k res \<longleftrightarrow>
     (\<exists>a' d c' conn'. res = (Inr (), s\<lparr>sv_connectedClients := conn', sv_db := d, sv_clients := (sv_clients s)(r \<mapsto> c')\<rparr>)
        \<and> auth_rel (view d) a' \<and> auth_path a a' \<and> length (cs_writing c') \<le> k
        \<and> (conn' = sv_connectedClients s \<and> conn_ok pb r t c' \<and> cs_reading c' = 1
              \<and> dom (sessions a') = dom (sessions a)
           \<or> conn' = map_erase t (sv_connectedClients s) \<and> cs_token c' = t \<and> cs_reading c' = 0
              \<and> dom (sessions a') = dom (sessions a) - {t}))"

lemma read_done_kept:
  assumes "res = (Inr (), s\<lparr>sv_db := d, sv_clients := (sv_clients s)(r \<mapsto> c')\<rparr>)"
    and "auth_rel (view d) a'" "auth_path a a'" "conn_ok pb r t c'" "cs_reading c' = 1"
    and "dom (sessions a') = dom (sessions a)" "length (cs_writing c') \<le> k"
  shows "read_done pb view s r t a k res"
  unfolding read_done_def
  by (rule exI [of _ a'], rule exI [of _ d], rule exI [of _ c'], rule exI [of _ "sv_connectedClients s"])
    (simp add: assms)

lemma read_done_ended:
  assumes "res = (Inr (), s\<lparr>sv_connectedClients := map_erase t (sv_connectedClients s), sv_db := d,
      sv_clients := (sv_clients s)(r \<mapsto> c')\<rparr>)"
    and "auth_rel (view d) a'" "auth_path a a'" "cs_token c' = t" "cs_reading c' = 0"
    and "dom (sessions a') = dom (sessions a) - {t}" "length (cs_writing c') \<le> k"
  shows "read_done pb view s r t a k res"
  unfolding read_done_def
  by (rule exI [of _ a'], rule exI [of _ d], rule exI [of _ c'],
      rule exI [of _ "map_erase t (sv_connectedClients s)"]) (simp add: assms)

definition received_into :: "socket \<Rightarrow> byte list \<Rightarrow> byte list \<Rightarrow> socket" where
  "received_into c b received = c\<lparr>cs_reading := 0, cs_recvBuffer := Some (fill_buffer b received)\<rparr>"

lemma writes_received_into [simp]: "cs_writing (received_into c b received) = cs_writing c"
  by (simp add: received_into_def)

lemma seqM_ret_unit [simp]: "seqM m (ret ()) = m"
  by (rule ext) (auto simp: seqM_def bindM_def ret_def prod_eq_iff split: sum.split)

lemma seqM_run: "fst (m s) = Inr x \<Longrightarrow> seqM m k s = k (snd (m s))"
  by (simp add: seqM_def bindM_def)

lemma dom_sessions_disconnect: "dom (sessions (auth_disconnect t a)) = dom (sessions a) - {t}"
  using dom_sessions_logout [of t a] by (auto simp: auth_disconnect_def Let_def)

lemma conn_ok_received:
  assumes "conn_ok pb r t c" "cs_recvBuffer c = Some b" "length received \<le> RECV_BUFFER_SIZE"
  shows "conn_ok pb r t (received_into c b received)"
  using assms by (auto simp: conn_ok_def received_into_def fill_buffer_def)

lemma conn_ok_ReadAsync: "conn_ok pb r t (ReadAsync c) = conn_ok pb r t c"
  by (simp add: conn_ok_def ReadAsync_def)

text \<open>The first step of the completion handler.\<close>

lemma on_read_received:
  assumes "sv_clients s r = Some c" "cs_reading c = 1" "cs_recvBuffer c = Some b"
  shows "on_read pb rs r ec received s =
    (let c1 = received_into c b received; s1 = s\<lparr>sv_clients := (sv_clients s)(r \<mapsto> c1)\<rparr> in
     if received = [] \<or> ec \<noteq> None then handle_error rs r s1
     else case decode_packet (fill_buffer b received) (length received) of
            None \<Rightarrow> (Inr (), s1\<lparr>sv_clients := (sv_clients s)(r \<mapsto> ReadAsync c1)\<rparr>)
          | Some (type, data, len) \<Rightarrow> seqM (handle_packet pb rs r type data len) (client_do r ReadAsync) s1)"
  unfolding on_read_def using assms
  by (auto simp: seqM_run bindM_run Let_def received_into_def prod_eq_iff split: option.split)

lemma handle_packet_calls:
  assumes "sv_clients s r = Some c" "conn_ok pb r t c" "pb_ok pb"
  shows "handle_packet pb rs r type data len s =
    (case map_find type (packet_table pb r) of
       None \<Rightarrow> (Inr (), s)
     | Some h \<Rightarrow> run_packet_handler pb rs ClientSocket_IClient h data len s)"
  using assms packet_table_disconnected [OF assms(3), of r]
  by (auto simp: handle_packet_def bindM_run HandlePacket_def conn_ok_def ret_apply split: option.split)

context redis_live
begin

lemma on_read_error:
  assumes rel: "auth_rel (view (sv_db s)) a" and c: "sv_clients s r = Some c" "cs_reading c = 1"
    and ok: "conn_ok pb r t c" and sess: "sessions a t \<noteq> None" and err: "received = [] \<or> ec \<noteq> None"
  shows "read_done pb view s r t a (length (cs_writing c)) (on_read pb (RedisService R) r ec received s)"
proof -
  obtain b where b: "cs_recvBuffer c = Some b" using ok by (auto simp: conn_ok_def)
  have t: "cs_token c = t" by (rule conn_ok_token [OF ok])
  let ?c1 = "received_into c b received"
  let ?s1 = "s\<lparr>sv_clients := (sv_clients s)(r \<mapsto> ?c1)\<rparr>"
  have eq: "on_read pb (RedisService R) r ec received s
      = run_error_handler (RedisService R) ClientSocket_IClient (OnDisconnected r) ?s1"
    using on_read_received [OF c b] err ok
    by (simp add: handle_error_def bindM_run HandleError_def conn_ok_def received_into_def
        del: run_error_handler.simps)
  have "handled view (?s1\<lparr>sv_connectedClients := map_erase t (sv_connectedClients ?s1)\<rparr>)
      ((sv_clients ?s1)(r \<mapsto> Stop ClientSocket_IClient (after_logout ClientSocket_IClient a ?c1)))
      (auth_disconnect t a) (on_read pb (RedisService R) r ec received s)"
    unfolding eq using srv.run_error_handler_sim [of ?s1 a r ?c1] rel t by (simp add: received_into_def)
  then obtain d where res: "on_read pb (RedisService R) r ec received s
      = (Inr (), s\<lparr>sv_connectedClients := map_erase t (sv_connectedClients s), sv_db := d,
          sv_clients := (sv_clients s)(r \<mapsto> Stop ClientSocket_IClient (after_logout ClientSocket_IClient a ?c1))\<rparr>)"
    and rel': "auth_rel (view d) (auth_disconnect t a)"
    by (auto elim!: handledE)
  have path: "auth_path a (auth_disconnect t a)"
    using auth_more [OF auth_start, of "Disconnect t" a] sess by simp
  have "same_conn ?c1 (Stop ClientSocket_IClient (after_logout ClientSocket_IClient a ?c1))" by simp
  then have "cs_token (Stop ClientSocket_IClient (after_logout ClientSocket_IClient a ?c1)) = t"
    "cs_reading (Stop ClientSocket_IClient (after_logout ClientSocket_IClient a ?c1)) = 0"
    using t by (simp_all add: same_conn_def received_into_def)
  then show ?thesis
    using read_done_ended [OF res, of view "auth_disconnect t a" a] rel' path dom_sessions_disconnect [of t a] by simp
qed

lemma on_read_request:
  assumes rel: "auth_rel (view (sv_db s)) a" and c: "sv_clients s r = Some c" "cs_reading c = 1"
    and ok: "conn_ok pb r t c" and sess: "sessions a t \<noteq> None"
    and recv: "received \<noteq> []" "ec = None" "length received \<le> RECV_BUFFER_SIZE"
    and b: "cs_recvBuffer c = Some b" and pb: "pb_ok pb"
    and dec: "decode_packet (fill_buffer b received) (length received) = Some (type, data, len)" "0 \<le> len"
  shows "read_done pb view s r t a (Suc (length (cs_writing c))) (on_read pb (RedisService R) r ec received s)"
proof -
  let ?c1 = "received_into c b received"
  let ?s1 = "s\<lparr>sv_clients := (sv_clients s)(r \<mapsto> ?c1)\<rparr>"
  have ok1: "conn_ok pb r t ?c1" by (rule conn_ok_received [OF ok b recv(3)])
  note t = conn_ok_token [OF ok1]
  have eq: "on_read pb (RedisService R) r ec received s
      = seqM (handle_packet pb (RedisService R) r type data len) (client_do r ReadAsync) ?s1"
    using on_read_received [OF c b] recv(1,2) dec(1) by simp
  have "request_done view ?s1 r ?c1 a (handle_packet pb (RedisService R) r type data len ?s1)"
  proof (cases "map_find type (packet_table pb r)")
    case None
    then show ?thesis using rel handle_packet_calls [of ?s1 r ?c1 pb t] ok1 pb
      by (intro request_doneI [where c' = ?c1 and a' = a])
        (simp_all add: handled_def auth_start)
  next
    case (Some h)
    then show ?thesis
      using handle_packet_calls [of ?s1 r ?c1 pb t] ok1 pb rel t sess dec(2) packet_table_find [OF Some]
      by (simp add: run_packet_handler_done del: run_packet_handler.simps)
  qed
  then obtain a' c2 where h: "handled view ?s1 ((sv_clients ?s1)(r \<mapsto> c2)) a'
        (handle_packet pb (RedisService R) r type data len ?s1)"
    and c2: "same_conn ?c1 c2" and a': "auth_path a a'" "dom (sessions a') = dom (sessions a)"
    and k: "length (cs_writing c2) \<le> Suc (length (cs_writing ?c1))"
    unfolding request_done_def by blast
  from h obtain u d where res: "handle_packet pb (RedisService R) r type data len ?s1
      = (Inr u, s\<lparr>sv_db := d, sv_clients := (sv_clients s)(r \<mapsto> c2)\<rparr>)" and rel': "auth_rel (view d) a'"
    by (auto elim!: handledE)
  have read: "on_read pb (RedisService R) r ec received s
      = (Inr (), s\<lparr>sv_db := d, sv_clients := (sv_clients s)(r \<mapsto> ReadAsync c2)\<rparr>)"
    unfolding eq using res by (simp add: seqM_run prod_eq_iff)
  have "cs_reading (ReadAsync c2) = 1"
    using c2 by (simp add: same_conn_def received_into_def ReadAsync_def)
  moreover have "conn_ok pb r t (ReadAsync c2)"
    using ok1 same_conn_ok [OF c2] by (simp add: conn_ok_ReadAsync)
  ultimately show ?thesis using read_done_kept [OF read, of view a' a pb t] rel' a' k by simp
qed

lemma on_read_skip:
  assumes rel: "auth_rel (view (sv_db s)) a" and c: "sv_clients s r = Some c" "cs_reading c = 1"
    and ok: "conn_ok pb r t c"
    and recv: "received \<noteq> []" "ec = None" "length received \<le> RECV_BUFFER_SIZE"
    and b: "cs_recvBuffer c = Some b"
    and dec: "decode_packet (fill_buffer b received) (length received) = None"
  shows "read_done pb view s r t a (Suc (length (cs_writing c))) (on_read pb (RedisService R) r ec received s)"
proof -
  let ?c1 = "received_into c b received"
  have read: "on_read pb (RedisService R) r ec received s
      = (Inr (), s\<lparr>sv_db := sv_db s, sv_clients := (sv_clients s)(r \<mapsto> ReadAsync ?c1)\<rparr>)"
    using on_read_received [OF c b] recv(1,2) dec by simp
  have "conn_ok pb r t (ReadAsync ?c1)"
    using conn_ok_received [OF ok b recv(3)] by (simp add: conn_ok_ReadAsync)
  moreover have "cs_reading (ReadAsync ?c1) = 1" by (simp add: received_into_def ReadAsync_def)
  ultimately show ?thesis using read_done_kept [OF read, of view a a pb t] rel auth_start by simp
qed

end

lemma decode_length:
  assumes "decode_packet buffer n = Some (type, data, len)" "12 \<le> n" "n \<le> RECV_BUFFER_SIZE"
  shows "len = int n - 12"
  using assms payload_length [of n] by (auto simp: decode_packet_def Let_def RECV_BUFFER_SIZE_def split: if_splits)

lemma on_read_negative:
  assumes c: "sv_clients s r = Some c" "cs_reading c = 1" and ok: "conn_ok pb r t c" and pb: "pb_ok pb"
    and recv: "received \<noteq> []" "ec = None" "length received \<le> RECV_BUFFER_SIZE" and b: "cs_recvBuffer c = Some b"
    and dec: "decode_packet (fill_buffer b received) (length received) = Some (type, data, len)" "len < 0"
    and h: "map_find type (packet_table pb r) \<noteq> None"
  shows "fst (on_read pb rs r ec received s) = Inl (Undefined ''ParseFromArray of a negative length'')"
proof -
  let ?c1 = "received_into c b received"
  let ?s1 = "s\<lparr>sv_clients := (sv_clients s)(r \<mapsto> ?c1)\<rparr>"
  have ok1: "conn_ok pb r t ?c1" by (rule conn_ok_received [OF ok b recv(3)])
  obtain h' where h': "map_find type (packet_table pb r) = Some h'" using h by blast
  have "handle_packet pb rs r type data len ?s1
      = (Inl (Undefined ''ParseFromArray of a negative length''), ?s1)"
    using handle_packet_calls [of ?s1 r ?c1 pb t] ok1 pb h'
      run_packet_handler_negative [OF dec(2) packet_table_find [OF h'], of ?s1 ?c1]
    by (simp del: run_packet_handler.simps)
  then show ?thesis
    using on_read_received [OF c b] recv(1,2) dec(1) by (simp add: seqM_def bindM_def)
qed

lemma on_read_unknown:
  assumes c: "sv_clients s r = Some c" "cs_reading c = 1" and ok: "conn_ok pb r t c" and pb: "pb_ok pb"
    and recv: "received \<noteq> []" "ec = None" "length received \<le> RECV_BUFFER_SIZE" and b: "cs_recvBuffer c = Some b"
    and dec: "decode_packet (fill_buffer b received) (length received) = Some (type, data, len)"
    and h: "map_find type (packet_table pb r) = None"
  shows "on_read pb rs r ec received s
    = (Inr (), s\<lparr>sv_db := sv_db s, sv_clients := (sv_clients s)(r \<mapsto> ReadAsync (received_into c b received))\<rparr>)"
proof -
  let ?c1 = "received_into c b received"
  let ?s1 = "s\<lparr>sv_clients := (sv_clients s)(r \<mapsto> ?c1)\<rparr>"
  have "handle_packet pb rs r type data len ?s1 = (Inr (), ?s1)"
    using handle_packet_calls [of ?s1 r ?c1 pb t] conn_ok_received [OF ok b recv(3)] pb h by simp
  then show ?thesis
    using on_read_received [OF c b] recv(1,2) dec by (simp add: seqM_run prod_eq_iff)
qed

text \<open>Every read: it faults exactly when a request of negative length reaches a handler.\<close>

context redis_live
begin

lemma on_read_done:
  assumes rel: "auth_rel (view (sv_db s)) a" and c: "sv_clients s r = Some c" "cs_reading c = 1"
    and ok: "conn_ok pb r t c" and sess: "sessions a t \<noteq> None" and pb: "pb_ok pb"
    and recv: "length received \<le> RECV_BUFFER_SIZE"
    and fine: "fst (on_read pb (RedisService R) r ec received s) = Inr ()
      \<or> received = [] \<or> ec \<noteq> None \<or> 12 \<le> length received"
  shows "read_done pb view s r t a
    (if received = [] \<or> ec \<noteq> None then length (cs_writing c) else Suc (length (cs_writing c)))
    (on_read pb (RedisService R) r ec received s)"
proof (cases "received = [] \<or> ec \<noteq> None")
  case True
  with on_read_error [OF rel c ok sess True] show ?thesis by simp
next
  case False
  then have recv': "received \<noteq> []" "ec = None" by simp_all
  obtain b where b: "cs_recvBuffer c = Some b" using ok by (auto simp: conn_ok_def)
  show ?thesis
  proof (cases "decode_packet (fill_buffer b received) (length received)")
    case None
    with on_read_skip [OF rel c ok recv' recv b None] recv' show ?thesis by simp
  next
    case (Some p)
    obtain type data len where p: "p = (type, data, len)" by (cases p)
    note dec = Some [unfolded p]
    show ?thesis
    proof (cases "map_find type (packet_table pb r)")
      case None
      have "cs_reading (ReadAsync (received_into c b received)) = 1"
        by (simp add: received_into_def ReadAsync_def)
      then show ?thesis
        using read_done_kept [OF on_read_unknown [OF c ok pb recv' recv b dec None], of view a a pb t]
          rel auth_start conn_ok_received [OF ok b recv] recv' by (simp add: conn_ok_ReadAsync)
    next
      case (Some h)
      have "0 \<le> len"
      proof (rule ccontr)
        assume "\<not> 0 \<le> len"
        then have "len < 0" by simp
        with on_read_negative [OF c ok pb recv' recv b dec] Some decode_length [OF dec _ recv] fine recv'
        show False by fastforce
      qed
      with on_read_request [OF rel c ok sess recv' recv b pb dec] recv' show ?thesis by simp
    qed
  qed
qed

end

section \<open>The system\<close>

definition sys_inv :: "protobuf \<Rightarrow> ('d \<Rightarrow> view) \<Rightarrow> 'd world \<Rightarrow> auth \<Rightarrow> bool" where
  "sys_inv pb view w a \<longleftrightarrow>
     auth_rel (view (sv_db (w_server w))) a
     \<and> objects_ok pb (sv_clients (w_server w)) (sv_connectedClients (w_server w)) (used (w_pool w)) (w_next w)
     \<and> dom (sessions a) = {t. map_find t (sv_connectedClients (w_server w)) \<noteq> None}"

definition one_write :: "'d world \<Rightarrow> bool" where
  "one_write w \<longleftrightarrow> (\<forall>r c. sv_clients (w_server w) r = Some c \<longrightarrow> length (cs_writing c) \<le> 1)"

lemma one_write_update:
  assumes "one_write w" "sv_clients s = (sv_clients (w_server w))(r \<mapsto> c)" "length (cs_writing c) \<le> 1"
  shows "one_write (w'\<lparr>w_server := s\<rparr>)"
  using assms by (simp add: one_write_def)

text \<open>Events in which no system call of the accept path fails and no read is shorter than a header.\<close>

fun orderly :: "sys_event \<Rightarrow> bool" where
  "orderly (AcceptEv r fill ds) \<longleftrightarrow> acc_error r \<noteq> None \<or> acc_endpoint_error r = None \<and> acc_option_error r = None"
| "orderly (ReadEv r ec received) \<longleftrightarrow> received = [] \<or> ec \<noteq> None \<or> 12 \<le> length received"
| "orderly _ \<longleftrightarrow> True"

lemma ctor_some:
  assumes "\<not> set (draws p) \<subseteq> used p"
  obtains c p' where "ClientSocket_ctor fill p = Some (c, p')" "cs_token c \<in> set (draws p) - used p"
    "used p' = insert (cs_token c) (used p)" "cs_packetHandler c = []" "cs_disconnectHandler c = []"
    "cs_reading c = 0" "cs_alloc c = fill" "cs_writing c = []"
proof -
  obtain t p' where a: "allocate p = Some (t, p')"
    using assms allocate_loop_None_iff [of "draws p" "used p"]
    by (cases "allocate p") (auto simp: allocate_def split: option.splits)
  show thesis
    using that tp.alloc_new [OF a] tp.alloc_live [OF a] a
    by (auto simp: ClientSocket_ctor_def allocate_def split: option.splits dest!: allocate_loop_Some)
qed

lemma conn_ok_with_handlers:
  assumes "cs_packetHandler c = []" "cs_disconnectHandler c = []" "cs_reading c = 0"
    and "length (cs_alloc c) = RECV_BUFFER_SIZE"
  shows "conn_ok pb r (cs_token c) (with_handlers pb ClientSocket_IClient r (snd (Init ClientSocket_IClient c)))"
    "cs_reading (with_handlers pb ClientSocket_IClient r (snd (Init ClientSocket_IClient c))) = 1"
  unfolding with_handlers_def using assms
  by (simp_all add: conn_ok_def packet_table_def ClientSocket_defs del: map_put.simps(2))

lemma writes_with_handlers:
  "cs_writing (with_handlers pb ClientSocket_IClient r (snd (Init ClientSocket_IClient c))) = cs_writing c"
  by (simp add: with_handlers_def)

text \<open>With at most one write outstanding, its completion releases nothing that is in use.\<close>

lemma on_write_one:
  assumes "length (cs_writing c) \<le> 1"
  shows "fst (on_write ec c) = Inr ()" "length (cs_writing (snd (on_write ec c))) \<le> 1"
  using assms by (cases "cs_writing c"; auto simp: on_write_def dangling_def PopFrontWriteBuffer_def
      WriteAsync_def Let_def split: option.split list.split)+

lemma write_completed_run:
  assumes "sv_clients s r = Some c"
  shows "write_completed r ec s = (fst (on_write ec c), s\<lparr>sv_clients := (sv_clients s)(r \<mapsto> snd (on_write ec c))\<rparr>)"
  using assms
  by (simp add: write_completed_def bindM_def client_call_def raise_def ret_def Let_def split: sum.split prod.split)

lemma connected_token_used:
  "objects_ok pb heap conn us n \<Longrightarrow> map_find t conn = Some r \<Longrightarrow> t \<in> us"
  using objects_okD(2) [of pb heap conn us n t r] objects_okD(3) conn_ok_token by metis

context redis_live
begin

lemma add_connection_inv:
  assumes inv: "sys_inv pb view w a" and new: "\<not> set (draws (w_pool w)) \<subseteq> used (w_pool w)"
    and fill: "length fill = RECV_BUFFER_SIZE"
  shows "\<exists>w' t c. add_connection pb (RedisService R) fill w = (Inr (), w') \<and> t \<in> set (draws (w_pool w))
    \<and> sys_inv pb view w' (auth_connect t a) \<and> auth_path a (auth_connect t a) \<and> (one_write w \<longrightarrow> one_write w')
    \<and> map_find t (sv_connectedClients (w_server w')) = Some (w_next w)
    \<and> sv_clients (w_server w') (w_next w) = Some c \<and> cs_writing c = [] \<and> cs_reading c = 1"
proof -
  obtain c :: socket and p' where c: "ClientSocket_ctor fill (w_pool w) = Some (c, p')"
    "cs_token c \<in> set (draws (w_pool w)) - used (w_pool w)"
    "used p' = insert (cs_token c) (used (w_pool w))" "cs_packetHandler c = []" "cs_disconnectHandler c = []"
    "cs_reading c = 0" "cs_alloc c = fill" "cs_writing c = []"
    by (rule ctor_some [OF new])
  let ?s = "w_server w" and ?r = "w_next w" and ?t = "cs_token c"
  let ?s1 = "?s\<lparr>sv_clients := (sv_clients ?s)(?r \<mapsto> c)\<rparr>"
  let ?c' = "with_handlers pb ClientSocket_IClient ?r (snd (Init ClientSocket_IClient c))"
  have ok: "objects_ok pb (sv_clients ?s) (sv_connectedClients ?s) (used (w_pool w)) ?r"
    and rel: "auth_rel (view (sv_db ?s1)) a"
    and dom: "dom (sessions a) = {t. map_find t (sv_connectedClients ?s) \<noteq> None}"
    using inv by (simp_all add: sys_inv_def)
  have unconn: "map_find ?t (sv_connectedClients ?s) = None"
    using connected_token_used [OF ok, of ?t] c(2) by (cases "map_find ?t (sv_connectedClients ?s)") auto
  have none: "sessions a ?t = None" using dom unconn by blast
  note c' = conn_ok_with_handlers [OF c(4-6), where pb = pb and r = ?r]
  have "handled view (?s1\<lparr>sv_connectedClients := map_put ?t ?r (sv_connectedClients ?s)\<rparr>)
      ((sv_clients ?s)(?r \<mapsto> ?c')) (auth_connect ?t a) (AddClient pb (RedisService R) ClientSocket_IClient ?r ?s1)"
    using srv.AddClient_sim [OF rel, of ?r c] none by simp
  then obtain x d where add: "AddClient pb (RedisService R) ClientSocket_IClient ?r ?s1
      = (Inr x, ?s1\<lparr>sv_connectedClients := map_put ?t ?r (sv_connectedClients ?s), sv_db := d,
          sv_clients := (sv_clients ?s)(?r \<mapsto> ?c')\<rparr>)" and rel': "auth_rel (view d) (auth_connect ?t a)"
    by (rule handledE)
  let ?w' = "w\<lparr>w_server := ?s1\<lparr>sv_connectedClients := map_put ?t ?r (sv_connectedClients ?s), sv_db := d,
      sv_clients := (sv_clients ?s)(?r \<mapsto> ?c')\<rparr>, w_pool := p', w_next := Suc ?r\<rparr>"
  have "add_connection pb (RedisService R) fill w = (Inr (), ?w')"
    by (simp add: add_connection_def c(1) Let_def seqM_run on_server_def add prod_eq_iff)
  moreover have "objects_ok pb ((sv_clients ?s)(?r \<mapsto> ?c')) (map_put ?t ?r (sv_connectedClients ?s)) (used p') (Suc ?r)"
    unfolding c(3) using objects_accept [OF ok] c(2) c' fill c(7) by simp
  moreover have "dom (sessions (auth_connect ?t a))
      = {t. map_find t (map_put ?t ?r (sv_connectedClients ?s)) \<noteq> None}"
    using dom objects_okD(1) [OF ok] by (auto simp: auth_connect_def)
  moreover have "auth_path a (auth_connect ?t a)"
    using auth_more [OF auth_start, of "Connect ?t" a] none by simp
  moreover have "one_write w \<longrightarrow> one_write ?w'" by (simp add: one_write_def writes_with_handlers c(8))
  moreover have "cs_writing ?c' = [] \<and> cs_reading ?c' = 1" using c' fill c(7,8) by (simp add: writes_with_handlers)
  ultimately show ?thesis using rel' c(2) objects_okD(1) [OF ok]
    by (intro exI [of _ ?w'] exI [of _ ?t] exI [of _ ?c']) (simp add: sys_inv_def)
qed

lemma read_inv:
  assumes inv: "sys_inv pb view w a" and pb: "pb_ok pb" and en: "enabled (ReadEv r ec received) (ac, w)"
    and fine: "fst (on_read pb (RedisService R) r ec received (w_server w)) = Inr () \<or> orderly (ReadEv r ec received)"
  shows "\<exists>s' a'. on_read pb (RedisService R) r ec received (w_server w) = (Inr (), s')
    \<and> sys_inv pb view (w\<lparr>w_server := s'\<rparr>) a' \<and> auth_path a a'
    \<and> (polite (ReadEv r ec received) (ac, w) \<and> one_write w \<longrightarrow> one_write (w\<lparr>w_server := s'\<rparr>))"
proof -
  let ?s = "w_server w"
  have ok: "objects_ok pb (sv_clients ?s) (sv_connectedClients ?s) (used (w_pool w)) (w_next w)"
    and rel: "auth_rel (view (sv_db ?s)) a"
    and dom: "dom (sessions a) = {t. map_find t (sv_connectedClients ?s) \<noteq> None}"
    using inv by (simp_all add: sys_inv_def)
  obtain c where c: "sv_clients ?s r = Some c" "0 < cs_reading c" and recv: "length received \<le> RECV_BUFFER_SIZE"
    using en by (auto split: option.splits)
  let ?t = "cs_token c"
  have conn: "map_find ?t (sv_connectedClients ?s) = Some r" using objects_okD(5) [OF ok c(1)] c(2) by auto
  then have c1: "conn_ok pb r ?t c" "cs_reading c = 1" using objects_okD(2) [OF ok conn] c(1) by auto
  have sess: "sessions a ?t \<noteq> None" using dom conn by blast
  let ?k = "if received = [] \<or> ec \<noteq> None then length (cs_writing c) else Suc (length (cs_writing c))"
  have "read_done pb view ?s r ?t a ?k (on_read pb (RedisService R) r ec received ?s)"
    using fine by (intro on_read_done [OF rel c(1) c1(2,1) sess pb recv]) auto
  then obtain a' d c' conn' where res: "on_read pb (RedisService R) r ec received ?s
      = (Inr (), ?s\<lparr>sv_connectedClients := conn', sv_db := d, sv_clients := (sv_clients ?s)(r \<mapsto> c')\<rparr>)"
    and rel': "auth_rel (view d) a'" and path: "auth_path a a'" and k: "length (cs_writing c') \<le> ?k"
    and "conn' = sv_connectedClients ?s \<and> conn_ok pb r ?t c' \<and> cs_reading c' = 1 \<and> dom (sessions a') = dom (sessions a)
      \<or> conn' = map_erase ?t (sv_connectedClients ?s) \<and> cs_token c' = ?t \<and> cs_reading c' = 0
        \<and> dom (sessions a') = dom (sessions a) - {?t}"
    unfolding read_done_def by blast
  then have "objects_ok pb ((sv_clients ?s)(r \<mapsto> c')) conn' (used (w_pool w)) (w_next w)
      \<and> dom (sessions a') = {t. map_find t conn' \<noteq> None}"
    using objects_update [OF ok conn] objects_disconnect [OF ok c(1)] dom
      map_erase_keys [OF objects_okD(1) [OF ok], of ?t] by (elim disjE) simp_all
  then have "sys_inv pb view (w\<lparr>w_server := ?s\<lparr>sv_connectedClients := conn', sv_db := d,
      sv_clients := (sv_clients ?s)(r \<mapsto> c')\<rparr>\<rparr>) a'"
    using rel' by (simp add: sys_inv_def)
  moreover have "length (cs_writing c') \<le> 1" if "polite (ReadEv r ec received) (ac, w)" "one_write w"
  proof -
    have "length (cs_writing c) \<le> 1" using that(2) c(1) by (simp add: one_write_def)
    with that(1) k c(1) show ?thesis by (auto split: if_splits)
  qed
  then have "polite (ReadEv r ec received) (ac, w) \<and> one_write w \<longrightarrow>
      one_write (w\<lparr>w_server := ?s\<lparr>sv_connectedClients := conn', sv_db := d, sv_clients := (sv_clients ?s)(r \<mapsto> c')\<rparr>\<rparr>)"
    by (auto intro: one_write_update)
  ultimately show ?thesis unfolding res using path by blast
qed

lemma sys_next_inv:
  assumes inv: "sys_inv pb view w a" and pb: "pb_ok pb" and en: "enabled ev (ac, w)"
    and run: "sys_next pb (RedisService R) ev (ac, w) = (y, (ac', w'))" 
    and fine: "y = Inr () \<or> orderly ev \<and> polite ev (ac, w) \<and> one_write w"
  shows "y = Inr () \<and> (\<exists>a'. sys_inv pb view w' a' \<and> auth_path a a')
    \<and> (polite ev (ac, w) \<and> one_write w \<longrightarrow> one_write w')"
proof (cases ev)
  case (AcceptEv r fill ds)
  let ?w = "w\<lparr>w_pool := (w_pool w)\<lparr>draws := ds\<rparr>\<rparr>"
  have inv': "sys_inv pb view ?w a" using inv by (simp add: sys_inv_def)
  obtain w2 t where "add_connection pb (RedisService R) fill ?w = (Inr (), w2)"
    "sys_inv pb view w2 (auth_connect t a)" "auth_path a (auth_connect t a)" "one_write ?w \<longrightarrow> one_write w2"
    using add_connection_inv [OF inv', of fill] en AcceptEv by auto
  with AcceptEv run fine inv' show ?thesis
    by (auto simp: on_accept_def beside_def one_write_def Let_def intro: auth_start split: if_splits option.splits)
next
  case (ReadEv r ec received)
  let ?res = "on_read pb (RedisService R) r ec received (w_server w)"
  have y: "y = fst ?res" and w': "w' = w\<lparr>w_server := snd ?res\<rparr>"
    using run ReadEv by (simp_all add: on_server_def)
  have fine': "fst ?res = Inr () \<or> orderly (ReadEv r ec received)" using fine y ReadEv by auto
  obtain s' a' where "?res = (Inr (), s')" "sys_inv pb view (w\<lparr>w_server := s'\<rparr>) a'" "auth_path a a'"
    "polite ev (ac, w) \<and> one_write w \<longrightarrow> one_write (w\<lparr>w_server := s'\<rparr>)"
    unfolding ReadEv using read_inv [OF inv pb en [unfolded ReadEv] fine'] by (elim exE conjE) blast
  then show ?thesis using y w' by auto
next
  case (WriteEv r ec)
  have ok: "objects_ok pb (sv_clients (w_server w)) (sv_connectedClients (w_server w)) (used (w_pool w)) (w_next w)"
    using inv by (simp add: sys_inv_def)
  from WriteEv en obtain c where c: "sv_clients (w_server w) r = Some c" by (auto split: option.splits)
  let ?s' = "(w_server w)\<lparr>sv_clients := (sv_clients (w_server w))(r \<mapsto> snd (on_write ec c))\<rparr>"
  have y: "y = fst (on_write ec c)" and w': "w' = w\<lparr>w_server := ?s'\<rparr>"
    using WriteEv run write_completed_run [OF c, of ec] by (auto simp: on_server_def)
  have one: "length (cs_writing c) \<le> 1" if "one_write w" using that c by (simp add: one_write_def)
  have "same_conn c (snd (on_write ec c))" by simp
  then have "sys_inv pb view w' a"
    unfolding w' using inv objects_same [OF ok c] by (simp add: sys_inv_def)
  moreover have "y = Inr ()" using fine one on_write_one(1) y by auto
  moreover have "one_write w'" if "one_write w"
    unfolding w' using that on_write_one(2) [OF one [OF that]] by (intro one_write_update) simp_all
  ultimately show ?thesis using auth_start by blast
next
  case (DestroyEv r)
  have ok: "objects_ok pb (sv_clients (w_server w)) (sv_connectedClients (w_server w)) (used (w_pool w)) (w_next w)"
    using inv by (simp add: sys_inv_def)
  from DestroyEv en obtain c where c: "sv_clients (w_server w) r = Some c" "r \<notin> snd ` set (sv_connectedClients (w_server w))"
    by (auto split: option.splits)
  then have "sys_inv pb view (destroy r w) a"
    using inv objects_destroy [OF ok c]
    by (simp add: sys_inv_def destroy_def ClientSocket_dtor_def release_def)
  moreover have "one_write w \<longrightarrow> one_write (destroy r w)" using c(1) by (simp add: one_write_def destroy_def)
  ultimately show ?thesis using DestroyEv run by (auto intro: auth_start)
next
  case (ClockEv t)
  have "sys_inv pb view (w\<lparr>w_server := (w_server w)\<lparr>sv_clock := t\<rparr>\<rparr>) a" using inv by (simp add: sys_inv_def)
  moreover have "one_write w \<longrightarrow> one_write (w\<lparr>w_server := (w_server w)\<lparr>sv_clock := t\<rparr>\<rparr>)" by (simp add: one_write_def)
  ultimately show ?thesis using ClockEv run by (auto intro: auth_start)
qed

lemma sys_init_no_sessions:
  assumes "sys_init view (ac, w)"
  shows "view (sv_db (w_server w)) (client_key t) = None" "view (sv_db (w_server w)) (logined_key i) = None"
  using assms auth_reads(6,9) [of "view (sv_db (w_server w))"]
  by (auto simp: sys_init_def Let_def no_sessions_def)

lemma sys_init_inv: "sys_init view (ac, w) \<Longrightarrow> \<exists>a. sys_inv pb view w a \<and> no_sessions a"
  by (fastforce simp: sys_init_def Let_def sys_inv_def objects_ok_def no_sessions_def)

lemma reachable_path:
  assumes "reachable pb (RedisService R) x x'" and "pb_ok pb" and "sys_inv pb view (snd x) a"
  shows "\<exists>a'. auth_path a a' \<and> sys_inv pb view (snd x') a'"
  using assms(1)
proof (induction rule: reachable.induct)
  case reach_init
  then show ?case using assms(3) auth_start by blast
next
  case (reach_step y ev y')
  then obtain b where b: "auth_path a b" "sys_inv pb view (snd y) b" by blast
  obtain ac w ac' w' where y: "y = (ac, w)" "y' = (ac', w')" by (cases y, cases y') auto
  with b(2) have inv: "sys_inv pb view w b" by simp
  obtain a' where "sys_inv pb view w' a'" "auth_path b a'"
    using sys_next_inv [OF inv assms(2)] reach_step y by blast
  with b(1) y(2) auth_path_trans show ?case by (metis snd_conv)
qed

lemma reachable_inv:
  assumes "reachable pb (RedisService R) x0 x" and "sys_init view x0" and "pb_ok pb"
  shows "\<exists>a0 a. no_sessions a0 \<and> auth_path a0 a \<and> sys_inv pb view (snd x) a"
  using sys_init_inv [of "fst x0" "snd x0" pb] reachable_path [OF assms(1,3)] assms(2) by fastforce

text \<open>A whole login packet, from the wire to the answer in the write queue.\<close>

lemma on_read_login:
  assumes c: "sv_clients s r = Some c" "conn_ok pb r t c" "cs_reading c = 1" and b: "cs_recvBuffer c = Some b"
    and pb: "pb_ok pb" and size: "length received \<le> RECV_BUFFER_SIZE"
    and whole: "received = append_prot_packet [] (REQUEST_LOGIN pb) (of_nat (length received)) @ payload"
  shows "on_read pb (RedisService R) r None received s
    = seqM (HandleRequestLogin pb (RedisService R) ClientSocket_IClient r (payload @ drop (length received) b) (int (length payload)))
        (client_do r ReadAsync) (s\<lparr>sv_clients := (sv_clients s)(r \<mapsto> received_into c b received)\<rparr>)"
proof -
  let ?c1 = "received_into c b received"
  let ?s1 = "s\<lparr>sv_clients := (sv_clients s)(r \<mapsto> ?c1)\<rparr>"
  let ?data = "payload @ drop (length received) b"
  have len: "length received = length (append_prot_packet [] (REQUEST_LOGIN pb) (of_nat 0) @ payload)"
    using arg_cong [OF whole, of length] by simp
  have "length received < 2 ^ 31" using size by (simp add: RECV_BUFFER_SIZE_def)
  from decode_packet_complete [OF len whole this, of "drop (length received) b"]
  have dec: "decode_packet (fill_buffer b received) (length received)
      = Some (sint (REQUEST_LOGIN pb), ?data, int (length payload))"
    by (simp add: fill_buffer_def)
  have "received \<noteq> []" using len by auto
  then have "on_read pb (RedisService R) r None received s
      = seqM (handle_packet pb (RedisService R) r (sint (REQUEST_LOGIN pb)) ?data (int (length payload)))
          (client_do r ReadAsync) ?s1"
    using on_read_received [OF c(1,3) b, of pb "RedisService R" None received] dec by (simp add: Let_def)
  moreover have "handle_packet pb (RedisService R) r (sint (REQUEST_LOGIN pb)) ?data (int (length payload)) ?s1
      = HandleRequestLogin pb (RedisService R) ClientSocket_IClient r ?data (int (length payload)) ?s1"
    using handle_packet_calls [of ?s1 r ?c1 pb t] conn_ok_received [OF c(2) b size] pb packet_table_entries(1) [OF pb, of r]
      run_packet_handler_alive(1) [of ?s1 r ?c1] by (simp del: run_packet_handler.simps)
  ultimately show ?thesis by (simp only: seqM_def bindM_apply)
qed

lemma read_login:
  assumes inv: "sys_inv pb view w a" and pb: "pb_ok pb"
    and conn: "map_find t (sv_connectedClients (w_server w)) = Some r"
    and whole: "received = append_prot_packet [] (REQUEST_LOGIN pb) (of_nat (length received)) @ payload"
    and size: "length received \<le> RECV_BUFFER_SIZE" and m: "parse_login pb payload = Some m"
  shows "\<exists>w' c c'. sys_next pb (RedisService R) (ReadEv r None received) (ac, w) = (Inr (), (ac, w'))
    \<and> sys_inv pb view w' (snd (auth_login t m a))
    \<and> sv_connectedClients (w_server w') = sv_connectedClients (w_server w)
    \<and> sv_clients (w_server w) r = Some c \<and> sv_clients (w_server w') r = Some c'
    \<and> cs_writeBufferQueue c' = cs_writeBufferQueue c @ [login_packet pb (fst (auth_login t m a))]"
proof -
  let ?s = "w_server w"
  have ok: "objects_ok pb (sv_clients ?s) (sv_connectedClients ?s) (used (w_pool w)) (w_next w)"
    and rel: "auth_rel (view (sv_db ?s)) a"
    and dom: "dom (sessions a) = {t. map_find t (sv_connectedClients ?s) \<noteq> None}"
    using inv by (simp_all add: sys_inv_def)
  obtain c where c: "sv_clients ?s r = Some c" "conn_ok pb r t c" "cs_reading c = 1"
    using objects_okD(2) [OF ok conn] by blast
  obtain b where b: "cs_recvBuffer c = Some b" using c(2) by (auto simp: conn_ok_def)
  have sess: "sessions a t \<noteq> None" using dom conn by blast
  let ?c1 = "received_into c b received"
  have ok1: "conn_ok pb r t ?c1" by (rule conn_ok_received [OF c(2) b size])
  define resp where "resp = fst (auth_login t m a)"
  define c2 where "c2 = snd (PostWrite ClientSocket_IClient (login_packet pb resp)
      (after_login ClientSocket_IClient m resp ?c1))"
  obtain u d where login: "HandleRequestLogin pb (RedisService R) ClientSocket_IClient r
        (payload @ drop (length received) b) (int (length payload)) (?s\<lparr>sv_clients := (sv_clients ?s)(r \<mapsto> ?c1)\<rparr>)
      = (Inr u, ?s\<lparr>sv_db := d, sv_clients := (sv_clients ?s)(r \<mapsto> c2)\<rparr>)"
    and rel': "auth_rel (view d) (snd (auth_login t m a))"
    using srv.HandleRequestLogin_sim [of "?s\<lparr>sv_clients := (sv_clients ?s)(r \<mapsto> ?c1)\<rparr>" a r ?c1 "int (length payload)" pb
        "payload @ drop (length received) b" m] rel m sess conn_ok_token [OF ok1]
    by (auto elim!: handledE simp: c2_def resp_def)
  have queue: "cs_writeBufferQueue (ReadAsync c2) = cs_writeBufferQueue c @ [login_packet pb resp]"
    unfolding c2_def ReadAsync_def after_login_def by (simp add: sock.Client_ok received_into_def)
  have c2: "same_conn ?c1 c2" by (simp add: c2_def)
  have "conn_ok pb r t (ReadAsync c2)" using ok1 same_conn_ok [OF c2] by (simp add: conn_ok_ReadAsync)
  moreover have "cs_reading (ReadAsync c2) = 1" using c2 by (simp add: same_conn_def received_into_def ReadAsync_def)
  ultimately have "objects_ok pb ((sv_clients ?s)(r \<mapsto> ReadAsync c2)) (sv_connectedClients ?s) (used (w_pool w)) (w_next w)"
    by (rule objects_update [OF ok conn])
  then have "sys_inv pb view (w\<lparr>w_server := ?s\<lparr>sv_db := d, sv_clients := (sv_clients ?s)(r \<mapsto> ReadAsync c2)\<rparr>\<rparr>)
      (snd (auth_login t m a))"
    using rel' dom dom_sessions_login [OF sess, of m] by (simp add: sys_inv_def)
  with queue show ?thesis
    using on_read_login [OF c b pb size whole] login c(1) by (simp add: on_server_def seqM_run resp_def)
qed

text \<open>What the invariant says of the database of a reachable state.\<close>

lemma reachable_session:
  assumes "reachable pb (RedisService R) x0 x" and "sys_init view x0" and "pb_ok pb"
    and "hash_at (view (sv_db (w_server (snd x)))) (client_key t) ''loginId'' = Some i"
  shows "hash_at (view (sv_db (w_server (snd x)))) (logined_key i) ''token'' = Some (to_string_u64 t)"
    and "view (sv_db (w_server (snd x))) (id_key i) \<noteq> None"
proof -
  obtain a0 a where "no_sessions a0" "auth_path a0 a" and inv: "sys_inv pb view (snd x) a"
    using reachable_inv [OF assms(1-3)] by blast
  then have a: "auth_inv a" using auth_inv_path no_sessions_inv by blast
  have rel: "auth_rel (view (sv_db (w_server (snd x)))) a" using inv by (simp add: sys_inv_def)
  have on: "online a i = Some t" using assms(4) a session_of_view [OF rel] by (simp add: auth_inv_def)
  have "online_rel (view (sv_db (w_server (snd x))) (logined_key i)) (Some t)"
    using auth_relD(3) [OF rel, of i] on by simp
  then show "hash_at (view (sv_db (w_server (snd x)))) (logined_key i) ''token'' = Some (to_string_u64 t)"
    by (auto simp: online_rel_def hash_at_def)
  show "view (sv_db (w_server (snd x))) (id_key i) \<noteq> None"
    using on a auth_reads(1) [OF rel, of i] by (simp add: auth_inv_def)
qed

lemma polite_one_write:
  assumes "polite_reachable pb (RedisService R) x0 x" and "sys_init view x0" and "pb_ok pb"
  shows "one_write (snd x)"
  using assms(1)
proof (induction rule: polite_reachable.induct)
  case polite_init
  then show ?case using assms(2) by (simp add: sys_init_def one_write_def Let_def)
next
  case (polite_step y ev y')
  obtain ac w ac' w' where y: "y = (ac, w)" "y' = (ac', w')" by (cases y, cases y') auto
  obtain a where "sys_inv pb view w a"
    using reachable_inv [OF polite_reachable_reachable [OF polite_step(1)] assms(2,3)] y by auto
  from sys_next_inv [OF this assms(3), of ev ac "Inr ()" ac' w'] polite_step y show ?case by simp
qed

lemma polite_no_fault:
  assumes "polite_reachable pb (RedisService R) x0 x" and "sys_init view x0" and "pb_ok pb"
    and "enabled ev x" and "orderly ev" and "polite ev x"
  shows "fst (sys_next pb (RedisService R) ev x) = Inr ()"
proof -
  obtain ac w where x: "x = (ac, w)" by (cases x)
  obtain a where inv: "sys_inv pb view w a"
    using reachable_inv [OF polite_reachable_reachable [OF assms(1)] assms(2,3)] x by auto
  have one: "one_write w" using polite_one_write [OF assms(1-3)] x by simp
  obtain y ac' w' where r: "sys_next pb (RedisService R) ev (ac, w) = (y, (ac', w'))" by (metis prod.collapse)
  then show ?thesis using sys_next_inv [OF inv assms(3) _ r] assms(4-6) one x by simp
qed

end

end
