(* ===== verification/Fixtures.thy ===== *)
theory Fixtures
  imports System_Inv
begin

text \<open>
  Concrete instances on which the properties of the server are witnessed: a small codec
  (\<open>test_pb\<close>), a server with one connected client over the in-memory Redis client
  (\<open>test_server\<close>), and histories of the running program in which a client connects, logs in, and
  logs in again to another account.
\<close>

section \<open>Instances for the witnesses\<close>

definition test_register :: PMRequestRegisterAccount where
  "test_register = \<lparr>ra_id = ''bob'', ra_password = ''pass'', ra_nickname = ''Bobby'', ra_personalcolor = ''0.5''\<rparr>"

definition test_login :: PMRequestLogin where
  "test_login = \<lparr>rl_id = ''alice'', rl_password = ''secret''\<rparr>"

definition test_login2 :: PMRequestLogin where
  "test_login2 = \<lparr>rl_id = ''carol'', rl_password = ''secret''\<rparr>"

definition test_pb :: protobuf where
  "test_pb =
     \<lparr>REQUEST_LOGIN = 1, REQUEST_REGISTER_ACCOUNT = 2, REQUEST_PLAYER_DATA = 3, REQUEST_LOGOUT = 4,
      RESPONSE_LOGIN = 5, RESPONSE_REGISTER_ACCOUNT = 6, RESPONSE_PLAYER_DATA = 7, EM_DISCONNECTED = 8,
      parse_register = (\<lambda>b. if b = [2] then Some test_register
        else if b = [3] then Some \<lparr>ra_id = ''carol'', ra_password = ''secret'', ra_nickname = ''Ca'', ra_personalcolor = ''''\<rparr> else None),
      parse_login = (\<lambda>b. if b = [1] then Some test_login else if b = [3] then Some test_login2
        else if b = [2] then Some \<lparr>rl_id = ''bob'', rl_password = ''pass''\<rparr> else None),
      parse_player_data = (\<lambda>b. Some ()), parse_logout = (\<lambda>b. Some ()),
      serialize_register = (\<lambda>r. bytes_of (res_message r)), serialize_login = (\<lambda>r. bytes_of (res_message r)),
      serialize_player_data = (\<lambda>r. bytes_of (res_message r @ res_nickname r))\<rparr>"

definition test_account :: account where
  "test_account = \<lparr>acc_password = sha256 ''secret'', acc_nickname = ''Al'', acc_personalColor = ''0.1''\<rparr>"

definition test_account_value :: rvalue where
  "test_account_value =
     RHash [''password'' \<mapsto> sha256 ''secret'', ''nickname'' \<mapsto> ''Al'', ''personalColor'' \<mapsto> ''0.1'']"

definition test_db :: memdb where
  "test_db =
     [(id_key ''alice'', test_account_value), (id_key ''carol'', test_account_value),
      (client_key 5, RHash [''ConnectedTime'' \<mapsto> ''1000''])]"

definition test_auth :: auth where
  "test_auth =
     \<lparr>accounts = [''alice'' \<mapsto> test_account, ''carol'' \<mapsto> test_account], sessions = [5 \<mapsto> None], online = Map.empty\<rparr>"

definition test_client :: socket where
  "test_client =
     \<lparr>cs_open = True, cs_token = 5, cs_loginKey = [], cs_alloc = [], cs_recvBuffer = Some (replicate 4096 0),
      cs_writeBufferQueue = [], cs_packetHandler = packet_table test_pb 0,
      cs_disconnectHandler = [(8, OnDisconnected 0)], cs_reading = 1, cs_popped = 0, cs_writing = []\<rparr>"

definition test_server :: "(memdb, socket) Server" where
  "test_server =
     \<lparr>sv_db = test_db, sv_clients = [0 \<mapsto> test_client], sv_connectedClients = [(5, 0)], sv_clock = 2000\<rparr>"

lemma test_rel: "auth_rel (mem_view (sv_db test_server)) test_auth"
  by (auto simp: auth_rel_def test_server_def test_db_def test_auth_def mem_view_def test_account_def
      test_account_value_def)

lemma test_inv: "auth_inv test_auth"
  by (simp add: auth_inv_def test_auth_def)

lemma test_facts [simp]:
  "sv_clients test_server 0 = Some test_client" "cs_token test_client = 5"
  "sessions test_auth 5 = Some None" "sv_clock test_server = 2000"
  by (simp_all add: test_server_def test_client_def test_auth_def)

lemma test_parse [simp]:
  "parse_login test_pb [1] = Some test_login" "parse_login test_pb [3] = Some test_login2"
  "parse_register test_pb [2] = Some test_register"
  by (simp_all add: test_pb_def)

lemma test_login_ok: "login_error test_auth test_login = None"
  by (simp add: login_error_def test_auth_def test_login_def test_account_def)

lemma test_pb_ok: "pb_ok test_pb"
  by (simp add: pb_ok_def test_pb_def)

definition test_world :: "memdb world" where
  "test_world =
     \<lparr>w_server = \<lparr>sv_db = [(id_key ''alice'', test_account_value), (id_key ''carol'', test_account_value)], sv_clients = Map.empty, sv_connectedClients = [], sv_clock = 1000\<rparr>,
      w_pool = \<lparr>used = {}, draws = []\<rparr>, w_next = 0\<rparr>"

definition test_acceptor :: Acceptor where
  "test_acceptor = Accept \<lparr>ac_port = 9000, ac_open = True, ac_isStopped = False, ac_pending = 0\<rparr>"

definition test_accept :: sys_event where
  "test_accept =
     AcceptEv \<lparr>acc_error = None, acc_endpoint_error = None, acc_option_error = None\<rparr>
       (replicate RECV_BUFFER_SIZE 0) [5]"

definition test_accounts :: auth where
  "test_accounts =
     \<lparr>accounts = [''alice'' \<mapsto> test_account, ''carol'' \<mapsto> test_account], sessions = Map.empty, online = Map.empty\<rparr>"

lemma test_accounts_rel: "auth_rel (mem_view (sv_db (w_server test_world))) test_accounts"
  by (auto simp: auth_rel_def mem_view_def test_world_def test_accounts_def test_account_value_def test_account_def)

lemma test_init: "sys_init mem_view (test_acceptor, test_world)"
  using test_accounts_rel
  by (auto simp: sys_init_def Let_def test_world_def no_sessions_def test_accounts_def)

lemma test_world_inv: "sys_inv test_pb mem_view test_world test_accounts"
  using test_accounts_rel by (simp add: sys_inv_def objects_ok_def test_accounts_def) (simp add: test_world_def)

lemma test_enabled: "enabled test_accept (test_acceptor, test_world)"
  by (simp add: test_accept_def test_acceptor_def test_world_def Accept_def)

lemma test_connected:
  obtains ac w where "reachable test_pb (RedisService mem_redis) (test_acceptor, test_world) (ac, w)"
    and "map_find 5 (sv_connectedClients (w_server w)) = Some 0"
    and "hash_at (mem_view (sv_db (w_server w))) (id_key ''alice'') ''password'' = Some (sha256 ''secret'')"
    and "mem_view (sv_db (w_server w)) (logined_key ''alice'') = None"
    and "hash_at (mem_view (sv_db (w_server w))) (id_key ''carol'') ''password'' = Some (sha256 ''secret'')"
    and "mem_view (sv_db (w_server w)) (logined_key ''carol'') = None"
    and "polite_reachable test_pb (RedisService mem_redis) (test_acceptor, test_world) (ac, w)"
    and "map_option (\<lambda>c. (cs_reading c, cs_writing c)) (sv_clients (w_server w) 0) = Some (1, [])"
proof -
  let ?w0 = "test_world\<lparr>w_pool := \<lparr>used = {}, draws = [5]\<rparr>\<rparr>"
  have "sys_inv test_pb mem_view ?w0 test_accounts"
    using test_world_inv by (simp add: sys_inv_def test_world_def)
  from mem.add_connection_inv [OF this, of "replicate RECV_BUFFER_SIZE 0"] obtain w c where
    add: "add_connection test_pb (RedisService mem_redis) (replicate RECV_BUFFER_SIZE 0) ?w0 = (Inr (), w)"
    and inv: "sys_inv test_pb mem_view w (auth_connect 5 test_accounts)"
    and conn: "map_find 5 (sv_connectedClients (w_server w)) = Some 0"
    and c: "sv_clients (w_server w) 0 = Some c" "cs_writing c = []" "cs_reading c = 1"
    by (auto simp: test_world_def)
  have step: "sys_next test_pb (RedisService mem_redis) test_accept (test_acceptor, test_world) = (Inr (), (test_acceptor, w))"
    using add by (simp add: test_accept_def on_accept_ok test_acceptor_def Accept_def test_world_def)
  have rel: "auth_rel (mem_view (sv_db (w_server w))) (auth_connect 5 test_accounts)" using inv by (simp add: sys_inv_def)
  have acc: "accounts (auth_connect 5 test_accounts) i = Some test_account" "online (auth_connect 5 test_accounts) i = None"
    if "i \<in> {''alice'', ''carol''}" for i using that by (auto simp: auth_connect_def test_accounts_def)
  show thesis
    using that [of test_acceptor w] conn c reach_step [OF reach_init test_enabled step]
      polite_step [OF polite_init test_enabled _ step] auth_reads(3,9) [OF rel] acc
    by (simp add: test_accept_def test_account_def)
qed

definition test_packet :: "byte \<Rightarrow> byte list" where
  "test_packet k = append_prot_packet [] (REQUEST_LOGIN test_pb) 13 @ [k]"

lemma test_packet_whole:
  "test_packet k = append_prot_packet [] (REQUEST_LOGIN test_pb) (of_nat (length (test_packet k))) @ [k]"
  "length (test_packet k) \<le> RECV_BUFFER_SIZE"
  by (simp_all add: test_packet_def RECV_BUFFER_SIZE_def)

lemma test_read_login:
  assumes "reachable test_pb (RedisService mem_redis) (test_acceptor, test_world) (ac, w)"
    and "sys_inv test_pb mem_view w a" and "map_find 5 (sv_connectedClients (w_server w)) = Some 0"
    and "parse_login test_pb [k] = Some m"
  obtains w' where "reachable test_pb (RedisService mem_redis) (test_acceptor, test_world) (ac, w')"
    and "sys_inv test_pb mem_view w' (snd (auth_login 5 m a))"
    and "map_find 5 (sv_connectedClients (w_server w')) = Some 0"
proof -
  obtain w' where "sys_next test_pb (RedisService mem_redis) (ReadEv 0 None (test_packet k)) (ac, w) = (Inr (), (ac, w'))"
    and "sys_inv test_pb mem_view w' (snd (auth_login 5 m a))"
    and "map_find 5 (sv_connectedClients (w_server w')) = Some 0"
    using mem.read_login [OF assms(2) test_pb_ok assms(3) test_packet_whole assms(4), of ac] assms(3) by auto
  moreover have "enabled (ReadEv 0 None (test_packet k)) (ac, w)"
    using objects_okD(2) [of test_pb _ _ _ _ 5 0] assms(2,3) test_packet_whole(2) [of k]
    by (fastforce simp: sys_inv_def)
  ultimately show thesis using that reach_step [OF assms(1)] by blast
qed

lemma test_logins:
  obtains ac w a where "reachable test_pb (RedisService mem_redis) (test_acceptor, test_world) (ac, w)"
    and "hash_at (mem_view (sv_db (w_server w))) (client_key 5) ''loginId'' = Some ''alice''"
    and "sys_inv test_pb mem_view w a" and "map_find 5 (sv_connectedClients (w_server w)) = Some 0"
    and "login_error a test_login2 = None" and "online a ''alice'' = Some 5" and "sessions a 5 = Some (Some ''alice'')"
    and "auth_inv a"
proof (rule test_connected)
  fix ac w
  assume reach: "reachable test_pb (RedisService mem_redis) (test_acceptor, test_world) (ac, w)"
    and conn: "map_find 5 (sv_connectedClients (w_server w)) = Some 0"
    and acc: "hash_at (mem_view (sv_db (w_server w))) (id_key ''alice'') ''password'' = Some (sha256 ''secret'')"
      "mem_view (sv_db (w_server w)) (logined_key ''alice'') = None"
      "hash_at (mem_view (sv_db (w_server w))) (id_key ''carol'') ''password'' = Some (sha256 ''secret'')"
      "mem_view (sv_db (w_server w)) (logined_key ''carol'') = None"
  obtain a0 a where "no_sessions a0" "auth_path a0 a" and inv: "sys_inv test_pb mem_view w a"
    using mem.reachable_inv [OF reach test_init test_pb_ok] by auto
  then have ai: "auth_inv a" using auth_inv_path no_sessions_inv by blast
  have "login_error a test_login = None" "login_error a test_login2 = None"
    using login_error_view [of "mem_view (sv_db (w_server w))" a] inv acc
    by (simp_all add: sys_inv_def test_login_def test_login2_def)
  then have a': "sessions (snd (auth_login 5 test_login a)) 5 = Some (Some ''alice'')"
    "online (snd (auth_login 5 test_login a)) ''alice'' = Some 5"
    "login_error (snd (auth_login 5 test_login a)) test_login2 = None"
    by (simp_all add: auth_login_def login_error_def [of _ test_login2] split: option.splits if_splits)
      (simp_all add: test_login_def test_login2_def)
  obtain w' where w': "reachable test_pb (RedisService mem_redis) (test_acceptor, test_world) (ac, w')"
    "sys_inv test_pb mem_view w' (snd (auth_login 5 test_login a))"
    "map_find 5 (sv_connectedClients (w_server w')) = Some 0"
    by (rule test_read_login [OF reach inv conn test_parse(1)])
  have "hash_at (mem_view (sv_db (w_server w'))) (client_key 5) ''loginId'' = Some ''alice''"
    using session_of_view [of "mem_view (sv_db (w_server w'))" _ 5 "''alice''"] w'(2) a'(1) by (auto simp: sys_inv_def)
  with w' a' auth_inv_next [OF ai, of "Login 5 test_login"] show thesis by (intro that) simp_all
qed

lemma test_orphaned:
  obtains ac w where "reachable test_pb (RedisService mem_redis) (test_acceptor, test_world) (ac, w)"
    and "mem_view (sv_db (w_server w)) (logined_key ''alice'') \<noteq> None"
    and "\<forall>t. hash_at (mem_view (sv_db (w_server w))) (client_key t) ''loginId'' \<noteq> Some ''alice''"
proof (rule test_logins)
  fix ac w a
  assume a: "reachable test_pb (RedisService mem_redis) (test_acceptor, test_world) (ac, w)"
    "sys_inv test_pb mem_view w a" "map_find 5 (sv_connectedClients (w_server w)) = Some 0"
    and l: "login_error a test_login2 = None" "online a ''alice'' = Some 5" "sessions a 5 = Some (Some ''alice'')"
    and ai: "auth_inv a"
  obtain w' where r: "reachable test_pb (RedisService mem_redis) (test_acceptor, test_world) (ac, w')"
    and inv: "sys_inv test_pb mem_view w' (snd (auth_login 5 test_login2 a))"
    by (rule test_read_login [OF a test_parse(2)])
  have "locked_out ''alice'' (snd (auth_login 5 test_login2 a))"
  proof -
    have "t = 5" if "sessions a t = Some (Some ''alice'')" for t
    proof -
      have "online a ''alice'' = Some t" using that ai unfolding auth_inv_def by blast
      with l(2) show ?thesis by simp
    qed
    then have other: "sessions a t \<noteq> Some (Some ''alice'')" if "t \<noteq> 5" for t using that by blast
    have "snd (auth_login 5 test_login2 a) = a\<lparr>sessions := (sessions a)(5 \<mapsto> Some ''carol''), online := (online a)(''carol'' \<mapsto> 5)\<rparr>"
      using l(1) by (simp add: auth_login_def) (simp add: test_login2_def)
    then show ?thesis using l(2) other by (simp add: locked_out_def)
  qed
  with inv have "mem_view (sv_db (w_server w')) (logined_key ''alice'') \<noteq> None"
    "\<forall>t. hash_at (mem_view (sv_db (w_server w'))) (client_key t) ''loginId'' \<noteq> Some ''alice''"
    using locked_out_view [of "mem_view (sv_db (w_server w'))"] by (auto simp: sys_inv_def)
  with r show thesis by (rule that)
qed

end
