(* ===== verification/Server_Properties.thy ===== *)
theory Server_Properties
  imports Fixtures
begin

text \<open>
  The properties of the server's handlers, for every Redis client library that behaves as documented
  (\<open>redis_live\<close>) and every protobuf codec: each handler implements its specification, and what
  sequences of requests do.
\<close>

section \<open>One request\<close>

text \<open>C3: \<^verbatim>\<open>HandleRequestLogin\<close> implements the specification of a login: it returns, the database
  afterwards is the one the specification asks for, and exactly the specified answer is posted to the
  client that asked. So a login succeeds exactly when the account exists, the SHA-256 of the password
  is the stored one and nobody is logged in to it, and a refused login changes nothing.\<close>

theorem login_refines:
  fixes s :: "('d, socket) Server"
  assumes "redis_live R view glob" and "auth_rel (view (sv_db s)) a" and "sv_clients s r = Some c"
    and "0 \<le> len" and "parse_login pb (take (nat len) data) = Some m" and "sessions a (cs_token c) \<noteq> None"
  shows "handled view s
    ((sv_clients s)(r \<mapsto> snd (ClientSocket_PostWrite (login_packet pb (fst (auth_login (cs_token c) m a)))
       (after_login ClientSocket_IClient m (fst (auth_login (cs_token c) m a)) c))))
    (snd (auth_login (cs_token c) m a))
    (HandleRequestLogin pb (RedisService R) ClientSocket_IClient r data len s)"
  using auth_server.HandleRequestLogin_sim [OF redis_live.live_server [OF assms(1)] assms(2-5)] assms(6)
  by (simp add: PostWrite_socket)

theorem login_refines_witness:
  "\<exists>d. HandleRequestLogin test_pb (RedisService mem_redis) ClientSocket_IClient 0 [1] 1 test_server
     = (Inr (), test_server\<lparr>sv_db := d, sv_clients := [0 \<mapsto>
         snd (ClientSocket_PostWrite (login_packet test_pb \<lparr>res_result = True, res_message = ''ok''\<rparr>)
           (ClientSocket_SetLoginKey (logined_key ''alice'') test_client))]\<rparr>)
     \<and> mem_view d (logined_key ''alice'') \<noteq> None"
proof -
  have a: "auth_login 5 test_login test_auth = (\<lparr>res_result = True, res_message = ''ok''\<rparr>,
      test_auth\<lparr>sessions := (sessions test_auth)(5 \<mapsto> Some ''alice''), online := (online test_auth)(''alice'' \<mapsto> 5)\<rparr>)"
    by (simp add: auth_login_def test_login_ok) (simp add: test_login_def)
  have "handled mem_view test_server
      ((sv_clients test_server)(0 \<mapsto> snd (ClientSocket_PostWrite (login_packet test_pb \<lparr>res_result = True, res_message = ''ok''\<rparr>)
         (after_login ClientSocket_IClient test_login \<lparr>res_result = True, res_message = ''ok''\<rparr> test_client))))
      (snd (auth_login 5 test_login test_auth))
      (HandleRequestLogin test_pb (RedisService mem_redis) ClientSocket_IClient 0 [1] 1 test_server)"
    using login_refines [OF mem.redis_live_axioms test_rel, of 0 test_client 1 test_pb "[1]" test_login] a
    by simp
  then obtain x d where
    res: "HandleRequestLogin test_pb (RedisService mem_redis) ClientSocket_IClient 0 [1] 1 test_server
      = (Inr x, test_server\<lparr>sv_db := d, sv_clients := (sv_clients test_server)(0 \<mapsto>
         snd (ClientSocket_PostWrite (login_packet test_pb \<lparr>res_result = True, res_message = ''ok''\<rparr>)
         (after_login ClientSocket_IClient test_login \<lparr>res_result = True, res_message = ''ok''\<rparr> test_client)))\<rparr>)"
    and rel: "auth_rel (mem_view d) (snd (auth_login 5 test_login test_auth))"
    by (rule handledE)
  have "mem_view d (logined_key ''alice'') \<noteq> None"
    using auth_reads(9) [OF rel, of "''alice''"] a by simp
  with res show ?thesis
    by (simp add: after_login_def SetLoginKey_socket test_login_def test_server_def)
qed

text \<open>C4: \<^verbatim>\<open>HandleRequestCreationAccount\<close> implements the specification of a registration: the
  checks in their order, then all three fields of a new account with the SHA-256 of the password; a
  refused registration changes nothing, and no existing account is ever overwritten.\<close>

theorem register_refines:
  fixes s :: "('d, socket) Server"
  assumes "redis_live R view glob" and "auth_rel (view (sv_db s)) a" and "sv_clients s r = Some c"
    and "0 \<le> len" and "parse_register pb (take (nat len) data) = Some m"
  shows "handled view s
    ((sv_clients s)(r \<mapsto> snd (ClientSocket_PostWrite (register_packet pb (fst (auth_register m a))) c)))
    (snd (auth_register m a))
    (HandleRequestCreationAccount pb (RedisService R) ClientSocket_IClient r data len s)
    \<and> (\<forall>i acc. accounts a i = Some acc \<longrightarrow> accounts (snd (auth_register m a)) i = Some acc)"
  using auth_server.HandleRequestCreationAccount_sim [OF redis_live.live_server [OF assms(1)] assms(2-5)]
  by (auto simp: PostWrite_socket auth_register_def register_error_def split: option.split)

theorem register_refines_witness:
  "fst (HandleRequestCreationAccount test_pb (RedisService mem_redis) ClientSocket_IClient 0 [2] 1 test_server) = Inr ()
   \<and> hash_at (mem_view (sv_db (snd (HandleRequestCreationAccount test_pb (RedisService mem_redis)
       ClientSocket_IClient 0 [2] 1 test_server)))) (id_key ''bob'') ''password'' = Some (sha256 ''pass'')"
proof -
  let ?res = "HandleRequestCreationAccount test_pb (RedisService mem_redis) ClientSocket_IClient 0 [2] 1 test_server"
  have a: "accounts (snd (auth_register test_register test_auth)) ''bob''
      = Some \<lparr>acc_password = sha256 ''pass'', acc_nickname = ''Bobby'', acc_personalColor = ''0.5''\<rparr>"
    by (simp add: auth_register_def register_error_def test_register_def test_auth_def)
  have "fst ?res = Inr ()" and rel: "auth_rel (mem_view (sv_db (snd ?res))) (snd (auth_register test_register test_auth))"
    using register_refines [OF mem.redis_live_axioms test_rel, of 0 test_client 1 test_pb "[2]" test_register]
    by (auto elim!: handledE)
  then show ?thesis using auth_reads(3) [OF rel a] by simp
qed

text \<open>C11: \<^verbatim>\<open>HandleRequestPlayerData\<close> answers with the nickname and colour of the account the
  client is logged in to, and with the specified message otherwise; no key, field or
  value of the database changes (at most the time to live of the account's key is lifted), and on a database that registrations produced it never dereferences a
  missing field.\<close>

theorem player_data_refines:
  fixes s :: "('d, socket) Server"
  assumes "redis_live R view glob" and "auth_rel (view (sv_db s)) a" and "sv_clients s r = Some c"
    and "0 \<le> len" and "parse_player_data pb (take (nat len) data) = Some u"
  shows "handled view s
    ((sv_clients s)(r \<mapsto> snd (ClientSocket_PostWrite (player_data_packet pb (auth_player_data (cs_token c) a)) c)))
    a (HandleRequestPlayerData pb (RedisService R) ClientSocket_IClient r data len s)
    \<and> view (sv_db (snd (HandleRequestPlayerData pb (RedisService R) ClientSocket_IClient r data len s))) = view (sv_db s)"
  using auth_server.HandleRequestPlayerData_sim [OF redis_live.live_server [OF assms(1)] assms(2-5)]
  by (simp add: PostWrite_socket)

theorem player_data_refines_witness:
  "sv_clients (snd (HandleRequestPlayerData test_pb (RedisService mem_redis) ClientSocket_IClient 0 [] 0 test_server)) 0
   = Some (snd (ClientSocket_PostWrite
       (player_data_packet test_pb (default_player_data\<lparr>res_message := ''needLogin''\<rparr>)) test_client))"
proof -
  have "parse_player_data test_pb (take (nat 0) []) = Some ()" by (simp add: test_pb_def)
  from player_data_refines [OF mem.redis_live_axioms test_rel, of 0 test_client 0 test_pb "[]", OF _ _ this]
  show ?thesis by (auto elim!: handledE simp: auth_player_data_def)
qed

text \<open>C12: \<^verbatim>\<open>HandleRequestLogout\<close> ends exactly the session of the client that asked: its login
  id and the entry of the account in the table of logins are gone, every other session, login and
  account is as before, and nothing is sent.\<close>

theorem logout_refines:
  fixes s :: "('d, socket) Server"
  assumes "redis_live R view glob" and "auth_rel (view (sv_db s)) a" and "sv_clients s r = Some c"
    and "0 \<le> len" and "parse_logout pb (take (nat len) data) = Some u"
  shows "handled view s ((sv_clients s)(r \<mapsto> after_logout ClientSocket_IClient a c)) (auth_logout (cs_token c) a)
    (HandleRequestLogout pb (RedisService R) ClientSocket_IClient r data len s)
    \<and> (\<forall>t i. t \<noteq> cs_token c \<and> sessions a (cs_token c) \<noteq> Some (Some i) \<longrightarrow>
        sessions (auth_logout (cs_token c) a) t = sessions a t \<and> online (auth_logout (cs_token c) a) i = online a i)"
  using auth_server.HandleRequestLogout_sim [OF redis_live.live_server [OF assms(1)] assms(2-5)]
  by (auto simp: auth_logout_def split: option.split)

theorem logout_refines_witness:
  "fst (HandleRequestLogout test_pb (RedisService mem_redis) ClientSocket_IClient 0 [] 0 test_server) = Inr ()"
proof -
  have "parse_logout test_pb (take (nat 0) []) = Some ()" by (simp add: test_pb_def)
  from logout_refines [OF mem.redis_live_axioms test_rel, of 0 test_client 0 test_pb "[]", OF _ _ this]
  show ?thesis by (auto elim!: handledE)
qed

text \<open>C13: the handler a client's disconnection runs (log out, close the socket, remove the client)
  returns, ends the session and the login of that client, and takes it out of the table of connected
  clients and out of Redis.\<close>

theorem disconnect_refines:
  fixes s :: "('d, socket) Server"
  assumes "redis_live R view glob" and "auth_rel (view (sv_db s)) a" and "sv_clients s r = Some c"
  shows "handled view (s\<lparr>sv_connectedClients := map_erase (cs_token c) (sv_connectedClients s)\<rparr>)
    ((sv_clients s)(r \<mapsto> ClientSocket_Stop (after_logout ClientSocket_IClient a c)))
    (auth_disconnect (cs_token c) a)
    (run_error_handler (RedisService R) ClientSocket_IClient (OnDisconnected r) s)"
  using auth_server.run_error_handler_sim [OF redis_live.live_server [OF assms(1)] assms(2-3)]
  by (simp add: Stop_socket)

theorem disconnect_refines_witness:
  "mem_view (sv_db (snd (run_error_handler (RedisService mem_redis) ClientSocket_IClient (OnDisconnected 0) test_server)))
     (client_key 5) = None
   \<and> sv_connectedClients (snd (run_error_handler (RedisService mem_redis) ClientSocket_IClient (OnDisconnected 0) test_server)) = []"
proof -
  let ?res = "run_error_handler (RedisService mem_redis) ClientSocket_IClient (OnDisconnected 0) test_server"
  have "sv_connectedClients (snd ?res) = []" and rel: "auth_rel (mem_view (sv_db (snd ?res))) (auth_disconnect 5 test_auth)"
    using disconnect_refines [OF mem.redis_live_axioms test_rel, of 0 test_client]
    by (auto elim!: handledE simp: test_server_def simp del: run_error_handler.simps)
  then show ?thesis
    using auth_reads(6) [OF rel, of 5] by (simp add: auth_disconnect_def Let_def del: run_error_handler.simps)
qed

text \<open>C14: \<^verbatim>\<open>AddClient\<close> for a client with a fresh token: it returns 0, enters the client in the
  table under its token, creates a session that is not logged in, starts the first read, and installs
  the four request handlers and the disconnect handler, all of them for this client.\<close>

theorem connect_refines:
  fixes s :: "('d, socket) Server"
  assumes "redis_live R view glob" and "auth_rel (view (sv_db s)) a" and "sv_clients s r = Some c"
    and "sessions a (cs_token c) = None" and "pb_ok pb"
    and "cs_packetHandler c = []" and "cs_disconnectHandler c = []"
  shows "\<exists>d c'. AddClient pb (RedisService R) ClientSocket_IClient r s
      = (Inr 0, s\<lparr>sv_connectedClients := map_put (cs_token c) r (sv_connectedClients s), sv_db := d,
           sv_clients := (sv_clients s)(r \<mapsto> c')\<rparr>)
    \<and> auth_rel (view d) (auth_connect (cs_token c) a)
    \<and> cs_reading c' = Suc (cs_reading c) \<and> cs_recvBuffer c' = Some (cs_alloc c)
    \<and> packet_handler_of c' = [sint (REQUEST_LOGIN pb) \<mapsto> OnLogin r, sint (REQUEST_REGISTER_ACCOUNT pb) \<mapsto> OnRegister r,
         sint (REQUEST_PLAYER_DATA pb) \<mapsto> OnPlayerData r, sint (REQUEST_LOGOUT pb) \<mapsto> OnLogout r]
    \<and> HandleError c' = [OnDisconnected r]"
proof -
  let ?c' = "with_handlers pb ClientSocket_IClient r (snd (Init ClientSocket_IClient c))"
  obtain x d where add: "AddClient pb (RedisService R) ClientSocket_IClient r s
      = (Inr x, s\<lparr>sv_connectedClients := map_put (cs_token c) r (sv_connectedClients s), sv_db := d,
          sv_clients := (sv_clients s)(r \<mapsto> ?c')\<rparr>)" and rel: "auth_rel (view d) (auth_connect (cs_token c) a)"
    using auth_server.AddClient_sim [OF redis_live.live_server [OF assms(1)] assms(2,3), of pb] assms(4)
    by (auto elim!: handledE)
  have "x = 0" by (rule AddClient_result [of pb "RedisService R" ClientSocket_IClient r s]) (simp add: add)
  moreover have "packet_handler_of ?c' = [sint (REQUEST_LOGIN pb) \<mapsto> OnLogin r, sint (REQUEST_REGISTER_ACCOUNT pb) \<mapsto> OnRegister r,
         sint (REQUEST_PLAYER_DATA pb) \<mapsto> OnPlayerData r, sint (REQUEST_LOGOUT pb) \<mapsto> OnLogout r]"
  proof -
    have "handlers_ok c" "packet_handler_of c = Map.empty"
      using assms(6,7) by (auto simp: handlers_ok_def packet_handler_of_def)
    then show ?thesis by (simp add: with_handlers_def sock.Client_ok)
  qed
  moreover have "cs_reading ?c' = Suc (cs_reading c)" "cs_recvBuffer ?c' = Some (cs_alloc c)"
    "HandleError ?c' = [OnDisconnected r]"
    using assms(6,7) by (simp_all add: with_handlers_def ClientSocket_defs HandleError_def)
  ultimately show ?thesis using add rel by blast
qed

theorem connect_refines_witness:
  "fst (AddClient test_pb (RedisService mem_redis) ClientSocket_IClient 0
     (test_server\<lparr>sv_clients := [0 \<mapsto> test_client\<lparr>cs_token := 6, cs_packetHandler := [], cs_disconnectHandler := []\<rparr>]\<rparr>)) = Inr 0"
proof -
  let ?c = "test_client\<lparr>cs_token := 6, cs_packetHandler := [], cs_disconnectHandler := []\<rparr>"
  let ?s = "test_server\<lparr>sv_clients := [0 \<mapsto> ?c]\<rparr>"
  have "auth_rel (mem_view (sv_db ?s)) test_auth" using test_rel by simp
  moreover have "sessions test_auth (cs_token ?c) = None" by (simp add: test_auth_def)
  ultimately show ?thesis
    using connect_refines [OF mem.redis_live_axioms, of ?s test_auth 0 ?c test_pb] test_pb_ok by auto
qed

lemma total_length_exact:
  assumes "length body + 12 < 2 ^ 31"
  shows "total_length body = of_nat (length body + 12)" "total_length_login body = of_nat (length body + 12)"
proof -
  have w: "(of_nat (length body) + 12 :: 'a :: len word) = of_nat (length body + 12)" by simp
  have u: "(ucast (of_nat n :: uint64) :: int32) = of_nat n" if "n < 2 ^ 31" for n
    using that by (simp add: unsigned_of_nat take_bit_nat_eq_self)
  have s: "(scast (of_nat n :: int32) :: uint64) = of_nat n" if "n < 2 ^ 31" for n
    using scast_eq_of_nat [OF that] by blast
  show "total_length body = of_nat (length body + 12)"
    unfolding total_length_def w u [OF assms] by (rule s [OF assms])
  have "length body < 2 ^ 31" using assms by simp
  then show "total_length_login body = of_nat (length body + 12)"
    unfolding total_length_login_def u [OF \<open>length body < 2 ^ 31\<close>] w by (intro s [OF assms])
qed

lemma framed_decodes:
  assumes "length body + 12 < 2 ^ 31" and "len = of_nat (length body + 12)"
  shows "decode_packet ((append_prot_packet [] ty len @ body) @ stale) (length body + 12)
    = Some (sint ty, body @ stale, int (length body))"
proof -
  let ?p = "append_prot_packet [] ty len @ body"
  have l: "length ?p = length body + 12" by simp
  have "decode_packet (?p @ stale) (length ?p) = Some (sint ty, body @ stale, int (length body))"
    by (rule decode_packet_complete [of _ ty len]) (use assms l in \<open>simp_all add: add.commute\<close>)
  then show ?thesis unfolding l .
qed

text \<open>C19: every answer is framed the way the protocol reads it. The packet a handler posts (below
  2^31 bytes) decodes, at a receiver that frames as this server does, to the type of the answer and
  exactly the serialised message.\<close>

theorem responses_are_framed:
  assumes "length (serialize_register pb rr) + 12 < 2 ^ 31" and "length (serialize_login pb rl) + 12 < 2 ^ 31"
    and "length (serialize_player_data pb rd) + 12 < 2 ^ 31"
  shows "decode_packet (register_packet pb rr @ stale) (length (register_packet pb rr))
      = Some (sint (RESPONSE_REGISTER_ACCOUNT pb), serialize_register pb rr @ stale, int (length (serialize_register pb rr)))
    \<and> decode_packet (login_packet pb rl @ stale) (length (login_packet pb rl))
      = Some (sint (RESPONSE_LOGIN pb), serialize_login pb rl @ stale, int (length (serialize_login pb rl)))
    \<and> decode_packet (player_data_packet pb rd @ stale) (length (player_data_packet pb rd))
      = Some (sint (RESPONSE_PLAYER_DATA pb), serialize_player_data pb rd @ stale, int (length (serialize_player_data pb rd)))"
proof -
  note f = framed_decodes [OF assms(1) total_length_exact(1) [OF assms(1)]]
    framed_decodes [OF assms(2) total_length_exact(2) [OF assms(2)]]
    framed_decodes [OF assms(3) total_length_exact(1) [OF assms(3)]]
  show ?thesis
    using f(1) [of "RESPONSE_REGISTER_ACCOUNT pb" stale] f(2) [of "RESPONSE_LOGIN pb" stale]
      f(3) [of "RESPONSE_PLAYER_DATA pb" stale]
    by (simp add: register_packet_def login_packet_def player_data_packet_def add.commute)
qed

theorem responses_are_framed_witness:
  "decode_packet (login_packet test_pb \<lparr>res_result = True, res_message = ''ok''\<rparr> @ [])
     (length (login_packet test_pb \<lparr>res_result = True, res_message = ''ok''\<rparr>)) = Some (5, bytes_of ''ok'', 2)"
  using responses_are_framed [of test_pb default_response "\<lparr>res_result = True, res_message = ''ok''\<rparr>" default_player_data "[]"]
  by (simp add: test_pb_def default_response_def default_player_data_def)

section \<open>Sequences of requests\<close>

text \<open>C15: an account that was just registered can be used: after a successful registration, a login
  with the same id and password, from any connected client, succeeds.\<close>

theorem register_then_login:
  fixes s :: "('d, socket) Server"
  assumes "redis_live R view glob" and "auth_rel (view (sv_db s)) a" and "auth_inv a"
    and "sv_clients s r = Some c" and "sv_clients s r' = Some c'" and "sessions a (cs_token c') \<noteq> None"
    and "0 \<le> len" and "parse_register pb (take (nat len) data) = Some m" and "register_error a m = None"
    and "0 \<le> len'" and "parse_login pb (take (nat len') data') = Some \<lparr>rl_id = ra_id m, rl_password = ra_password m\<rparr>"
  shows "\<exists>s1 s2 c1. HandleRequestCreationAccount pb (RedisService R) ClientSocket_IClient r data len s = (Inr (), s1)
    \<and> HandleRequestLogin pb (RedisService R) ClientSocket_IClient r' data' len' s1 = (Inr (), s2)
    \<and> sv_clients s1 r' = Some c1
    \<and> sv_clients s2 r' = Some (snd (ClientSocket_PostWrite
        (login_packet pb \<lparr>res_result = True, res_message = ''ok''\<rparr>)
        (ClientSocket_SetLoginKey (logined_key (ra_id m)) c1)))
    \<and> hash_at (view (sv_db s2)) (client_key (cs_token c')) ''loginId'' = Some (ra_id m)"
proof -
  let ?m' = "\<lparr>rl_id = ra_id m, rl_password = ra_password m\<rparr>"
  let ?a1 = "snd (auth_register m a)" and ?t = "cs_token c'"
  note srv = redis_live.live_server [OF assms(1)]
  obtain x d where s1: "HandleRequestCreationAccount pb (RedisService R) ClientSocket_IClient r data len s
      = (Inr x, s\<lparr>sv_db := d, sv_clients := (sv_clients s)(r \<mapsto>
          snd (PostWrite ClientSocket_IClient (register_packet pb (fst (auth_register m a))) c))\<rparr>)"
    and rel1: "auth_rel (view d) ?a1"
    using auth_server.HandleRequestCreationAccount_sim [OF srv assms(2,4,7,8)] by (rule handledE)
  define s1' where "s1' = s\<lparr>sv_db := d, sv_clients := (sv_clients s)(r \<mapsto>
          snd (PostWrite ClientSocket_IClient (register_packet pb (fst (auth_register m a))) c))\<rparr>"
  obtain c1 where c1: "sv_clients s1' r' = Some c1" "cs_token c1 = ?t"
    using assms(4,5) sock.token_kept(3) by (cases "r' = r") (auto simp: s1'_def)
  have "online a (ra_id m) = None"
    using assms(3,9) by (auto simp: auth_inv_def register_error_def split: if_splits)
  then have login: "auth_login ?t ?m' ?a1 = (\<lparr>res_result = True, res_message = ''ok''\<rparr>,
      ?a1\<lparr>sessions := (sessions ?a1)(?t \<mapsto> Some (ra_id m)), online := (online ?a1)(ra_id m \<mapsto> ?t)\<rparr>)"
    using assms(9) by (simp add: auth_login_def login_error_def auth_register_def)
  have "sessions ?a1 ?t \<noteq> None" "auth_rel (view (sv_db s1')) ?a1"
    using assms(6) rel1 by (simp_all add: dom_sessions_register s1'_def)
  then obtain y e where s2: "HandleRequestLogin pb (RedisService R) ClientSocket_IClient r' data' len' s1'
      = (Inr y, s1'\<lparr>sv_db := e, sv_clients := (sv_clients s1')(r' \<mapsto>
          snd (PostWrite ClientSocket_IClient (login_packet pb \<lparr>res_result = True, res_message = ''ok''\<rparr>)
            (SetLoginKey ClientSocket_IClient (logined_key (ra_id m)) c1)))\<rparr>)"
    and rel2: "auth_rel (view e) (snd (auth_login ?t ?m' ?a1))"
    using auth_server.HandleRequestLogin_sim [OF srv, of s1' ?a1 r' c1 len' pb data' ?m'] assms(10,11) login c1
    by (auto elim!: handledE simp: after_login_def)
  have "hash_at (view e) (client_key ?t) ''loginId'' = Some (ra_id m)"
    using auth_reads(8) [OF rel2, of ?t "Some (ra_id m)"] login by simp
  then show ?thesis using s1 s2 c1 by (simp add: PostWrite_socket SetLoginKey_socket s1'_def)
qed

theorem register_then_login_witness:
  "\<exists>s1 s2. HandleRequestCreationAccount test_pb (RedisService mem_redis) ClientSocket_IClient 0 [2] 1 test_server = (Inr (), s1)
    \<and> HandleRequestLogin test_pb (RedisService mem_redis) ClientSocket_IClient 0 [2] 1 s1 = (Inr (), s2)
    \<and> hash_at (mem_view (sv_db s2)) (client_key 5) ''loginId'' = Some ''bob''"
proof -
  have "register_error test_auth test_register = None"
    by (simp add: register_error_def test_register_def test_auth_def)
  moreover have "parse_login test_pb (take (nat 1) [2]) = Some \<lparr>rl_id = ra_id test_register, rl_password = ra_password test_register\<rparr>"
    by (simp add: test_pb_def test_register_def)
  ultimately have "\<exists>s1 s2 c1. HandleRequestCreationAccount test_pb (RedisService mem_redis) ClientSocket_IClient 0 [2] 1 test_server = (Inr (), s1)
    \<and> HandleRequestLogin test_pb (RedisService mem_redis) ClientSocket_IClient 0 [2] 1 s1 = (Inr (), s2)
    \<and> sv_clients s1 0 = Some c1
    \<and> sv_clients s2 0 = Some (snd (ClientSocket_PostWrite
        (login_packet test_pb \<lparr>res_result = True, res_message = ''ok''\<rparr>)
        (ClientSocket_SetLoginKey (logined_key (ra_id test_register)) c1)))
    \<and> hash_at (mem_view (sv_db s2)) (client_key (cs_token test_client)) ''loginId'' = Some (ra_id test_register)"
    by (intro register_then_login [OF mem.redis_live_axioms test_rel test_inv]) simp_all
  then show ?thesis by (auto simp: test_register_def)
qed

text \<open>Logging in a second time on the same connection, to another account, orphans the first
  login: the entry \<^verbatim>\<open>logined:\<close> of the first account stays, and no client's session refers to
  it any more.\<close>

theorem second_login_orphans_first:
  fixes s :: "('d, socket) Server"
  assumes "redis_live R view glob" and "auth_rel (view (sv_db s)) a" and "auth_inv a"
    and "sv_clients s r = Some c" and "sessions a (cs_token c) \<noteq> None" and "rl_id m \<noteq> rl_id m'"
    and "0 \<le> len" and "parse_login pb (take (nat len) data) = Some m" and "login_error a m = None"
    and "0 \<le> len'" and "parse_login pb (take (nat len') data') = Some m'" and "login_error a m' = None"
  shows "\<exists>s1 s2. HandleRequestLogin pb (RedisService R) ClientSocket_IClient r data len s = (Inr (), s1)
    \<and> HandleRequestLogin pb (RedisService R) ClientSocket_IClient r data' len' s1 = (Inr (), s2)
    \<and> view (sv_db s2) (logined_key (rl_id m)) \<noteq> None
    \<and> (\<forall>t. hash_at (view (sv_db s2)) (client_key t) ''loginId'' \<noteq> Some (rl_id m))"
proof -
  let ?t = "cs_token c"
  let ?a1 = "snd (auth_login ?t m a)"
  let ?a2 = "snd (auth_login ?t m' ?a1)"
  note srv = redis_live.live_server [OF assms(1)]
  define c1 where "c1 = snd (PostWrite ClientSocket_IClient (login_packet pb (fst (auth_login ?t m a)))
      (after_login ClientSocket_IClient m (fst (auth_login ?t m a)) c))"
  have "same_conn c c1" by (simp add: c1_def)
  then have c1: "cs_token c1 = ?t" by (simp add: same_conn_def)
  obtain x d where s1: "HandleRequestLogin pb (RedisService R) ClientSocket_IClient r data len s
      = (Inr x, s\<lparr>sv_db := d, sv_clients := (sv_clients s)(r \<mapsto> c1)\<rparr>)" and rel1: "auth_rel (view d) ?a1"
    using auth_server.HandleRequestLogin_sim [OF srv assms(2,4,7,8)] assms(5)
    by (auto elim!: handledE simp: c1_def)
  define s1' where "s1' = s\<lparr>sv_db := d, sv_clients := (sv_clients s)(r \<mapsto> c1)\<rparr>"
  have sess: "sessions ?a1 ?t \<noteq> None" using dom_sessions_login [OF assms(5), of m] assms(5) by blast
  then obtain y s2 where s2: "HandleRequestLogin pb (RedisService R) ClientSocket_IClient r data' len' s1' = (Inr y, s2)"
    and rel2: "auth_rel (view (sv_db s2)) ?a2"
    using auth_server.HandleRequestLogin_sim [OF srv, of s1' ?a1 r c1 len' pb data' m'] assms(10,11) rel1 c1
    by (auto elim!: handledE simp: s1'_def)
  have "locked_out (rl_id m) ?a2"
    using assms(3,6,9,12) by (auto simp: locked_out_def auth_login_def login_error_def auth_inv_def split: option.splits if_splits)
  then have "view (sv_db s2) (logined_key (rl_id m)) \<noteq> None"
    "hash_at (view (sv_db s2)) (client_key t) ''loginId'' \<noteq> Some (rl_id m)" for t
    using locked_out_view [OF rel2] by blast+
  then show ?thesis using s1 s2 by (simp add: s1'_def)
qed

theorem second_login_orphans_first_witness:
  "\<exists>s1 s2. HandleRequestLogin test_pb (RedisService mem_redis) ClientSocket_IClient 0 [1] 1 test_server = (Inr (), s1)
    \<and> HandleRequestLogin test_pb (RedisService mem_redis) ClientSocket_IClient 0 [3] 1 s1 = (Inr (), s2)
    \<and> mem_view (sv_db s2) (logined_key ''alice'') \<noteq> None"
proof -
  have "login_error test_auth test_login2 = None" "rl_id test_login \<noteq> rl_id test_login2"
    by (simp_all add: login_error_def test_auth_def test_login2_def test_login_def test_account_def)
  then have "\<exists>s1 s2. HandleRequestLogin test_pb (RedisService mem_redis) ClientSocket_IClient 0 [1] 1 test_server = (Inr (), s1)
    \<and> HandleRequestLogin test_pb (RedisService mem_redis) ClientSocket_IClient 0 [3] 1 s1 = (Inr (), s2)
    \<and> mem_view (sv_db s2) (logined_key (rl_id test_login)) \<noteq> None
    \<and> (\<forall>t. hash_at (mem_view (sv_db s2)) (client_key t) ''loginId'' \<noteq> Some (rl_id test_login))"
    by (intro second_login_orphans_first [OF mem.redis_live_axioms test_rel test_inv, where m' = test_login2 and c = test_client])
      (simp_all add: test_login_ok)
  then show ?thesis by (auto simp: test_login_def)
qed

end
