(* ===== verification/System_Properties.thy ===== *)
theory System_Properties
  imports Fixtures
begin

text \<open>
  The properties of the running program: they quantify over all histories of connections, reads of
  arbitrary bytes, write completions and disconnections.
\<close>

section \<open>The running program\<close>

text \<open>C2: at any moment of any history whose handlers do not overlap, at most one connected client is
  logged in to an account, the account's entry in the table of logins carries the token of that client,
  and the account exists.\<close>

theorem one_client_per_account:
  assumes "redis_live R view glob" and "pb_ok pb" and "sys_init view x0" and "reachable pb (RedisService R) x0 (ac, w)"
    and "hash_at (view (sv_db (w_server w))) (client_key t) ''loginId'' = Some i"
  shows "hash_at (view (sv_db (w_server w))) (logined_key i) ''token'' = Some (to_string_u64 t)
    \<and> view (sv_db (w_server w)) (id_key i) \<noteq> None
    \<and> (\<forall>t'. hash_at (view (sv_db (w_server w))) (client_key t') ''loginId'' = Some i \<longrightarrow> t' = t)"
proof -
  let ?v = "view (sv_db (w_server w))"
  have here: "hash_at ?v (logined_key i) ''token'' = Some (to_string_u64 t')"
    if "hash_at ?v (client_key t') ''loginId'' = Some i" for t'
    using redis_live.reachable_session(1) [OF assms(1,4,3,2)] that by simp
  have "view (sv_db (w_server w)) (id_key i) \<noteq> None"
    using redis_live.reachable_session(2) [OF assms(1,4,3,2)] assms(5) by simp
  with here [OF assms(5)] here show ?thesis by auto
qed

text \<open>C27: an orphaned login is never released while the server runs: if at some moment the table of
  logins has an entry for an account that no client's session refers to, then it still has it after
  any further history.\<close>

theorem orphaned_login_is_permanent:
  assumes "redis_live R view glob" and "pb_ok pb" and "sys_init view x0" and "reachable pb (RedisService R) x0 (ac, w)"
    and "view (sv_db (w_server w)) (logined_key i) \<noteq> None"
    and "\<forall>t. hash_at (view (sv_db (w_server w))) (client_key t) ''loginId'' \<noteq> Some i"
    and "reachable pb (RedisService R) (ac, w) (ac', w')"
  shows "view (sv_db (w_server w')) (logined_key i) \<noteq> None
    \<and> (\<forall>t. hash_at (view (sv_db (w_server w'))) (client_key t) ''loginId'' \<noteq> Some i)"
proof -
  obtain a where inv: "sys_inv pb view w a" using redis_live.reachable_inv [OF assms(1,4,3,2)] by auto
  then obtain a' where path: "auth_path a a'" and inv': "sys_inv pb view w' a'"
    using redis_live.reachable_path [OF assms(1,7,2)] by auto
  have "locked_out i a" using assms(5,6) inv locked_out_view by (auto simp: sys_inv_def)
  then have "locked_out i a'" using locked_out_path path by blast
  then show ?thesis using inv' locked_out_view [of "view (sv_db (w_server w'))" a' i] by (simp add: sys_inv_def)
qed

theorem orphaned_login_is_permanent_witness:
  "\<exists>x. reachable test_pb (RedisService mem_redis) (test_acceptor, test_world) x
     \<and> (\<forall>ac' w'. reachable test_pb (RedisService mem_redis) x (ac', w') \<longrightarrow>
          mem_view (sv_db (w_server w')) (logined_key ''alice'') \<noteq> None)"
proof (rule test_orphaned)
  fix ac w
  assume r: "reachable test_pb (RedisService mem_redis) (test_acceptor, test_world) (ac, w)"
    and o: "mem_view (sv_db (w_server w)) (logined_key ''alice'') \<noteq> None"
      "\<forall>t. hash_at (mem_view (sv_db (w_server w))) (client_key t) ''loginId'' \<noteq> Some ''alice''"
  show ?thesis
    using orphaned_login_is_permanent [OF mem.redis_live_axioms test_pb_ok test_init r o] r by blast
qed

text \<open>C6: the program does not fault when the clients wait for their answers: in every history in which
  no bytes of a client arrive while a write to it is outstanding, every completion whose system calls
  succeed and whose read is not shorter than a header is handled without an exception, without the use of a
  released write buffer and without any other undefined behaviour, whatever bytes the clients send.\<close>

theorem no_fault:
  assumes "redis_live R view glob" and "pb_ok pb" and "sys_init view x0" and "polite_reachable pb (RedisService R) x0 x"
    and "enabled ev x" and "orderly ev" and "polite ev x"
  shows "fst (sys_next pb (RedisService R) ev x) = Inr ()"
  by (rule redis_live.polite_no_fault [OF assms(1,4,3,2,5-7)])

text \<open>C7: in every reachable state the table of connected clients is consistent with the client
  objects: each entry's object is alive, carries the key as its token, has all handlers installed, a
  receive buffer of full size and exactly one outstanding read; a client outside the table reads no
  more; no two client objects share a token; the tokens in use of the pool are exactly those of the live
  objects, so every destroyed object has given its token back; and Redis has a session for exactly the
  clients of the table.\<close>

theorem connected_clients_consistent:
  assumes "redis_live R view glob" and "pb_ok pb" and "sys_init view x0" and "reachable pb (RedisService R) x0 (ac, w)"
  shows "objects_ok pb (sv_clients (w_server w)) (sv_connectedClients (w_server w)) (used (w_pool w)) (w_next w)
    \<and> used (w_pool w) = {cs_token c | r c. sv_clients (w_server w) r = Some c}
    \<and> {t. view (sv_db (w_server w)) (client_key t) \<noteq> None} = fst ` set (sv_connectedClients (w_server w))"
proof -
  obtain a where inv: "sys_inv pb view w a" using redis_live.reachable_inv [OF assms(1,4,3,2)] by auto
  then have rel: "auth_rel (view (sv_db (w_server w))) a"
    and ok: "objects_ok pb (sv_clients (w_server w)) (sv_connectedClients (w_server w)) (used (w_pool w)) (w_next w)"
    and dom: "dom (sessions a) = {t. map_find t (sv_connectedClients (w_server w)) \<noteq> None}"
    by (simp_all add: sys_inv_def)
  have "{t. view (sv_db (w_server w)) (client_key t) \<noteq> None} = dom (sessions a)"
    using auth_reads(6) [OF rel] by auto
  also have "\<dots> = fst ` set (sv_connectedClients (w_server w))"
    unfolding dom using map_find_keys [OF objects_okD(1) [OF ok]] by simp
  finally show ?thesis using ok objects_used [OF ok] by (intro conjI)
qed

theorem one_client_per_account_witness:
  "\<exists>ac w. reachable test_pb (RedisService mem_redis) (test_acceptor, test_world) (ac, w)
     \<and> hash_at (mem_view (sv_db (w_server w))) (client_key 5) ''loginId'' = Some ''alice''
     \<and> hash_at (mem_view (sv_db (w_server w))) (logined_key ''alice'') ''token'' = Some (to_string_u64 5)"
proof (rule test_logins)
  fix ac w
  assume r: "reachable test_pb (RedisService mem_redis) (test_acceptor, test_world) (ac, w)"
    and l: "hash_at (mem_view (sv_db (w_server w))) (client_key 5) ''loginId'' = Some ''alice''"
  then show ?thesis
    using one_client_per_account [OF mem.redis_live_axioms test_pb_ok test_init r l] by blast
qed

theorem no_fault_witness:
  "\<exists>x. polite_reachable test_pb (RedisService mem_redis) (test_acceptor, test_world) x
     \<and> fst (sys_next test_pb (RedisService mem_redis) (ReadEv 0 None (test_packet 1)) x) = Inr ()"
proof (rule test_connected)
  fix ac w
  assume r: "polite_reachable test_pb (RedisService mem_redis) (test_acceptor, test_world) (ac, w)"
    and c: "map_option (\<lambda>c. (cs_reading c, cs_writing c)) (sv_clients (w_server w) 0) = Some (1, [])"
  let ?ev = "ReadEv 0 None (test_packet 1)"
  have "enabled ?ev (ac, w)" "orderly ?ev" "polite ?ev (ac, w)"
    using c test_packet_whole(2) [of 1] by (auto simp: test_packet_def split: option.splits)
  from no_fault [OF mem.redis_live_axioms test_pb_ok test_init r this] r show ?thesis by blast
qed

theorem connected_clients_consistent_witness:
  "\<exists>ac w. reachable test_pb (RedisService mem_redis) (test_acceptor, test_world) (ac, w)
     \<and> 5 \<in> {t. mem_view (sv_db (w_server w)) (client_key t) \<noteq> None} \<and> 5 \<in> used (w_pool w)"
proof (rule test_connected)
  fix ac w
  assume r: "reachable test_pb (RedisService mem_redis) (test_acceptor, test_world) (ac, w)"
    and f: "map_find 5 (sv_connectedClients (w_server w)) = Some 0"
  have all: "objects_ok test_pb (sv_clients (w_server w)) (sv_connectedClients (w_server w)) (used (w_pool w)) (w_next w)"
    and keys: "{t. mem_view (sv_db (w_server w)) (client_key t) \<noteq> None} = fst ` set (sv_connectedClients (w_server w))"
    using connected_clients_consistent [OF mem.redis_live_axioms test_pb_ok test_init r] by blast+
  note ok = objects_okD(1) [OF all]
  from f ok have "5 \<in> fst ` set (sv_connectedClients (w_server w))"
    using map_find_keys [OF ok] by blast
  moreover have "5 \<in> used (w_pool w)" by (rule connected_token_used [OF all f])
  ultimately show ?thesis using r keys by blast
qed

text \<open>C8: from the wire to the answer. In any reachable state, when a connected client sends one whole
  packet that holds a login request with the right password for an account nobody is logged in to, the
  server's next step makes it the logged in client of that account and puts the positive answer at the
  end of its write queue.\<close>

theorem login_over_the_wire:
  assumes "redis_live R view glob" and "pb_ok pb" and "sys_init view x0" and "reachable pb (RedisService R) x0 (ac, w)"
    and "map_find t (sv_connectedClients (w_server w)) = Some r"
    and "received = append_prot_packet [] (REQUEST_LOGIN pb) (of_nat (length received)) @ payload"
    and "length received \<le> RECV_BUFFER_SIZE" and "parse_login pb payload = Some m"
    and "hash_at (view (sv_db (w_server w))) (id_key (rl_id m)) ''password'' = Some (sha256 (rl_password m))"
    and "view (sv_db (w_server w)) (logined_key (rl_id m)) = None"
  shows "\<exists>w' c'. sys_next pb (RedisService R) (ReadEv r None received) (ac, w) = (Inr (), (ac, w'))
    \<and> hash_at (view (sv_db (w_server w'))) (client_key t) ''loginId'' = Some (rl_id m)
    \<and> view (sv_db (w_server w')) (logined_key (rl_id m)) \<noteq> None
    \<and> sv_clients (w_server w') r = Some c'
    \<and> last (cs_writeBufferQueue c') = login_packet pb \<lparr>res_result = True, res_message = ''ok''\<rparr>"
proof -
  obtain a where inv: "sys_inv pb view w a" using redis_live.reachable_inv [OF assms(1,4,3,2)] by auto
  have "login_error a m = None"
    using login_error_view [of "view (sv_db (w_server w))" a m] inv assms(9,10) by (simp add: sys_inv_def)
  then have login: "auth_login t m a = (\<lparr>res_result = True, res_message = ''ok''\<rparr>,
      a\<lparr>sessions := (sessions a)(t \<mapsto> Some (rl_id m)), online := (online a)(rl_id m \<mapsto> t)\<rparr>)"
    by (simp add: auth_login_def)
  obtain w' and c :: socket and c' where s: "sys_next pb (RedisService R) (ReadEv r None received) (ac, w) = (Inr (), (ac, w'))"
    and inv': "sys_inv pb view w' (snd (auth_login t m a))"
    and c': "sv_clients (w_server w') r = Some c'"
      "cs_writeBufferQueue c' = cs_writeBufferQueue c @ [login_packet pb (fst (auth_login t m a))]"
    using redis_live.read_login [OF assms(1) inv assms(2,5-8)] by blast
  have rel: "auth_rel (view (sv_db (w_server w'))) (snd (auth_login t m a))" using inv' by (simp add: sys_inv_def)
  have "hash_at (view (sv_db (w_server w'))) (client_key t) ''loginId'' = Some (rl_id m)"
    using session_of_view [OF rel, of t "rl_id m"] login by simp
  moreover have "view (sv_db (w_server w')) (logined_key (rl_id m)) \<noteq> None"
    using auth_reads(9) [OF rel, of "rl_id m"] login by simp
  ultimately show ?thesis using s c' login by simp
qed

theorem login_over_the_wire_witness:
  "\<exists>ac w w'. reachable test_pb (RedisService mem_redis) (test_acceptor, test_world) (ac, w)
     \<and> sys_next test_pb (RedisService mem_redis) (ReadEv 0 None (test_packet 1)) (ac, w) = (Inr (), (ac, w'))
     \<and> mem_view (sv_db (w_server w')) (logined_key ''alice'') \<noteq> None"
proof (rule test_connected)
  fix ac w
  assume r: "reachable test_pb (RedisService mem_redis) (test_acceptor, test_world) (ac, w)"
    and f: "map_find 5 (sv_connectedClients (w_server w)) = Some 0"
    and acc: "hash_at (mem_view (sv_db (w_server w))) (id_key ''alice'') ''password'' = Some (sha256 ''secret'')"
    and off: "mem_view (sv_db (w_server w)) (logined_key ''alice'') = None"
  have "hash_at (mem_view (sv_db (w_server w))) (id_key (rl_id test_login)) ''password'' = Some (sha256 (rl_password test_login))"
    "mem_view (sv_db (w_server w)) (logined_key (rl_id test_login)) = None"
    using acc off by (simp_all add: test_login_def)
  from login_over_the_wire [OF mem.redis_live_axioms test_pb_ok test_init r f test_packet_whole test_parse(1) this]
  show ?thesis using r by (auto simp: test_login_def)
qed

end
