(* ===== verification/Std_Conv.thy ===== *)
theory Std_Conv
  imports Prelude
begin

text \<open>
  The conversions of the C++ standard library that the sources use to read decimal numbers back:
  \<^verbatim>\<open>std::stoi\<close> (the port in \<^verbatim>\<open>main.cpp\<close>, the session limit) and
  \<^verbatim>\<open>std::stoull\<close> (tokens kept in Redis), with the round trips through
  \<^verbatim>\<open>std::to_string\<close>.
\<close>

section \<open>std::stoi and std::stoull\<close>

text \<open>
  White space, an optional sign, decimal digits; what follows them is ignored. No digit is an
  \<^verbatim>\<open>invalid_argument\<close>, a value that is not an \<^verbatim>\<open>int\<close> an \<^verbatim>\<open>out_of_range\<close>. A minus
  sign before the digits of an unsigned number negates it modulo \<open>2 ^ 64\<close>.
\<close>

definition is_space :: "char \<Rightarrow> bool" where
  "is_space c \<longleftrightarrow> of_char c \<in> {9, 10, 11, 12, 13, 32 :: nat}"

definition is_digit :: "char \<Rightarrow> bool" where
  "is_digit c \<longleftrightarrow> 48 \<le> (of_char c :: nat) \<and> (of_char c :: nat) \<le> 57"

definition signed_digits :: "string \<Rightarrow> int \<times> string" where
  "signed_digits s =
     (case s of
        [] \<Rightarrow> (1, [])
      | c # cs \<Rightarrow>
          if c = CHR ''-'' then (-1, takeWhile is_digit cs)
          else if c = CHR ''+'' then (1, takeWhile is_digit cs)
          else (1, takeWhile is_digit s))"

definition stoi :: "string \<Rightarrow> fault + int" where
  "stoi str =
     (let (sign, ds) = signed_digits (dropWhile is_space str);
          n = sign * int (dec_value ds)
      in if ds = [] then Inl InvalidArgument
         else if n < - (2 ^ 31) \<or> 2 ^ 31 \<le> n then Inl OutOfRange
         else Inr n)"

definition stoull :: "string \<Rightarrow> fault + uint64" where
  "stoull str =
     (let (sign, ds) = signed_digits (dropWhile is_space str)
      in if ds = [] then Inl InvalidArgument
         else if 2 ^ 64 \<le> dec_value ds then Inl OutOfRange
         else Inr (of_int (sign * int (dec_value ds))))"

lemma is_digit_char: "d < 10 \<Longrightarrow> is_digit (digit_char d)"
  by (simp add: is_digit_def of_char_digit_char)

lemma dec_of_nat_all_digits: "c \<in> set (dec_of_nat n) \<Longrightarrow> is_digit c"
  using dec_of_nat_digits is_digit_char by blast

lemma digit_not_sign: "is_digit c \<Longrightarrow> c \<noteq> CHR ''-'' \<and> c \<noteq> CHR ''+'' \<and> \<not> is_space c"
  by (auto simp: is_digit_def is_space_def)

lemma takeWhile_digits: "takeWhile is_digit (dec_of_nat n) = dec_of_nat n"
  by (simp add: takeWhile_eq_all_conv dec_of_nat_all_digits)

lemma dec_of_nat_start:
  obtains c cs where "dec_of_nat n = c # cs" "is_digit c"
  using dec_of_nat_all_digits [of _ n] by (cases "dec_of_nat n") auto

lemma signed_digits_dec: "signed_digits (dec_of_nat n) = (1, dec_of_nat n)"
proof (rule dec_of_nat_start [of n])
  fix c cs assume "dec_of_nat n = c # cs" "is_digit c"
  then show ?thesis using digit_not_sign [of c] takeWhile_digits [of n] by (simp add: signed_digits_def)
qed

lemma dropWhile_space_dec: "dropWhile is_space (dec_of_nat n) = dec_of_nat n"
proof (rule dec_of_nat_start [of n])
  fix c cs assume "dec_of_nat n = c # cs" "is_digit c"
  then show ?thesis using digit_not_sign [of c] by simp
qed

lemma stoi_to_string:
  "stoi (to_string_int n) = (if n < - (2 ^ 31) \<or> 2 ^ 31 \<le> n then Inl OutOfRange else Inr n)"
proof (cases "n < 0")
  case True
  have "\<not> is_space (CHR ''-'')" by (simp add: is_space_def)
  with True show ?thesis
    by (simp add: stoi_def to_string_int_def signed_digits_def takeWhile_digits)
next
  case False
  then show ?thesis
    by (simp add: stoi_def to_string_int_def dropWhile_space_dec signed_digits_dec)
qed

lemma stoull_to_string [simp]: "stoull (to_string_u64 t) = Inr t"
proof -
  have "unat t < 2 ^ LENGTH(64)" by (rule unsigned_less)
  then show ?thesis
    by (simp add: stoull_def to_string_u64_def dropWhile_space_dec signed_digits_dec)
qed

lemma to_string_int_nonneg: "to_string_int (int n) = dec_of_nat n"
  by (simp add: to_string_int_def)

lemma stoi_dec: "n < 2 ^ 31 \<Longrightarrow> stoi (dec_of_nat n) = Inr (int n)"
  using stoi_to_string [of "int n"] by (simp add: to_string_int_nonneg)

lemma stoull_dec: "n < 2 ^ 64 \<Longrightarrow> stoull (dec_of_nat n) = Inr (of_nat n)"
  by (simp add: stoull_def dropWhile_space_dec signed_digits_dec)

end
