(* ===== verification/Startup.thy ===== *)
theory Startup
  imports System_Inv Std_Conv
begin

text \<open>
  \<^verbatim>\<open>src/main.cpp\<close>: the environment, \<^verbatim>\<open>std::stoi\<close> on the port, the connection to Redis, the
  removal of stale sessions, the acceptor and the io threads. \<open>main\<close> is a function of what it asks
  its surroundings for: the environment, the connection (\<open>connect\<close>), the outcome of the listening
  socket's system calls and the number of hardware threads. Its result is the exit code, an exception
  that leaves \<^verbatim>\<open>main\<close>, or the state in which the io threads start to run the completion
  handlers of \<open>System\<close>. \<open>run_program\<close> goes on from there: the completions that the threads
  execute, the signal, and the end of \<^verbatim>\<open>main\<close>.
\<close>

section \<open>Start-up\<close>

definition cleanup :: "'d IRedis \<Rightarrow> ('d, unit) comp" where
  "cleanup rs =
     seqM (Ping rs)
    (bindM (Scan rs ''client:*'') (\<lambda>scanResult.
     bindM (Scan rs ''logined:*'') (\<lambda>scanResult2.
     forM (scanResult @ scanResult2) (\<lambda>key. seqM (Del rs key) (ret ())))))"

definition concurrency :: "uint32 \<Rightarrow> uint32" where
  "concurrency hardware = (let c = hardware div 2 in if c = 0 then 1 else c)"

datatype 'd outcome =
    Exited int
  | Uncaught fault
  | Running "Acceptor \<times> 'd world" uint32

text \<open>The two handlers at the end of \<^verbatim>\<open>main\<close>: a Redis error is thrown on, any other
  \<^verbatim>\<open>std::exception\<close> is printed, and \<^verbatim>\<open>main\<close> returns 0.\<close>

fun caught :: "fault \<Rightarrow> 'd outcome" where
  "caught (RedisError e) = Uncaught (RedisError e)"
| "caught (Undefined e) = Uncaught (Undefined e)"
| "caught Terminated = Uncaught Terminated"
| "caught OutOfFuel = Uncaught OutOfFuel"
| "caught (RuntimeError e) = Exited 0"
| "caught InvalidArgument = Exited 0"
| "caught OutOfRange = Exited 0"
| "caught (SystemError e) = Exited 0"

definition initial_world :: "int \<Rightarrow> 'd \<Rightarrow> 'd world" where
  "initial_world clock d =
     \<lparr>w_server = \<lparr>sv_db = d, sv_clients = Map.empty, sv_connectedClients = [], sv_clock = clock\<rparr>,
      w_pool = \<lparr>used = {}, draws = []\<rparr>, w_next = 0\<rparr>"

record 'd surroundings =
  su_getenv :: "string \<Rightarrow> string option"
  su_connect :: "string \<Rightarrow> int \<Rightarrow> fault + 'd redis_client"
  su_bind_error :: "string option"
  su_option_error :: "string option"
  su_hardware :: uint32
  su_clock :: int

definition serve :: "'d surroundings \<Rightarrow> int \<Rightarrow> 'd \<Rightarrow> 'd outcome \<times> 'd" where
  \<comment> \<open>the body of the second \<^verbatim>\<open>try\<close>\<close>
  "serve su port d =
     (case RedisService_ctor (su_connect su) (Some ''redis'') 6379 of
        Inl e \<Rightarrow> (caught e, d)
      | Inr r \<Rightarrow>
          (case cleanup (RedisService r) d of
             (Inl e, d') \<Rightarrow> (caught e, d')
           | (Inr _, d') \<Rightarrow>
               (case Acceptor_ctor (su_bind_error su) (su_option_error su) (of_int port) of
                  Inl e \<Rightarrow> (caught e, d')
                | Inr acceptor \<Rightarrow>
                    (Running (Accept acceptor, initial_world (su_clock su) d') (concurrency (su_hardware su)), d'))))"

definition main :: "'d surroundings \<Rightarrow> 'd \<Rightarrow> 'd outcome \<times> 'd" where
  "main su d =
     (case su_getenv su ''GIT_COMMIT_SHA'' of
        None \<Rightarrow> (Exited (-1), d)
      | Some _ \<Rightarrow>
          (case su_getenv su ''ISOLATION_SERVER_LISTENING_PORT'' of
             None \<Rightarrow> (Exited (-1), d)
           | Some envPort \<Rightarrow>
               (case stoi envPort of
                  Inl e \<Rightarrow> (Exited (if e = InvalidArgument then -2 else -3), d)
                | Inr port \<Rightarrow> serve su port d)))"

section \<open>The io threads and the end\<close>

text \<open>
  What keeps \<^verbatim>\<open>io_context::run\<close> from returning: the work guard, and the stop flag not being
  set. The signal handler clears both, unless its wait was cancelled.
\<close>

record io_context =
  io_guard :: bool
  io_stopped :: bool

definition on_signal :: "string option \<Rightarrow> io_context \<Rightarrow> io_context" where
  "on_signal error io = (if error = None then io\<lparr>io_guard := False, io_stopped := True\<rparr> else io)"

definition run_returns :: "io_context \<Rightarrow> Acceptor \<times> 'd world \<Rightarrow> bool" where
  \<comment> \<open>\<^verbatim>\<open>run\<close> returns when it is stopped, or without a guard and without outstanding operations\<close>
  "run_returns io x \<longleftrightarrow>
     io_stopped io
     \<or> \<not> io_guard io \<and> ac_pending (fst x) = 0
       \<and> (\<forall>c\<in>ran (sv_clients (w_server (snd x))). cs_reading c = 0 \<and> cs_writing c = [])"

text \<open>The completions that arrive, in order; one whose operation is not outstanding does not happen.\<close>

fun sys_run :: "protobuf \<Rightarrow> 'd IRedis \<Rightarrow> sys_event list \<Rightarrow> (Acceptor \<times> 'd world, unit) comp" where
  "sys_run pb rs [] x = (Inr (), x)"
| "sys_run pb rs (ev # evs) x =
     (if enabled ev x then
        (case sys_next pb rs ev x of (Inl e, x') \<Rightarrow> (Inl e, x') | (Inr _, x') \<Rightarrow> sys_run pb rs evs x')
      else sys_run pb rs evs x)"

text \<open>An exception that leaves the function of a \<^verbatim>\<open>std::thread\<close> ends the program.\<close>

fun thread_fault :: "fault \<Rightarrow> fault" where
  "thread_fault (Undefined e) = Undefined e"
| "thread_fault _ = Terminated"

text \<open>
  The whole of \<^verbatim>\<open>main\<close>: start-up, the completions \<open>evs\<close>, then the outcome \<open>error\<close> of
  waiting for a signal, the join of the threads, and \<^verbatim>\<open>return 0\<close>. The database is the one that is
  left behind.
\<close>

definition run_program ::
  "protobuf \<Rightarrow> 'd surroundings \<Rightarrow> sys_event list \<Rightarrow> string option \<Rightarrow> 'd \<Rightarrow> 'd outcome \<times> 'd" where
  "run_program pb su evs error d =
     (case (main su d, RedisService_ctor (su_connect su) (Some ''redis'') 6379) of
        ((Running x n, d'), Inr r) \<Rightarrow>
          (case sys_run pb (RedisService r) evs x of
             (Inl e, x') \<Rightarrow> (Uncaught (thread_fault e), sv_db (w_server (snd x')))
           | (Inr _, x') \<Rightarrow>
               (if run_returns (on_signal error \<lparr>io_guard = True, io_stopped = False\<rparr>) x'
                then Exited 0 else Running x' n, sv_db (w_server (snd x'))))
      | (res, _) \<Rightarrow> res)"

section \<open>Lemmas\<close>

lemma sys_run_reachable:
  assumes "sys_run pb rs evs x = (Inr (), x')" and "reachable pb rs x0 x"
  shows "reachable pb rs x0 x'"
  using assms
proof (induction evs arbitrary: x)
  case (Cons ev evs)
  then show ?case
    by (cases "enabled ev x") (auto split: prod.splits sum.splits intro: reach_step)
qed simp

lemma stoi_error: "stoi str = Inl e \<Longrightarrow> e = InvalidArgument \<or> e = OutOfRange"
  by (auto simp: stoi_def Let_def split: prod.splits if_splits)

text \<open>What \<^verbatim>\<open>stoi\<close> makes of the port, when both variables are set.\<close>

definition port_setting :: "'d surroundings \<Rightarrow> (fault + int) option" where
  "port_setting su =
     (case (su_getenv su ''GIT_COMMIT_SHA'', su_getenv su ''ISOLATION_SERVER_LISTENING_PORT'') of
        (Some _, Some p) \<Rightarrow> Some (stoi p)
      | _ \<Rightarrow> None)"

lemma main_cases:
  assumes ctor: "RedisService_ctor (su_connect su) (Some ''redis'') 6379 = Inr R"
    and ok: "fst (cleanup (RedisService R) d) = Inr ()"
  shows "main su d = (Exited (-1), d') \<longleftrightarrow>
      d' = d \<and> (su_getenv su ''GIT_COMMIT_SHA'' = None \<or> su_getenv su ''ISOLATION_SERVER_LISTENING_PORT'' = None)"
    "main su d = (Exited (-2), d') \<longleftrightarrow> d' = d \<and> port_setting su = Some (Inl InvalidArgument)"
    "main su d = (Exited (-3), d') \<longleftrightarrow> d' = d \<and> port_setting su = Some (Inl OutOfRange)"
    "main su d = (Exited 0, d') \<longleftrightarrow> d' = snd (cleanup (RedisService R) d)
       \<and> (\<exists>port. port_setting su = Some (Inr port)) \<and> su_bind_error su \<noteq> None"
    "(\<exists>x n. main su d = (Running x n, d')) \<longleftrightarrow> d' = snd (cleanup (RedisService R) d)
       \<and> (\<exists>port. port_setting su = Some (Inr port)) \<and> su_bind_error su = None"
    "fst (main su d) \<noteq> Uncaught e" "snd (main su d) \<in> {d, snd (cleanup (RedisService R) d)}"
proof -
  have c: "cleanup (RedisService R) d = (Inr (), snd (cleanup (RedisService R) d))"
    using ok by (simp add: prod_eq_iff)
  have serve: "serve su port d =
      (case su_bind_error su of
         Some e \<Rightarrow> (Exited 0, snd (cleanup (RedisService R) d))
       | None \<Rightarrow> (Running (Accept \<lparr>ac_port = of_int port, ac_open = True, ac_isStopped = False, ac_pending = 0\<rparr>,
             initial_world (su_clock su) (snd (cleanup (RedisService R) d))) (concurrency (su_hardware su)),
             snd (cleanup (RedisService R) d)))" for port
    by (subst serve_def, subst ctor, simp, subst c) (simp add: Acceptor_ctor_def split: option.split)
  note defs = main_def serve port_setting_def
  show "main su d = (Exited (-1), d') \<longleftrightarrow>
      d' = d \<and> (su_getenv su ''GIT_COMMIT_SHA'' = None \<or> su_getenv su ''ISOLATION_SERVER_LISTENING_PORT'' = None)"
    "main su d = (Exited (-2), d') \<longleftrightarrow> d' = d \<and> port_setting su = Some (Inl InvalidArgument)"
    "main su d = (Exited (-3), d') \<longleftrightarrow> d' = d \<and> port_setting su = Some (Inl OutOfRange)"
    "main su d = (Exited 0, d') \<longleftrightarrow> d' = snd (cleanup (RedisService R) d)
       \<and> (\<exists>port. port_setting su = Some (Inr port)) \<and> su_bind_error su \<noteq> None"
    "(\<exists>x n. main su d = (Running x n, d')) \<longleftrightarrow> d' = snd (cleanup (RedisService R) d)
       \<and> (\<exists>port. port_setting su = Some (Inr port)) \<and> su_bind_error su = None"
    "fst (main su d) \<noteq> Uncaught e" "snd (main su d) \<in> {d, snd (cleanup (RedisService R) d)}"
    by (auto simp: defs split: option.splits sum.splits dest: stoi_error)
qed

lemma Scan_page:
  "RedisService_Scan r pat d = (case rc_scan r 0 pat d of (Inl e, d') \<Rightarrow> (Inl e, d') | (Inr (c, page), d') \<Rightarrow> (Inr page, d'))"
  by (simp add: RedisService_Scan_def bindM_def ret_def split: prod.split sum.split)

definition stale_key :: "string \<Rightarrow> bool" where
  "stale_key k \<longleftrightarrow> prefix ''client:'' k \<or> prefix ''logined:'' k"

lemma stale_key_simps [simp]: "stale_key (client_key t)" "stale_key (logined_key i)" "\<not> stale_key (id_key i)"
  by (simp_all add: stale_key_def client_key_def logined_key_def id_key_def)

definition one_page :: "'d redis_client \<Rightarrow> ('d \<Rightarrow> view) \<Rightarrow> 'd \<Rightarrow> bool" where
  \<comment> \<open>the first reply of SCAN has the cursor 0. Redis takes about ten keys of the whole keyspace for a
    reply and then applies the pattern, so this bounds the number of all keys, accounts included\<close>
  "one_page R view d \<longleftrightarrow>
     (\<forall>d' p. view d' = view d \<and> p \<in> {''client:*'', ''logined:*''} \<longrightarrow> (\<exists>ks. fst (rc_scan R 0 p d') = Inr (0, ks)))"

context redis_live
begin

lemma delete_all:
  "fst (forM ks (\<lambda>key. seqM (Del (RedisService R) key) (ret ())) d) = Inr ()
   \<and> view (snd (forM ks (\<lambda>key. seqM (Del (RedisService R) key) (ret ())) d))
     = (\<lambda>k. if k \<in> set ks then None else view d k)"
proof (induction ks arbitrary: d)
  case (Cons key ks)
  have "fst (seqM (Del (RedisService R) key) (ret ()) d) = Inr ()"
    "view (snd (seqM (Del (RedisService R) key) (ret ()) d)) = (view d)(key := None)"
    using svc.Del_ok [of key d] by (simp_all add: seqM_run)
  then show ?case using Cons.IH by (auto simp: seqM_run fun_eq_iff)
qed (simp add: fun_eq_iff)

lemma scan_ok:
  obtains c ks where "fst (rc_scan R 0 p d) = Inr (c, ks)" "fst (Scan (RedisService R) p d) = Inr ks"
    "view (snd (Scan (RedisService R) p d)) = view d" "set ks \<subseteq> {k. view d k \<noteq> None \<and> glob p k}"
    "c = 0 \<longrightarrow> set ks = {k. view d k \<noteq> None \<and> glob p k}"
proof -
  obtain c ks d1 where p: "rc_scan R 0 p d = (Inr (c, ks), d1)"
    using scan_live [of 0 p d] by (metis surj_pair prod.collapse)
  then have s: "fst (rc_scan R 0 p d) = Inr (c, ks)" by simp
  have "Scan (RedisService R) p d = (Inr ks, d1)" by (simp add: RedisService_def Scan_page p)
  then show thesis
    using that [OF s] p scan_view [of 0 p d] scan_result [OF s] scan_whole [of p d ks] by simp
qed

lemma glob_patterns: "glob ''client:*'' k \<longleftrightarrow> prefix ''client:'' k" "glob ''logined:*'' k \<longleftrightarrow> prefix ''logined:'' k"
  using glob_prefix [of "''client:''" k] glob_prefix [of "''logined:''" k] by (simp_all add: plain_pattern_def)

lemma cleanup_effect:
  "\<exists>ks. fst (cleanup (RedisService R) d) = Inr ()
     \<and> view (snd (cleanup (RedisService R) d)) = (\<lambda>k. if k \<in> ks then None else view d k)
     \<and> ks \<subseteq> Collect stale_key \<and> (one_page R view d \<longrightarrow> {k. stale_key k \<and> view d k \<noteq> None} \<subseteq> ks)"
proof -
  obtain u where ping: "fst (Ping (RedisService R) d) = Inr u" "view (snd (Ping (RedisService R) d)) = view d"
    using ping_live [of d] by (auto simp: RedisService_def RedisService_Ping_def)
  let ?d1 = "snd (Ping (RedisService R) d)"
  obtain c1 ks1 where s1: "fst (rc_scan R 0 ''client:*'' ?d1) = Inr (c1, ks1)"
    "fst (Scan (RedisService R) ''client:*'' ?d1) = Inr ks1"
    "view (snd (Scan (RedisService R) ''client:*'' ?d1)) = view ?d1"
    "set ks1 \<subseteq> {k. view ?d1 k \<noteq> None \<and> glob ''client:*'' k}"
    "c1 = 0 \<longrightarrow> set ks1 = {k. view ?d1 k \<noteq> None \<and> glob ''client:*'' k}"
    by (rule scan_ok)
  let ?d2 = "snd (Scan (RedisService R) ''client:*'' ?d1)"
  obtain c2 ks2 where s2: "fst (rc_scan R 0 ''logined:*'' ?d2) = Inr (c2, ks2)"
    "fst (Scan (RedisService R) ''logined:*'' ?d2) = Inr ks2"
    "view (snd (Scan (RedisService R) ''logined:*'' ?d2)) = view ?d2"
    "set ks2 \<subseteq> {k. view ?d2 k \<noteq> None \<and> glob ''logined:*'' k}"
    "c2 = 0 \<longrightarrow> set ks2 = {k. view ?d2 k \<noteq> None \<and> glob ''logined:*'' k}"
    by (rule scan_ok)
  have run: "cleanup (RedisService R) d
      = forM (ks1 @ ks2) (\<lambda>key. seqM (Del (RedisService R) key) (ret ())) (snd (Scan (RedisService R) ''logined:*'' ?d2))"
    by (simp add: cleanup_def seqM_def ping(1) bindM_run s1(2) s2(2))
  have v: "view ?d1 = view d" "view ?d2 = view d" using ping(2) s1(3) by simp_all
  have all: "{k. stale_key k \<and> view d k \<noteq> None} \<subseteq> set ks1 \<union> set ks2" if op: "one_page R view d"
  proof -
    have "\<exists>ks. fst (rc_scan R 0 ''client:*'' ?d1) = Inr (0, ks)" "\<exists>ks. fst (rc_scan R 0 ''logined:*'' ?d2) = Inr (0, ks)"
      using op v by (auto simp: one_page_def)
    then have "c1 = 0" "c2 = 0" using s1(1) s2(1) by simp_all
    then show ?thesis using s1(5) s2(5) v by (auto simp: stale_key_def glob_patterns)
  qed
  have "set ks1 \<union> set ks2 \<subseteq> Collect stale_key" using s1(4) s2(4) by (auto simp: stale_key_def glob_patterns)
  then show ?thesis
    using delete_all [of "ks1 @ ks2" "snd (Scan (RedisService R) ''logined:*'' ?d2)"] all v s2(3)
    unfolding run by (intro exI [of _ "set ks1 \<union> set ks2"]) (simp add: fun_eq_iff)
qed

end

lemma cleaned_accounts:
  assumes "\<forall>i. account_rel (v (id_key i)) (acc i)"
    and "v' = (\<lambda>k. if k \<in> ks then None else v k)" and "ks \<subseteq> Collect stale_key"
    and "{k. stale_key k \<and> v k \<noteq> None} \<subseteq> ks"
  shows "auth_rel v' \<lparr>accounts = acc, sessions = Map.empty, online = Map.empty\<rparr>"
proof -
  have "v' (id_key i) = v (id_key i)" for i using assms(2,3) stale_key_simps(3) [of i] by auto
  moreover have "v' k = None" if "stale_key k" for k
    using assms(2,4) that by (cases "v k") auto
  ultimately show ?thesis using assms(1) by (simp add: auth_rel_def)
qed

lemma startup_init:
  assumes "redis_live R view glob" and "su_connect su ''redis'' 6379 = Inr R"
    and "su_getenv su ''GIT_COMMIT_SHA'' = Some sha" and "su_getenv su ''ISOLATION_SERVER_LISTENING_PORT'' = Some p"
    and "stoi p = Inr port" and "su_bind_error su = None"
    and "\<forall>i. account_rel (view d (id_key i)) (acc i)" and "one_page R view d"
  shows "\<exists>ac w n d'. main su d = (Running (ac, w) n, d') \<and> sys_init view (ac, w) \<and> ac_pending ac = 1 \<and> n \<noteq> 0
    \<and> (\<forall>i. account_rel (view (sv_db (w_server w)) (id_key i)) (acc i))"
proof -
  define d' where "d' = snd (cleanup (RedisService R) d)"
  obtain ks where fst: "fst (cleanup (RedisService R) d) = Inr ()"
    and v: "view d' = (\<lambda>k. if k \<in> ks then None else view d k)"
    and ks: "ks \<subseteq> Collect stale_key" "{k. stale_key k \<and> view d k \<noteq> None} \<subseteq> ks"
    using redis_live.cleanup_effect [OF assms(1), of d] assms(8) unfolding d'_def by blast
  have c: "cleanup (RedisService R) d = (Inr (), d')" using fst by (simp add: d'_def prod_eq_iff)
  have rel: "auth_rel (view d') \<lparr>accounts = acc, sessions = Map.empty, online = Map.empty\<rparr>"
    by (rule cleaned_accounts [OF assms(7) v ks])
  let ?ac = "Accept \<lparr>ac_port = of_int port, ac_open = True, ac_isStopped = False, ac_pending = 0\<rparr>"
  have "main su d = (Running (?ac, initial_world (su_clock su) d') (concurrency (su_hardware su)), d')"
    using assms(2-6) c by (simp add: main_def serve_def RedisService_ctor_def Acceptor_ctor_def)
  moreover have "sys_init view (?ac, initial_world (su_clock su) d')"
    using rel by (auto simp: sys_init_def initial_world_def no_sessions_def)
  moreover have "concurrency (su_hardware su) \<noteq> 0" by (simp add: concurrency_def Let_def)
  moreover have "account_rel (view d' (id_key i)) (acc i)" for i using auth_relD(1) [OF rel, of i] by simp
  ultimately show ?thesis by (auto simp: Accept_def initial_world_def)
qed

end
