(* ===== verification/Startup_Properties.thy ===== *)
theory Startup_Properties
  imports Startup Fixtures
begin

text \<open>
  The properties of \<^verbatim>\<open>main\<close>: what it establishes before the io threads run (the initial state
  that the invariant of the running program starts from), and where it falls short.
\<close>

section \<open>Properties\<close>

text \<open>C9: start-up establishes the initial state of the running program. With the environment set, a
  port that \<^verbatim>\<open>std::stoi\<close> reads, a live Redis, a listening socket that binds, whole accounts in
  the database, and so few keys in all that the first reply of SCAN is the last one (\<^verbatim>\<open>main\<close> asks
  for no further one), \<^verbatim>\<open>main\<close> reaches the io threads,
  at least one of them, with one \<^verbatim>\<open>async_accept\<close> outstanding, no session left in Redis and
  every account kept.\<close>

theorem startup_reaches_initial_state:
  assumes "redis_live R view glob" and "su_connect su ''redis'' 6379 = Inr R"
    and "su_getenv su ''GIT_COMMIT_SHA'' = Some sha" and "su_getenv su ''ISOLATION_SERVER_LISTENING_PORT'' = Some p"
    and "stoi p = Inr port" and "su_bind_error su = None"
    and "\<forall>i. account_rel (view d (id_key i)) (acc i)" and "one_page R view d"
  shows "\<exists>ac w n d'. main su d = (Running (ac, w) n, d') \<and> sys_init view (ac, w) \<and> ac_pending ac = 1 \<and> n \<noteq> 0
    \<and> (\<forall>i. account_rel (view (sv_db (w_server w)) (id_key i)) (acc i))"
  using assms by (rule startup_init)

definition test_surroundings :: "memdb surroundings" where
  "test_surroundings =
     \<lparr>su_getenv = [''GIT_COMMIT_SHA'' \<mapsto> ''abc'', ''ISOLATION_SERVER_LISTENING_PORT'' \<mapsto> to_string_int 70000],
      su_connect = (\<lambda>host port. Inr mem_redis), su_bind_error = None, su_option_error = None,
      su_hardware = 8, su_clock = 0\<rparr>"

lemma test_surroundings_facts [simp]:
  "su_getenv test_surroundings ''GIT_COMMIT_SHA'' = Some ''abc''"
  "su_getenv test_surroundings ''ISOLATION_SERVER_LISTENING_PORT'' = Some (to_string_int 70000)"
  "su_connect test_surroundings h p = Inr mem_redis" "su_bind_error test_surroundings = None"
  by (simp_all add: test_surroundings_def)

lemma mem_one_page:
  assumes "card (dom (mem_view d)) \<le> 10"
  shows "one_page mem_redis mem_view d"
proof -
  have "length (remdups (map fst d')) \<le> 10" if "mem_view d' = mem_view d" for d'
    using that assms by (simp add: length_remdups_card_conv dom_map_of_conv_image_fst [symmetric] mem_view_def)
  then show ?thesis by (simp add: one_page_def mem_redis_def mem_scan_apply)
qed

text \<open>A database that a server left behind while a client was logged in.\<close>

definition stale_db :: memdb where
  "stale_db =
     [(id_key ''alice'', test_account_value), (client_key 5, RHash [''loginId'' \<mapsto> ''alice'']),
      (logined_key ''alice'', RHash [''token'' \<mapsto> ''5''])]"

lemma stale_db_facts:
  "one_page mem_redis mem_view stale_db"
  "\<forall>i. account_rel (mem_view stale_db (id_key i)) (if i = ''alice'' then Some test_account else None)"
proof -
  have "card (dom (mem_view stale_db)) \<le> card (set (map fst stale_db))"
    by (simp add: mem_view_def dom_map_of_conv_image_fst)
  also have "\<dots> \<le> length stale_db" using card_length [of "map fst stale_db"] by simp
  finally show "one_page mem_redis mem_view stale_db" by (intro mem_one_page) (simp add: stale_db_def)
  show "\<forall>i. account_rel (mem_view stale_db (id_key i)) (if i = ''alice'' then Some test_account else None)"
    by (auto simp: mem_view_def stale_db_def test_account_value_def test_account_def)
qed

theorem startup_reaches_initial_state_witness:
  "mem_view stale_db (client_key 5) \<noteq> None \<and> mem_view stale_db (logined_key ''alice'') \<noteq> None
   \<and> (\<exists>ac w n d'. main test_surroundings stale_db = (Running (ac, w) n, d') \<and> sys_init mem_view (ac, w)
        \<and> mem_view (sv_db (w_server w)) (client_key 5) = None
        \<and> mem_view (sv_db (w_server w)) (logined_key ''alice'') = None
        \<and> account_rel (mem_view (sv_db (w_server w)) (id_key ''alice'')) (Some test_account))"
proof -
  obtain ac w n d' where m: "main test_surroundings stale_db = (Running (ac, w) n, d')"
    and i: "sys_init mem_view (ac, w)"
    and a: "\<forall>i. account_rel (mem_view (sv_db (w_server w)) (id_key i)) (if i = ''alice'' then Some test_account else None)"
    using startup_reaches_initial_state [OF mem.redis_live_axioms _ _ _ _ _ stale_db_facts(2,1), of test_surroundings
        "''abc''" "to_string_int 70000" 70000]
    by (auto simp: stoi_to_string)
  have "mem_view (sv_db (w_server w)) (client_key 5) = None"
    "mem_view (sv_db (w_server w)) (logined_key ''alice'') = None"
    using mem.sys_init_no_sessions [OF i] by simp_all
  moreover have "mem_view stale_db (client_key 5) \<noteq> None" "mem_view stale_db (logined_key ''alice'') \<noteq> None"
    by (simp_all add: stale_db_def mem_view_def)
  ultimately show ?thesis using m i spec [OF a, of "''alice''"] by auto
qed

text \<open>C22: whatever SCAN returns, the removal of stale sessions returns, deletes only keys of the two
  stale groups, and changes no account.\<close>

theorem cleanup_keeps_accounts:
  assumes "redis_live R view glob"
  shows "fst (cleanup (RedisService R) d) = Inr ()
    \<and> (\<forall>k. view (snd (cleanup (RedisService R) d)) k \<noteq> view d k \<longrightarrow>
          stale_key k \<and> view (snd (cleanup (RedisService R) d)) k = None)
    \<and> view (snd (cleanup (RedisService R) d)) (id_key i) = view d (id_key i)"
proof -
  obtain ks where "fst (cleanup (RedisService R) d) = Inr ()"
    and v: "view (snd (cleanup (RedisService R) d)) = (\<lambda>k. if k \<in> ks then None else view d k)"
    and "ks \<subseteq> Collect stale_key"
    using redis_live.cleanup_effect [OF assms, of d] by blast
  then show ?thesis unfolding v using stale_key_simps(3) [of i] by auto
qed

theorem cleanup_keeps_accounts_witness:
  "mem_view (snd (cleanup (RedisService mem_redis) test_db)) (id_key ''alice'') = Some test_account_value"
  using cleanup_keeps_accounts [OF mem.redis_live_axioms, of test_db "''alice''"]
  by (simp add: test_db_def mem_view_def)

definition crowded_db :: memdb where
  "crowded_db = map (\<lambda>i. (logined_key (dec_of_nat i), RHash [''token'' \<mapsto> ''1''])) [0..<11]"

lemma crowded_keys: "map fst crowded_db = map (\<lambda>i. logined_key (dec_of_nat i)) [0..<11]"
  by (simp add: crowded_db_def comp_def)

lemma crowded_scan:
  "Scan (RedisService mem_redis) ''client:*'' crowded_db = (Inr [], crowded_db)"
  "Scan (RedisService mem_redis) ''logined:*'' crowded_db
     = (Inr (map (\<lambda>i. logined_key (dec_of_nat i)) [0..<10]), crowded_db)"
proof -
  have "distinct (map (\<lambda>i. logined_key (dec_of_nat i)) [0..<11])"
    by (simp add: distinct_map inj_on_def dec_of_nat_inj)
  then have keys: "remdups (map fst crowded_db) = map (\<lambda>i. logined_key (dec_of_nat i)) [0..<11]"
    using crowded_keys distinct_remdups_id by metis
  have "mem_glob ''client:*'' (logined_key i) = False" "mem_glob ''logined:*'' (logined_key i)" for i
    by (simp_all add: mem.glob_patterns logined_key_def)
  note scan = RedisService_def Scan_page mem_redis_def mem_scan_apply keys take_map filter_map comp_def this
  show "Scan (RedisService mem_redis) ''client:*'' crowded_db = (Inr [], crowded_db)"
    by (simp add: scan)
  show "Scan (RedisService mem_redis) ''logined:*'' crowded_db
     = (Inr (map (\<lambda>i. logined_key (dec_of_nat i)) [0..<10]), crowded_db)"
    by (simp add: scan)
qed

text \<open>The loop of \<^verbatim>\<open>RedisService::Scan\<close> reads one reply only. On a server that returns ten
  keys per reply, the removal of stale sessions leaves an account logged in that was logged in when
  the previous server stopped, if ten others were too.\<close>

theorem cleanup_misses_later_pages:
  "mem_view (snd (cleanup (RedisService mem_redis) crowded_db)) (logined_key (dec_of_nat 10))
     = Some (RHash [''token'' \<mapsto> ''1''])
   \<and> mem_view (snd (cleanup (RedisService mem_redis) crowded_db)) (logined_key (dec_of_nat 9)) = None"
proof -
  let ?ks = "map (\<lambda>i. logined_key (dec_of_nat i)) [0..<10]"
  have "fst (Ping (RedisService mem_redis) crowded_db) = Inr ()" "snd (Ping (RedisService mem_redis) crowded_db) = crowded_db"
    by (simp_all add: RedisService_def RedisService_Ping_def mem_redis_def)
  then have "cleanup (RedisService mem_redis) crowded_db
      = forM ?ks (\<lambda>key. seqM (Del (RedisService mem_redis) key) (ret ())) crowded_db"
    by (simp add: cleanup_def seqM_def bindM_run crowded_scan)
  then have "mem_view (snd (cleanup (RedisService mem_redis) crowded_db))
      = (\<lambda>k. if k \<in> set ?ks then None else mem_view crowded_db k)"
    using mem.delete_all [of ?ks crowded_db] by simp
  moreover have "mem_view crowded_db (logined_key (dec_of_nat 10)) = Some (RHash [''token'' \<mapsto> ''1''])"
    unfolding mem_view_def by (rule map_of_is_SomeI) (auto simp: crowded_keys distinct_map inj_on_def dec_of_nat_inj crowded_db_def)
  ultimately show ?thesis by (auto simp: dec_of_nat_inj)
qed

text \<open>The port is read as an \<^verbatim>\<open>int\<close> and passed as a \<^verbatim>\<open>uint16_t\<close> without a check: for any
  \<^verbatim>\<open>int\<close> in the environment, a server that runs listens on that number modulo 65536.\<close>

theorem listening_port_truncated:
  assumes "su_getenv su ''ISOLATION_SERVER_LISTENING_PORT'' = Some (to_string_int port)"
    and "main su d = (Running (ac, w) n, d')"
  shows "uint (ac_port ac) = port mod 65536 \<and> - (2 ^ 31) \<le> port \<and> port < 2 ^ 31"
  using assms
  by (auto simp: main_def serve_def stoi_to_string Acceptor_ctor_def Accept_def uint_word_of_int
      split: option.splits sum.splits prod.splits if_splits elim!: caught.elims)

theorem listening_port_truncated_witness:
  "\<exists>ac w n d'. main test_surroundings [] = (Running (ac, w) n, d') \<and> uint (ac_port ac) = 4464"
proof -
  have "fst (cleanup (RedisService mem_redis) []) = Inr ()" using mem.cleanup_effect [of "[]"] by blast
  then obtain d' where "cleanup (RedisService mem_redis) [] = (Inr (), d')" by (metis prod.collapse)
  then obtain ac w n where r: "main test_surroundings [] = (Running (ac, w) n, d')"
    by (simp add: main_def serve_def stoi_to_string RedisService_ctor_def Acceptor_ctor_def)
  then show ?thesis
    using listening_port_truncated [of test_surroundings 70000 "[]" ac w n d'] by auto
qed

text \<open>C23: the exits of \<^verbatim>\<open>main\<close> over a live Redis, exactly. The code is -1 when and only when a
  variable is missing, -2 when the port is not a number, -3 when it is out of range, each before Redis is
  touched; it is 0 when and only when the listening socket cannot be bound, after the stale sessions
  were removed; otherwise the io threads run, and no exception leaves \<^verbatim>\<open>main\<close>. While they run, a signal
  ends the program with code 0 after any completions that did not fault, without a change to the database,
  and a wait for the signal that fails does not end it. Start-up changes no account.\<close>

theorem main_exits:
  assumes "redis_live R view glob" and "su_connect su ''redis'' 6379 = Inr R"
  shows "(main su d = (Exited (-1), d') \<longleftrightarrow>
      d' = d \<and> (su_getenv su ''GIT_COMMIT_SHA'' = None \<or> su_getenv su ''ISOLATION_SERVER_LISTENING_PORT'' = None))
    \<and> (main su d = (Exited (-2), d') \<longleftrightarrow> d' = d \<and> port_setting su = Some (Inl InvalidArgument))
    \<and> (main su d = (Exited (-3), d') \<longleftrightarrow> d' = d \<and> port_setting su = Some (Inl OutOfRange))
    \<and> (main su d = (Exited 0, d') \<longleftrightarrow> d' = snd (cleanup (RedisService R) d)
         \<and> (\<exists>port. port_setting su = Some (Inr port)) \<and> su_bind_error su \<noteq> None)
    \<and> ((\<exists>x n. main su d = (Running x n, d')) \<longleftrightarrow> d' = snd (cleanup (RedisService R) d)
         \<and> (\<exists>port. port_setting su = Some (Inr port)) \<and> su_bind_error su = None)
    \<and> (\<forall>e. fst (main su d) \<noteq> Uncaught e)
    \<and> (\<forall>x n x'. main su d = (Running x n, d') \<and> sys_run pb (RedisService R) evs x = (Inr (), x') \<longrightarrow>
         run_program pb su evs None d = (Exited 0, sv_db (w_server (snd x')))
         \<and> run_program pb su evs (Some error) d = (Running x' n, sv_db (w_server (snd x'))))
    \<and> (\<forall>i. view (snd (main su d)) (id_key i) = view d (id_key i))"
proof -
  obtain ks where fst: "fst (cleanup (RedisService R) d) = Inr ()"
    and v: "view (snd (cleanup (RedisService R) d)) = (\<lambda>k. if k \<in> ks then None else view d k)"
    and ks: "ks \<subseteq> Collect stale_key"
    using redis_live.cleanup_effect [OF assms(1), of d] by blast
  have keep: "view (snd (cleanup (RedisService R) d)) (id_key i) = view d (id_key i)" for i
    unfolding v using ks stale_key_simps(3) [of i] by auto
  have ctor: "RedisService_ctor (su_connect su) (Some ''redis'') 6379 = Inr R"
    using assms(2) by (simp add: RedisService_ctor_def)
  note m = main_cases [OF ctor fst]
  have shut: "run_program pb su evs None d = (Exited 0, sv_db (w_server (snd x')))
      \<and> run_program pb su evs (Some error) d = (Running x' n, sv_db (w_server (snd x')))"
    if "main su d = (Running x n, d')" "sys_run pb (RedisService R) evs x = (Inr (), x')" for x n x'
    using that ctor by (simp add: run_program_def on_signal_def run_returns_def)
  have kept: "view (snd (main su d)) (id_key i) = view d (id_key i)" for i
    using m(7) keep by auto
  show ?thesis by (intro conjI; (rule m(1-5) | use m(6) shut kept in blast))
qed

theorem main_exits_witness:
  "\<exists>d'. main (test_surroundings\<lparr>su_bind_error := Some ''address in use''\<rparr>) stale_db = (Exited 0, d')
     \<and> mem_view d' (id_key ''alice'') = Some test_account_value"
proof -
  let ?su = "test_surroundings\<lparr>su_bind_error := Some ''address in use''\<rparr>"
  let ?d = "snd (cleanup (RedisService mem_redis) stale_db)"
  have port: "port_setting ?su = Some (Inr 70000)" by (simp add: port_setting_def stoi_to_string)
  have conn: "su_connect ?su ''redis'' 6379 = Inr mem_redis" by simp
  note exits = main_exits [OF mem.redis_live_axioms conn, of stale_db ?d]
  have "main ?su stale_db = (Exited 0, ?d)" using exits port by simp
  moreover have "mem_view (snd (main ?su stale_db)) (id_key ''alice'') = mem_view stale_db (id_key ''alice'')"
    using exits by blast
  ultimately show ?thesis by (simp add: stale_db_def mem_view_def)
qed

text \<open>Stop and start again. The shutdown leaves the sessions of the connected clients in Redis; the next start
  over that database removes them and finds the accounts of the moment of the shutdown.\<close>

theorem restart_after_shutdown:
  assumes live: "redis_live R view glob" and pb: "pb_ok pb" and conn: "su_connect su ''redis'' 6379 = Inr R"
    and env: "su_getenv su ''GIT_COMMIT_SHA'' = Some sha" "su_getenv su ''ISOLATION_SERVER_LISTENING_PORT'' = Some p"
      "stoi p = Inr port" and bind: "su_bind_error su = None"
    and acc: "\<forall>i. account_rel (view d (id_key i)) (acc i)" and page: "one_page R view d" "one_page R view d1"
    and stop: "run_program pb su evs None d = (Exited 0, d1)"
  shows "\<exists>acc1 ac w n d2. main su d1 = (Running (ac, w) n, d2) \<and> sys_init view (ac, w)
    \<and> (\<forall>i. account_rel (view d1 (id_key i)) (acc1 i))
    \<and> (\<forall>i. account_rel (view (sv_db (w_server w)) (id_key i)) (acc1 i))"
proof -
  obtain ac w n d' where m: "main su d = (Running (ac, w) n, d')" and i: "sys_init view (ac, w)"
    using startup_init [OF live conn env bind acc page(1)] by blast
  obtain x' where run: "sys_run pb (RedisService R) evs (ac, w) = (Inr (), x')" and d1: "d1 = sv_db (w_server (snd x'))"
    using stop m conn
    by (auto simp: run_program_def RedisService_ctor_def on_signal_def run_returns_def split: prod.splits sum.splits)
  obtain a where "sys_inv pb view (snd x') a"
    using redis_live.reachable_inv [OF live sys_run_reachable [OF run reach_init] i pb] by blast
  then have "\<forall>i. account_rel (view d1 (id_key i)) (accounts a i)"
    using auth_relD(1) d1 by (auto simp: sys_inv_def)
  with startup_init [OF live conn env bind this page(2)] show ?thesis by blast
qed

end
