(* ===== verification/Login_Race.thy ===== *)
theory Login_Race
  imports Fixtures
begin

text \<open>
  Two logins at the same time. \<^verbatim>\<open>main\<close> runs the io_context on several threads and
  \<^verbatim>\<open>HandleRequestLogin\<close> takes no lock, so the packets of two clients may be handled in parallel. This
  theory cuts the handler between its tests and its writes, shows that the two parts in sequence are
  the handler, and runs the parts of two clients alternately.
\<close>

section \<open>The two parts of the handler\<close>

text \<open>The three tests, in the order of the code.\<close>

definition login_checks :: "'d IRedis \<Rightarrow> PMRequestLogin \<Rightarrow> (('d, 'c) Server, bool \<times> string) comp" where
  "login_checks rs m =
     (let idKeyStr = id_key (rl_id m); passwordHashStr = sha256 (rl_password m);
          loginedKeyStr = logined_key (rl_id m)
      in bindM (redis (Exists rs idKeyStr)) (\<lambda>known.
         if \<not> known then ret (False, ''idDoesNotExsist'')
         else bindM (redis (HashGet rs idKeyStr ''password'')) (\<lambda>stored.
              bindM (deref ''password'' stored) (\<lambda>hash.
              if hash \<noteq> passwordHashStr then ret (False, ''passwordMismatch'')
              else bindM (redis (Exists rs loginedKeyStr)) (\<lambda>logined.
                   if logined then ret (False, ''loginedAlready'') else ret (True, ''''))))))"

text \<open>The writes of a login that passed the tests, and the answer.\<close>

definition login_response ::
  "protobuf \<Rightarrow> ('c, 'h, 'e) IClient \<Rightarrow> nat \<Rightarrow> PMResponse \<Rightarrow> (('d, 'c) Server, unit) comp" where
  "login_response pb cl client responseMessage =
     (let responseStr = serialize_login pb responseMessage;
          t = append_prot_packet [] (RESPONSE_LOGIN pb) (total_length_login responseStr) @ responseStr
      in seqM (client_call client (PostWrite cl t)) (ret ()))"

definition login_commit ::
  "protobuf \<Rightarrow> 'd IRedis \<Rightarrow> ('c, 'h, 'e) IClient \<Rightarrow> nat \<Rightarrow> PMRequestLogin \<Rightarrow> bool \<times> string
     \<Rightarrow> (('d, 'c) Server, unit) comp" where
  "login_commit pb rs cl client m = (\<lambda>(valid, message).
     bindM
       (if valid then
          bindM now_ms (\<lambda>ms.
          bindM (client_get client (GetToken cl)) (\<lambda>token.
          seqM (redis (HashSet rs (client_key token) ''loginId'' (rl_id m)))
         (seqM (redis (HashSet rs (logined_key (rl_id m)) ''token'' (to_string_u64 token)))
         (seqM (redis (HashSet rs (logined_key (rl_id m)) ''loginTime'' ms))
         (seqM (client_do client (SetLoginKey cl (logined_key (rl_id m))))
         (ret \<lparr>res_result = True, res_message = ''ok''\<rparr>))))))
        else ret (default_response\<lparr>res_message := message\<rparr>))
       (login_response pb cl client))"

lemma HandleRequestLogin_parts:
  "HandleRequestLogin pb rs cl client data len =
     bindM (ParseFromArray (parse_login pb) data len) (\<lambda>receivedMessage.
     case receivedMessage of
       Some m \<Rightarrow> bindM (login_checks rs m) (login_commit pb rs cl client m)
     | None \<Rightarrow> login_response pb cl client \<lparr>res_result = False, res_message = ''parsingError''\<rparr>)"
proof -
  have "HandleRequestLogin pb rs cl client data len =
     bindM (ParseFromArray (parse_login pb) data len) (\<lambda>receivedMessage.
     bindM
       (case receivedMessage of
          Some m \<Rightarrow>
            bindM (login_checks rs m) (\<lambda>v.
              if fst v then
                bindM now_ms (\<lambda>ms.
                bindM (client_get client (GetToken cl)) (\<lambda>token.
                seqM (redis (HashSet rs (client_key token) ''loginId'' (rl_id m)))
               (seqM (redis (HashSet rs (logined_key (rl_id m)) ''token'' (to_string_u64 token)))
               (seqM (redis (HashSet rs (logined_key (rl_id m)) ''loginTime'' ms))
               (seqM (client_do client (SetLoginKey cl (logined_key (rl_id m))))
               (ret \<lparr>res_result = True, res_message = ''ok''\<rparr>))))))
              else ret (default_response\<lparr>res_message := snd v\<rparr>))
        | None \<Rightarrow> ret \<lparr>res_result = False, res_message = ''parsingError''\<rparr>)
       (login_response pb cl client))"
    unfolding HandleRequestLogin_def login_checks_def login_response_def Let_def case_prod_unfold ..
  then show ?thesis
    by (simp add: bindM_case_option bindM_assoc login_commit_def case_prod_unfold cong: option.case_cong)
qed

text \<open>Two clients in parallel: both run the tests before either of them writes.\<close>

definition login_race ::
  "protobuf \<Rightarrow> 'd IRedis \<Rightarrow> ('c, 'h, 'e) IClient \<Rightarrow> nat \<Rightarrow> PMRequestLogin \<Rightarrow> nat \<Rightarrow> PMRequestLogin
     \<Rightarrow> (('d, 'c) Server, unit) comp" where
  "login_race pb rs cl r m r' m' =
     bindM (login_checks rs m) (\<lambda>v.
     bindM (login_checks rs m') (\<lambda>v'.
     seqM (login_commit pb rs cl r m v) (login_commit pb rs cl r' m' v')))"

section \<open>What the parts do\<close>

text \<open>The abstract counterparts of the two parts; in sequence they are \<open>auth_login\<close>.\<close>

definition login_outcome :: "auth \<Rightarrow> PMRequestLogin \<Rightarrow> bool \<times> string" where
  "login_outcome a m = (case login_error a m of None \<Rightarrow> (True, '''') | Some e \<Rightarrow> (False, e))"

definition login_answer :: "bool \<times> string \<Rightarrow> PMResponse" where
  "login_answer v = (if fst v then \<lparr>res_result = True, res_message = ''ok''\<rparr> else \<lparr>res_result = False, res_message = snd v\<rparr>)"

definition auth_commit :: "token \<Rightarrow> PMRequestLogin \<Rightarrow> bool \<times> string \<Rightarrow> auth \<Rightarrow> auth" where
  "auth_commit t m v a =
     (if fst v then a\<lparr>sessions := (sessions a)(t \<mapsto> Some (rl_id m)), online := (online a)(rl_id m \<mapsto> t)\<rparr> else a)"

lemma auth_login_parts:
  "auth_login t m a = (login_answer (login_outcome a m), auth_commit t m (login_outcome a m) a)"
  by (simp add: auth_login_def login_answer_def auth_commit_def login_outcome_def split: option.split)

lemma auth_commit_sessions: "sessions a t' \<noteq> None \<Longrightarrow> sessions (auth_commit t m v a) t' \<noteq> None"
  by (simp add: auth_commit_def)

lemma login_outcome_commit:
  "rl_id m \<noteq> rl_id m' \<Longrightarrow> login_outcome (auth_commit t m v a) m' = login_outcome a m'"
  by (auto simp: login_outcome_def login_error_def auth_commit_def split: option.split)

context auth_server
begin

lemma login_checks_sim:
  assumes rel: "auth_rel (view (sv_db s)) a"
  obtains d where "login_checks rs m s = (Inr (login_outcome a m), s\<lparr>sv_db := d\<rparr>)" "auth_rel (view d) a"
proof (cases "accounts a (rl_id m)")
  case None
  with rel that show thesis
    by (simp add: login_checks_def auth_reads [OF rel] run_simps ret_apply login_outcome_def login_error_def)
next
  case (Some acc)
  with rel that auth_reads(9) [OF rel, of "rl_id m"] show thesis
    by (cases "view (sv_db s) (logined_key (rl_id m))"; cases "acc_password acc = sha256 (rl_password m)")
      (simp_all add: login_checks_def auth_reads [OF rel] run_simps ret_apply login_outcome_def login_error_def)
qed

lemma login_commit_sim:
  assumes rel: "auth_rel (view (sv_db s)) a" and c: "sv_clients s r = Some c" and sess: "sessions a (GetToken cl c) \<noteq> None"
  shows "handled view s
    ((sv_clients s)(r \<mapsto> snd (PostWrite cl (login_packet pb (login_answer v)) (after_login cl m (login_answer v) c))))
    (auth_commit (GetToken cl c) m v a) (login_commit pb rs cl r m v s)"
proof (cases v)
  case (Pair valid why)
  show ?thesis
    using rel_login [OF rel sess, of "rl_id m"] rel unfolding Pair
    by (cases valid) (simp add: login_commit_def login_response_def login_packet_def login_answer_def auth_commit_def
        after_login_def default_response_def c auth_reads [OF rel] run_simps,
        simp add: end_simps auth_reads [OF rel])+
qed

lemma login_race_sim:
  fixes m m' :: PMRequestLogin
  assumes rel: "auth_rel (view (sv_db s)) a" and "r \<noteq> r'"
    and c: "sv_clients s r = Some c" "sessions a (GetToken cl c) \<noteq> None"
    and c': "sv_clients s r' = Some c'" "sessions a (GetToken cl c') \<noteq> None"
  defines "v \<equiv> login_outcome a m" and "v' \<equiv> login_outcome a m'"
  shows "handled view s
    ((sv_clients s)
       (r \<mapsto> snd (PostWrite cl (login_packet pb (login_answer v)) (after_login cl m (login_answer v) c)),
        r' \<mapsto> snd (PostWrite cl (login_packet pb (login_answer v')) (after_login cl m' (login_answer v') c'))))
    (auth_commit (GetToken cl c') m' v' (auth_commit (GetToken cl c) m v a))
    (login_race pb rs cl r m r' m' s)"
proof -
  define heap where "heap = (sv_clients s)(r \<mapsto> snd (PostWrite cl (login_packet pb (login_answer v)) (after_login cl m (login_answer v) c)))"
  obtain d where d: "login_checks rs m s = (Inr v, s\<lparr>sv_db := d\<rparr>)" and rel1: "auth_rel (view d) a"
    unfolding v_def by (rule login_checks_sim [OF rel])
  obtain e where e: "login_checks rs m' (s\<lparr>sv_db := d\<rparr>) = (Inr v', s\<lparr>sv_db := e\<rparr>)" and rel2: "auth_rel (view e) a"
    unfolding v'_def by (rule login_checks_sim [of "s\<lparr>sv_db := d\<rparr>" a m']) (use rel1 in simp_all)
  have "handled view (s\<lparr>sv_db := e\<rparr>) heap (auth_commit (GetToken cl c) m v a) (login_commit pb rs cl r m v (s\<lparr>sv_db := e\<rparr>))"
    using login_commit_sim [of "s\<lparr>sv_db := e\<rparr>" a r c pb v m] rel2 c by (simp add: heap_def)
  then obtain x f where f: "login_commit pb rs cl r m v (s\<lparr>sv_db := e\<rparr>) = (Inr x, s\<lparr>sv_db := f, sv_clients := heap\<rparr>)"
    and rel3: "auth_rel (view f) (auth_commit (GetToken cl c) m v a)"
    by (elim handledE) simp
  have "heap r' = Some c'" using c' \<open>r \<noteq> r'\<close> by (simp add: heap_def)
  with rel3 c' have "handled view s
      (heap(r' \<mapsto> snd (PostWrite cl (login_packet pb (login_answer v')) (after_login cl m' (login_answer v') c'))))
      (auth_commit (GetToken cl c') m' v' (auth_commit (GetToken cl c) m v a))
      (login_commit pb rs cl r' m' v' (s\<lparr>sv_db := f, sv_clients := heap\<rparr>))"
    using login_commit_sim [of "s\<lparr>sv_db := f, sv_clients := heap\<rparr>" "auth_commit (GetToken cl c) m v a" r' c' pb v' m']
      auth_commit_sessions [of a "GetToken cl c'"] by (simp add: handled_def)
  with d e f show ?thesis
    by (simp add: login_race_def seqM_def bindM_def heap_def)
qed

end

section \<open>The race\<close>

text \<open>The server of the fixtures with a second client, not logged in.\<close>

definition two_clients :: "(memdb, socket) Server" where
  "two_clients = test_server\<lparr>sv_db := (client_key 6, RHash [''ConnectedTime'' \<mapsto> ''1500'']) # test_db,
     sv_clients := [0 \<mapsto> test_client, 1 \<mapsto> test_client\<lparr>cs_token := 6\<rparr>]\<rparr>"

definition two_sessions :: auth where
  "two_sessions = test_auth\<lparr>sessions := [5 \<mapsto> None, 6 \<mapsto> None]\<rparr>"

lemma two_rel: "auth_rel (mem_view (sv_db two_clients)) two_sessions"
  by (auto simp: auth_rel_def two_clients_def two_sessions_def test_server_def test_db_def test_auth_def mem_view_def
      test_account_def test_account_value_def)

lemma two_clients_simps:
  "sv_clients two_clients 0 = Some test_client" "sv_clients two_clients 1 = Some (test_client\<lparr>cs_token := 6\<rparr>)"
  "sv_clients two_clients (Suc 0) = Some (test_client\<lparr>cs_token := 6\<rparr>)"
  "sessions two_sessions 5 = Some None" "sessions two_sessions 6 = Some None"
  by (simp_all add: two_clients_def two_sessions_def)

lemma two_sessions_free:
  "login_error two_sessions test_login = None" "login_error two_sessions test_login2 = None"
  by (simp_all add: login_error_def two_sessions_def test_auth_def test_login_def test_login2_def test_account_def)

text \<open>C34: two logins in parallel to different accounts are harmless: when both run their tests before
  either writes, the answers, the client objects and the accounts, sessions and logins are those of the
  first handler followed by the second, whether the logins succeed or not.\<close>

theorem parallel_logins_serialise:
  fixes s :: "('d, socket) Server"
  assumes "redis_live R view glob" and "auth_rel (view (sv_db s)) a" and "rl_id m \<noteq> rl_id m'" and "r \<noteq> r'"
    and "sv_clients s r = Some c" and "sessions a (cs_token c) \<noteq> None"
    and "sv_clients s r' = Some c'" and "sessions a (cs_token c') \<noteq> None"
    and "auth_login (cs_token c) m a = (resp, a1)" and "auth_login (cs_token c') m' a1 = (resp', a2)"
  shows "handled view s
    ((sv_clients s)
       (r \<mapsto> snd (ClientSocket_PostWrite (login_packet pb resp) (after_login ClientSocket_IClient m resp c)),
        r' \<mapsto> snd (ClientSocket_PostWrite (login_packet pb resp') (after_login ClientSocket_IClient m' resp' c'))))
    a2 (login_race pb (RedisService R) ClientSocket_IClient r m r' m' s)"
  using auth_server.login_race_sim [OF redis_live.live_server [OF assms(1)] assms(2,4,5) _ assms(7), where m = m and m' = m' and pb = pb]
    assms(6,8-10)
  by (auto simp: auth_login_parts PostWrite_socket login_outcome_commit [OF assms(3)])

theorem parallel_logins_serialise_witness:
  "handled mem_view two_clients
    ((sv_clients two_clients)
       (0 \<mapsto> snd (ClientSocket_PostWrite (login_packet test_pb (login_answer (True, '''')))
          (after_login ClientSocket_IClient test_login (login_answer (True, '''')) test_client)),
        1 \<mapsto> snd (ClientSocket_PostWrite (login_packet test_pb (login_answer (True, '''')))
          (after_login ClientSocket_IClient test_login2 (login_answer (True, '''')) (test_client\<lparr>cs_token := 6\<rparr>)))))
    (auth_commit 6 test_login2 (True, '''') (auth_commit 5 test_login (True, '''') two_sessions))
    (login_race test_pb (RedisService mem_redis) ClientSocket_IClient 0 test_login 1 test_login2 two_clients)"
proof -
  have ids: "rl_id test_login \<noteq> rl_id test_login2" by (simp add: test_login_def test_login2_def)
  have out: "login_outcome two_sessions test_login = (True, '''')" "login_outcome two_sessions test_login2 = (True, '''')"
    using two_sessions_free by (simp_all add: login_outcome_def)
  show ?thesis
    by (rule parallel_logins_serialise [OF mem.redis_live_axioms two_rel ids,
          where c = test_client and c' = "test_client\<lparr>cs_token := 6\<rparr>"])
      (simp_all add: two_clients_simps auth_login_parts out, simp add: out login_outcome_commit [OF ids])
qed

text \<open>C35: two clients that log in to one account at the same time are both logged in: when both pass
  the tests before either writes, both get the positive answer and both sessions name the account,
  whose \<^verbatim>\<open>logined:\<close> entry knows only the second. That no two clients share an account holds when the
  handlers run one after another.\<close>

theorem parallel_logins_share_account:
  fixes s :: "('d, socket) Server"
  assumes "redis_live R view glob" and "auth_rel (view (sv_db s)) a" and "login_error a m = None" and "r \<noteq> r'"
    and "sv_clients s r = Some c" and "sessions a (cs_token c) \<noteq> None"
    and "sv_clients s r' = Some c'" and "sessions a (cs_token c') \<noteq> None" and "cs_token c \<noteq> cs_token c'"
  shows "\<exists>s'. login_race pb (RedisService R) ClientSocket_IClient r m r' m s = (Inr (), s')
    \<and> hash_at (view (sv_db s')) (client_key (cs_token c)) ''loginId'' = Some (rl_id m)
    \<and> hash_at (view (sv_db s')) (client_key (cs_token c')) ''loginId'' = Some (rl_id m)
    \<and> hash_at (view (sv_db s')) (logined_key (rl_id m)) ''token'' = Some (to_string_u64 (cs_token c'))
    \<and> sv_clients s' r = Some (snd (ClientSocket_PostWrite (login_packet pb \<lparr>res_result = True, res_message = ''ok''\<rparr>)
         (ClientSocket_SetLoginKey (logined_key (rl_id m)) c)))
    \<and> sv_clients s' r' = Some (snd (ClientSocket_PostWrite (login_packet pb \<lparr>res_result = True, res_message = ''ok''\<rparr>)
         (ClientSocket_SetLoginKey (logined_key (rl_id m)) c')))"
proof -
  let ?a = "a\<lparr>sessions := (sessions a)(cs_token c \<mapsto> Some (rl_id m), cs_token c' \<mapsto> Some (rl_id m)),
       online := (online a)(rl_id m \<mapsto> cs_token c')\<rparr>"
  have out: "login_outcome a m = (True, '''')" using assms(3) by (simp add: login_outcome_def)
  obtain x d where run: "login_race pb (RedisService R) ClientSocket_IClient r m r' m s = (Inr x, s\<lparr>sv_db := d, sv_clients :=
      (sv_clients s)
       (r \<mapsto> snd (ClientSocket_PostWrite (login_packet pb \<lparr>res_result = True, res_message = ''ok''\<rparr>)
          (ClientSocket_SetLoginKey (logined_key (rl_id m)) c)),
        r' \<mapsto> snd (ClientSocket_PostWrite (login_packet pb \<lparr>res_result = True, res_message = ''ok''\<rparr>)
          (ClientSocket_SetLoginKey (logined_key (rl_id m)) c')))\<rparr>)"
    and rel: "auth_rel (view d) ?a"
    using auth_server.login_race_sim [OF redis_live.live_server [OF assms(1)] assms(2,4,5) _ assms(7), where m = m and m' = m and pb = pb] assms(6,8)
    by (auto elim!: handledE simp: out login_answer_def auth_commit_def after_login_def PostWrite_socket SetLoginKey_socket)
  have "online_rel (view d (logined_key (rl_id m))) (Some (cs_token c'))"
    using auth_relD(3) [OF rel, of "rl_id m"] by simp
  then have "hash_at (view d) (logined_key (rl_id m)) ''token'' = Some (to_string_u64 (cs_token c'))"
    by (auto simp: online_rel_def hash_at_def)
  moreover have "hash_at (view d) (client_key (cs_token c)) ''loginId'' = Some (rl_id m)"
    "hash_at (view d) (client_key (cs_token c')) ''loginId'' = Some (rl_id m)"
    using assms(9) session_of_view [OF rel, of "cs_token c" "rl_id m"] session_of_view [OF rel, of "cs_token c'" "rl_id m"]
    by simp_all
  ultimately show ?thesis using run assms(4) by simp
qed

theorem parallel_logins_share_account_witness:
  "\<exists>s'. login_race test_pb (RedisService mem_redis) ClientSocket_IClient 0 test_login 1 test_login two_clients = (Inr (), s')
    \<and> hash_at (mem_view (sv_db s')) (client_key 5) ''loginId'' = Some ''alice''
    \<and> hash_at (mem_view (sv_db s')) (client_key 6) ''loginId'' = Some ''alice''"
  using parallel_logins_share_account [OF mem.redis_live_axioms two_rel two_sessions_free(1), of 0 1 test_client
      "test_client\<lparr>cs_token := 6\<rparr>" test_pb]
  by (auto simp: two_clients_simps test_login_def)

end
