(* ===== verification/Session.thy ===== *)
theory Session
  imports Client_Socket Redis_Service Std_Conv
begin

text \<open>
  \<^verbatim>\<open>src/deprecated/session.h\<close> and \<^verbatim>\<open>src/deprecated/session.cpp\<close>: a game session kept in
  Redis under two hashes, \<^verbatim>\<open>session:{token}\<close> (its settings) and
  \<^verbatim>\<open>session:{token}:clients\<close> (its members). The class works on singletons
  (\<^verbatim>\<open>RS::Instance()\<close>, \<^verbatim>\<open>TokenPool64::Instance()\<close>) and on objects held by shared pointers,
  so its operations are computations on the state of the process: the database, the token pool and the
  heaps of client and session objects. The old \<^verbatim>\<open>ClientSocket\<close> had a nickname and
  \<^verbatim>\<open>SetDisconnectHandler\<close>; the class in the repository has neither any more, so they are
  parameters, fields of \<open>LegacyClient\<close>. A function with an out-parameter \<^verbatim>\<open>reason\<close> takes its
  value and returns the new one. \<^verbatim>\<open>ASSERT\<close> is empty, as in the Release build of
  \<^verbatim>\<open>build.sh\<close>. The mutexes make each operation atomic; logging is not modelled.
\<close>

section \<open>Parameters\<close>

record ('c, 'h, 'e) LegacyClient = "('c, 'h, 'e) IClient" +
  GetNickname :: "'c \<Rightarrow> string"
  SetDisconnectHandler :: "int \<Rightarrow> 'e \<Rightarrow> 'c \<Rightarrow> 'c"

record M_Environment =
  env_sessionname :: string
  env_joincode :: string
  env_password :: string
  env_host :: bool

text \<open>The generated code of \<^verbatim>\<open>session_message.proto\<close>; \<open>parse_joincode\<close> yields the one field
  of \<^verbatim>\<open>M_JoinCode\<close>.\<close>

record session_pb =
  JOINCODE :: int32
  REQUEST_ENVIRONMENT :: int32
  ENVIRONMENT :: int32
  parse_joincode :: "byte list \<Rightarrow> string option"
  serialize_environment :: "M_Environment \<Rightarrow> byte list"

section \<open>State\<close>

text \<open>
  The closure handed to \<^verbatim>\<open>SetReceiveJoinCodeCallback\<close> (the lambda of
  \<^verbatim>\<open>LobbyManager::CreateSession\<close>, which captures the index) and the closures that \<^verbatim>\<open>Session\<close> and
  \<^verbatim>\<open>LobbyManager\<close> store in a client, with what they capture.
\<close>

datatype joincode_callback = CallActivateSession int

datatype lobby_handler =
    OnJoinCode nat nat
  | OnRequestEnvironment nat string bool
  | OnSessionList nat
  | OnSessionCreation nat
  | OnSessionEntry nat
  | OnLobbyExit nat

datatype lobby_disconnect = OnLobbyDisconnected nat

record Session =
  ss_token :: token
  ss_sessionKey :: string
  ss_sessionClientsKey :: string
  ss_receiveJoinCodeCallback :: "joincode_callback option"

record ('d, 'c) Process =
  pr_db :: 'd
  pr_tokens :: TokenPool64
  pr_clients :: "nat \<rightharpoonup> 'c"
  pr_sessions :: "nat \<rightharpoonup> Session"
  pr_next :: nat

text \<open>A call through \<^verbatim>\<open>RS::Instance()\<close>, through a client pointer and through a session pointer;
  the value of a standard library function that may throw.\<close>

definition rsP :: "('d, 'a) comp \<Rightarrow> (('d, 'c, 'z) Process_scheme, 'a) comp" where
  "rsP m = (\<lambda>s. (fst (m (pr_db s)), s\<lparr>pr_db := snd (m (pr_db s))\<rparr>))"

definition clientP :: "nat \<Rightarrow> ('c \<Rightarrow> 'a \<times> 'c) \<Rightarrow> (('d, 'c, 'z) Process_scheme, 'a) comp" where
  "clientP client f =
     (\<lambda>s. case pr_clients s client of
            None \<Rightarrow> (Inl (Undefined ''call through a dangling client pointer''), s)
          | Some c \<Rightarrow> (Inr (fst (f c)), s\<lparr>pr_clients := (pr_clients s)(client \<mapsto> snd (f c))\<rparr>))"

definition client_doP :: "nat \<Rightarrow> ('c \<Rightarrow> 'c) \<Rightarrow> (('d, 'c, 'z) Process_scheme, unit) comp" where
  "client_doP client f = clientP client (\<lambda>c. ((), f c))"

definition client_getP :: "nat \<Rightarrow> ('c \<Rightarrow> 'a) \<Rightarrow> (('d, 'c, 'z) Process_scheme, 'a) comp" where
  "client_getP client f =
     (\<lambda>s. case pr_clients s client of
            None \<Rightarrow> (Inl (Undefined ''call through a dangling client pointer''), s)
          | Some c \<Rightarrow> (Inr (f c), s))"

definition session_get :: "nat \<Rightarrow> (Session \<Rightarrow> 'a) \<Rightarrow> (('d, 'c, 'z) Process_scheme, 'a) comp" where
  "session_get ss f =
     (\<lambda>s. case pr_sessions s ss of
            None \<Rightarrow> (Inl (Undefined ''call through a dangling session pointer''), s)
          | Some o' \<Rightarrow> (Inr (f o'), s))"

definition session_do :: "nat \<Rightarrow> (Session \<Rightarrow> Session) \<Rightarrow> (('d, 'c, 'z) Process_scheme, unit) comp" where
  "session_do ss f =
     (\<lambda>s. case pr_sessions s ss of
            None \<Rightarrow> (Inl (Undefined ''call through a dangling session pointer''), s)
          | Some o' \<Rightarrow> (Inr (), s\<lparr>pr_sessions := (pr_sessions s)(ss \<mapsto> f o')\<rparr>))"

definition throwing :: "fault + 'a \<Rightarrow> ('s, 'a) comp" where
  "throwing x = (case x of Inl e \<Rightarrow> raise e | Inr a \<Rightarrow> ret a)"

text \<open>The packet of a serialised message: its length is \<^verbatim>\<open>static_cast<int>(n) + 12\<close>, passed on
  as \<^verbatim>\<open>size_t\<close>.\<close>

definition framed :: "int32 \<Rightarrow> byte list \<Rightarrow> byte list" where
  "framed type body =
     append_prot_packet [] type (scast ((ucast (of_nat (length body) :: uint64) :: int32) + 12)) @ body"

section \<open>Construction and destruction\<close>

definition Session_ctor :: "(('d, 'c, 'z) Process_scheme, nat) comp" where
  "Session_ctor = (\<lambda>s.
     case allocate (pr_tokens s) of
       None \<Rightarrow> (Inl OutOfFuel, s)
     | Some (t, pool) \<Rightarrow>
         (Inr (pr_next s),
          s\<lparr>pr_tokens := pool, pr_next := Suc (pr_next s),
            pr_sessions := (pr_sessions s)(pr_next s \<mapsto>
              \<lparr>ss_token = t, ss_sessionKey = [], ss_sessionClientsKey = [],
               ss_receiveJoinCodeCallback = None\<rparr>)\<rparr>))"

definition StopSession :: "'d IRedis \<Rightarrow> nat \<Rightarrow> (('d, 'c, 'z) Process_scheme, unit) comp" where
  "StopSession rs ss =
     bindM (session_get ss ss_sessionKey) (\<lambda>sessionKey.
     seqM (rsP (Del rs sessionKey))
    (bindM (session_get ss ss_sessionClientsKey) (\<lambda>sessionClientsKey.
     seqM (rsP (Del rs sessionClientsKey)) (ret ()))))"

text \<open>The destructor is \<^verbatim>\<open>noexcept\<close>: an exception of Redis in it ends the process.\<close>

definition noexcept :: "('s, 'a) comp \<Rightarrow> ('s, 'a) comp" where
  "noexcept m = (\<lambda>s. case fst (m s) of
       Inl (Undefined w) \<Rightarrow> (Inl (Undefined w), snd (m s))
     | Inl e \<Rightarrow> (Inl Terminated, snd (m s))
     | Inr a \<Rightarrow> (Inr a, snd (m s)))"

definition Session_dtor :: "'d IRedis \<Rightarrow> nat \<Rightarrow> (('d, 'c, 'z) Process_scheme, unit) comp" where
  "Session_dtor rs ss =
     noexcept
      (bindM (session_get ss ss_token) (\<lambda>token.
       seqM (modify (\<lambda>s. s\<lparr>pr_tokens := release token (pr_tokens s)\<rparr>))
      (seqM (StopSession rs ss)
      (modify (\<lambda>s. s\<lparr>pr_sessions := (pr_sessions s)(ss := None)\<rparr>)))))"

section \<open>The join code\<close>

definition SetHostJoinCode ::
  "'d IRedis \<Rightarrow> ('c, 'h, 'e, 'y) IClient_scheme \<Rightarrow> nat \<Rightarrow> nat \<Rightarrow> string \<Rightarrow> (('d, 'c, 'z) Process_scheme, bool) comp" where
  "SetHostJoinCode rs cl ss sender joinCode =
     bindM (session_get ss ss_sessionKey) (\<lambda>sessionKey.
     bindM (rsP (HashGet rs sessionKey ''hostToken'')) (\<lambda>ht.
     case ht of
       None \<Rightarrow> ret False
     | Some h \<Rightarrow>
         bindM (throwing (stoull h)) (\<lambda>hostToken.
         bindM (client_getP sender (GetToken cl)) (\<lambda>token.
         if hostToken \<noteq> token then ret False
         else seqM (rsP (HashSet rs sessionKey ''joinCode'' joinCode)) (ret True)))))"

definition GetJoinCode :: "'d IRedis \<Rightarrow> nat \<Rightarrow> (('d, 'c, 'z) Process_scheme, string) comp" where
  "GetJoinCode rs ss =
     bindM (session_get ss ss_sessionKey) (\<lambda>sessionKey.
     bindM (rsP (HashGet rs sessionKey ''joinCode'')) (\<lambda>res.
     ret (case res of None \<Rightarrow> '''' | Some x \<Rightarrow> x)))"

text \<open>\<^verbatim>\<open>OnReceiveHostJoinCode\<close>; \<open>run\<close> is the call of the stored \<^verbatim>\<open>std::function\<close>.\<close>

definition OnReceiveHostJoinCode ::
  "(joincode_callback \<Rightarrow> (('d, 'c, 'z) Process_scheme, unit) comp) \<Rightarrow> nat \<Rightarrow> (('d, 'c, 'z) Process_scheme, unit) comp" where
  "OnReceiveHostJoinCode run ss =
     bindM (session_get ss ss_receiveJoinCodeCallback) (\<lambda>callback.
     case callback of None \<Rightarrow> ret () | Some f \<Rightarrow> run f)"

definition SetReceiveJoinCodeCallback :: "nat \<Rightarrow> joincode_callback \<Rightarrow> (('d, 'c, 'z) Process_scheme, unit) comp" where
  "SetReceiveJoinCodeCallback ss callback = session_do ss (\<lambda>o'. o'\<lparr>ss_receiveJoinCodeCallback := Some callback\<rparr>)"

section \<open>Validity\<close>

text \<open>The chain of \<^verbatim>\<open>!rs.HashFieldExists(...) ||\<close>: it stops at the first field that is missing.\<close>

fun all_fields_exist :: "'d IRedis \<Rightarrow> string \<Rightarrow> string list \<Rightarrow> ('d, bool) comp" where
  "all_fields_exist rs key [] = ret True"
| "all_fields_exist rs key (f # fs) =
     bindM (HashFieldExists rs key f) (\<lambda>b. if b then all_fields_exist rs key fs else ret False)"

text \<open>The text of \<^verbatim>\<open>e.what()\<close> is the name of the function, as in libstdc++.\<close>

definition IsValidSession :: "'d IRedis \<Rightarrow> nat \<Rightarrow> string \<Rightarrow> (('d, 'c, 'z) Process_scheme, bool \<times> string) comp" where
  "IsValidSession rs ss reason =
     bindM (session_get ss ss_sessionKey) (\<lambda>sessionKey.
     bindM (rsP (Exists rs sessionKey)) (\<lambda>present.
     if \<not> present then
       ret (False, ''Session::IsValidSession. Session key('' @ sessionKey @ '') does not exist'')
     else bindM (rsP (all_fields_exist rs sessionKey
              [''hostToken'', ''maxClientCount'', ''name'', ''password'', ''joinCode''])) (\<lambda>complete.
     if \<not> complete then
       ret (False, ''Session::IsValidSession. This session('' @ sessionKey @ '') is incomplete.'')
     else bindM (rsP (HashGet rs sessionKey ''hostToken'')) (\<lambda>hostToken.
     case hostToken of
       None \<Rightarrow> ret (False, ''Session::IsValidSession. host token doesn't exists in session key.'')
     | Some h \<Rightarrow>
        (case stoull h of
           Inl OutOfRange \<Rightarrow>
             ret (False, ''Session::IsValidSession. hostToken is out of range '' @ h @ ''. what: stoull'')
         | Inl _ \<Rightarrow>
             ret (False, ''Session::IsValidSession. hostToken is invalid '' @ h @ ''. what: stoull'')
         | Inr tokenNum \<Rightarrow>
             if tokenNum = 0 then ret (False, ''Session::IsValidSession. hostToken is 0'')
             else
               bindM (session_get ss ss_sessionClientsKey) (\<lambda>sessionClientsKey.
               bindM (rsP (Exists rs sessionClientsKey)) (\<lambda>clients.
               if \<not> clients then
                 ret (False, ''Session::IsValidSession. Session clients key('' @ sessionClientsKey @ '') does not exist'')
               else ret (True, reason))))))))"

definition IsActiveSession :: "'d IRedis \<Rightarrow> nat \<Rightarrow> (('d, 'c, 'z) Process_scheme, bool) comp" where
  "IsActiveSession rs ss =
     bindM (session_get ss ss_sessionKey) (\<lambda>sessionKey.
     bindM (rsP (HashGet rs sessionKey ''hostToken'')) (\<lambda>hostToken.
     case hostToken of
       None \<Rightarrow> ret False
     | Some h \<Rightarrow>
         bindM (session_get ss ss_sessionClientsKey) (\<lambda>sessionClientsKey.
         bindM (rsP (HashFieldExists rs sessionClientsKey h)) (\<lambda>b. ret b))))"

section \<open>Creation\<close>

definition session_key :: "token \<Rightarrow> string" where
  "session_key t = ''session:'' @ to_string_u64 t"

definition session_clients_key :: "token \<Rightarrow> string" where
  "session_clients_key t = ''session:'' @ to_string_u64 t @ '':clients''"

definition Session_CreateSession ::
  "'d IRedis \<Rightarrow> ('c, 'h, 'e, 'y) LegacyClient_scheme \<Rightarrow> nat \<Rightarrow> nat option \<Rightarrow> uint32 \<Rightarrow> string \<Rightarrow> string \<Rightarrow> string
     \<Rightarrow> (('d, 'c, 'z) Process_scheme, bool \<times> string) comp" where
  "Session_CreateSession rs cl ss client maxClientCount name password reason =
     (case client of
        None \<Rightarrow> ret (False, ''client is invalid'')
      | Some c \<Rightarrow>
          if maxClientCount = 0 then ret (False, ''max client count is 0'')
          else bindM (throwing (utf8_length (bytes_of name))) (\<lambda>n.
          if n < 2 then ret (False, ''The session name is too short'')
          else
            bindM (client_getP c (GetToken cl)) (\<lambda>clientToken.
            bindM (session_get ss ss_token) (\<lambda>token.
            let sessionKey = session_key token; sessionClientsKey = session_clients_key token
            in
            seqM (session_do ss (\<lambda>o'. o'\<lparr>ss_sessionKey := sessionKey\<rparr>))
           (seqM (rsP (HashSetMany rs sessionKey
                    [(''hostToken'', to_string_u64 clientToken),
                     (''maxClientCount'', dec_of_nat (unat maxClientCount)),
                     (''name'', name), (''password'', password), (''joinCode'', '''')]))
           (seqM (session_do ss (\<lambda>o'. o'\<lparr>ss_sessionClientsKey := sessionClientsKey\<rparr>))
           (bindM (client_getP c (GetNickname cl)) (\<lambda>nickname.
            seqM (rsP (HashSet rs sessionClientsKey (to_string_u64 clientToken) nickname))
           (seqM (rsP (Expire rs sessionKey 3))
           (seqM (rsP (Expire rs sessionClientsKey 3))
           (ret (True, reason)))))))))))) "

section \<open>Entering\<close>

definition user_key :: "token \<Rightarrow> string" where
  "user_key t = ''client:'' @ to_string_u64 t"

text \<open>The checks on a client that is not the host; \<open>None\<close> means that none of them failed.\<close>

definition guest_refused :: "'d IRedis \<Rightarrow> nat \<Rightarrow> string \<Rightarrow> (('d, 'c, 'z) Process_scheme, string option) comp" where
  "guest_refused rs ss hostToken =
     bindM (session_get ss ss_sessionClientsKey) (\<lambda>sessionClientsKey.
     bindM (rsP (HashGet rs sessionClientsKey hostToken)) (\<lambda>host.
     if host = None then ret (Some ''Session::AddClient. The host client is not in session.'')
     else
       bindM (session_get ss ss_sessionKey) (\<lambda>sessionKey.
       bindM (rsP (HashGet rs sessionKey ''maxClientCount'')) (\<lambda>mccOpt.
       case mccOpt of
         None \<Rightarrow> ret (Some ''Invalid session'')
       | Some mccStr \<Rightarrow>
           bindM (throwing (stoull mccStr)) (\<lambda>mcc.
           bindM (rsP (HashLen rs sessionClientsKey)) (\<lambda>currentClientCount.
           if mcc < of_int currentClientCount then ret (Some ''Session is full'') else ret None))))))"

definition Session_AddClient ::
  "'x session_pb_scheme \<Rightarrow> 'd IRedis \<Rightarrow> ('c, lobby_handler, 'e, 'y) LegacyClient_scheme \<Rightarrow> nat \<Rightarrow> nat option \<Rightarrow> string
     \<Rightarrow> (('d, 'c, 'z) Process_scheme, bool \<times> string) comp" where
  "Session_AddClient pb rs cl ss client reason =
     (case client of
        None \<Rightarrow> ret (False, reason)
      | Some c \<Rightarrow>
          bindM (client_getP c (GetToken cl)) (\<lambda>clientToken.
          bindM (rsP (Exists rs (user_key clientToken))) (\<lambda>known.
          bindM (session_get ss ss_sessionKey) (\<lambda>sessionKey.
          if \<not> known then ret (False, ''User key('' @ sessionKey @ '') does not exist'')
          else bindM (IsValidSession rs ss reason) (\<lambda>(valid, reason).
          if \<not> valid then ret (False, reason)
          else bindM (rsP (HashGet rs sessionKey ''hostToken'')) (\<lambda>hostTokenOpt.
               bindM (deref ''hostToken'' hostTokenOpt) (\<lambda>hostToken.
               bindM (throwing (stoull hostToken)) (\<lambda>h.
               bindM (session_get ss ss_sessionClientsKey) (\<lambda>sessionClientsKey.
               let host = (h = clientToken)
               in bindM
                    (if host then
                       seqM (client_doP c (SetPacketHandler cl (sint (JOINCODE pb)) (OnJoinCode ss c)))
                      (seqM (rsP (Persist rs sessionKey))
                      (seqM (rsP (Persist rs sessionClientsKey))
                      (ret None)))
                     else guest_refused rs ss hostToken) (\<lambda>refused.
                  case refused of
                    Some why \<Rightarrow> ret (False, why)
                  | None \<Rightarrow>
                      seqM (client_doP c (SetPacketHandler cl (sint (REQUEST_ENVIRONMENT pb))
                              (OnRequestEnvironment c sessionKey host)))
                     (bindM (client_getP c (GetNickname cl)) (\<lambda>nickname.
                      seqM (rsP (HashSet rs sessionClientsKey (to_string_u64 clientToken) nickname))
                     (ret (True, ''ok'')))))))))))))) "

section \<open>What a session tells\<close>

record session_info =
  si_name :: string
  si_maxClientCount :: int
  si_clientCount :: int
  si_password :: string
  si_joinCode :: string

text \<open>\<open>None\<close> is the result \<^verbatim>\<open>false\<close>; the out-parameters are only read after \<^verbatim>\<open>true\<close>.\<close>

definition GetSessionInfo :: "'d IRedis \<Rightarrow> nat \<Rightarrow> (('d, 'c, 'z) Process_scheme, session_info option) comp" where
  "GetSessionInfo rs ss =
     bindM (IsValidSession rs ss []) (\<lambda>(valid, _).
     if \<not> valid then ret None
     else
       bindM (session_get ss ss_sessionClientsKey) (\<lambda>sessionClientsKey.
       bindM (session_get ss ss_sessionKey) (\<lambda>sessionKey.
       bindM (rsP (HashLen rs sessionClientsKey)) (\<lambda>n.
       let clientCount = sint (of_int n :: int32)
       in if clientCount = 0 then ret None
          else bindM (rsP (HashGet rs sessionKey ''name'')) (\<lambda>res.
               case res of None \<Rightarrow> ret None | Some name \<Rightarrow>
               bindM (rsP (HashGet rs sessionKey ''maxClientCount'')) (\<lambda>res.
               case res of None \<Rightarrow> ret None | Some mcc \<Rightarrow>
               bindM (throwing (stoi mcc)) (\<lambda>maxClientCount.
               bindM (rsP (HashGet rs sessionKey ''password'')) (\<lambda>res.
               case res of None \<Rightarrow> ret None | Some password \<Rightarrow>
               bindM (rsP (HashGet rs sessionKey ''joinCode'')) (\<lambda>res.
               case res of None \<Rightarrow> ret None | Some joinCode \<Rightarrow>
               ret (Some \<lparr>si_name = name, si_maxClientCount = maxClientCount, si_clientCount = clientCount,
                          si_password = password, si_joinCode = joinCode\<rparr>)))))))))) "

section \<open>The closures AddClient stores\<close>

definition handle_joincode ::
  "'x session_pb_scheme \<Rightarrow> 'd IRedis \<Rightarrow> ('c, 'h, 'e, 'y) IClient_scheme \<Rightarrow> (joincode_callback \<Rightarrow> (('d, 'c, 'z) Process_scheme, unit) comp)
     \<Rightarrow> nat \<Rightarrow> nat \<Rightarrow> byte list \<Rightarrow> int \<Rightarrow> (('d, 'c, 'z) Process_scheme, unit) comp" where
  "handle_joincode pb rs cl run ss c serializedData length' =
     bindM (gets (\<lambda>s. pr_sessions s ss \<noteq> None \<and> pr_clients s c \<noteq> None)) (\<lambda>alive.
     if \<not> alive then ret ()
     else bindM (ParseFromArray (parse_joincode pb) serializedData length') (\<lambda>j.
          case j of
            None \<Rightarrow> ret ()
          | Some joincode \<Rightarrow>
              bindM (SetHostJoinCode rs cl ss c joincode) (\<lambda>ok.
              if ok then OnReceiveHostJoinCode run ss else ret ())))"

definition handle_request_environment ::
  "'x session_pb_scheme \<Rightarrow> 'd IRedis \<Rightarrow> ('c, 'h, 'e, 'y) IClient_scheme \<Rightarrow> nat \<Rightarrow> string \<Rightarrow> bool \<Rightarrow> (('d, 'c, 'z) Process_scheme, unit) comp" where
  "handle_request_environment pb rs cl c sessionKey host =
     bindM (gets (\<lambda>s. pr_clients s c \<noteq> None)) (\<lambda>alive.
     if \<not> alive then ret ()
     else
       bindM (rsP (HashGet rs sessionKey ''name'')) (\<lambda>x. bindM (deref ''name'' x) (\<lambda>name.
       bindM (rsP (HashGet rs sessionKey ''joinCode'')) (\<lambda>x. bindM (deref ''joinCode'' x) (\<lambda>joinCode.
       bindM (rsP (HashGet rs sessionKey ''password'')) (\<lambda>x. bindM (deref ''password'' x) (\<lambda>password.
       let serial = serialize_environment pb
             \<lparr>env_sessionname = name, env_joincode = joinCode, env_password = password, env_host = host\<rparr>
       in seqM (clientP c (PostWrite cl (framed (ENVIRONMENT pb) serial))) (ret ()))))))))"

end
