(* ===== verification/Lobby_Manager.thy ===== *)
theory Lobby_Manager
  imports Session
begin

text \<open>
  \<^verbatim>\<open>src/deprecated/lobbyManager.h\<close> and \<^verbatim>\<open>src/deprecated/lobbyManager.cpp\<close>: the lobby that
  admits clients, creates sessions, lists them and lets clients enter them. Its members are added to
  the state of the process; the two tables of sessions own their sessions. As in \<open>Session\<close> each
  operation is atomic (the scoped locks), the manager outlives the closures that lock a weak pointer to
  it, and logging is left out. \<^verbatim>\<open>ForwardUDPData\<close>, \<^verbatim>\<open>HandleRequestLogout\<close> and
  \<^verbatim>\<open>PrintStatus\<close> have empty bodies in the source.
\<close>

section \<open>Messages\<close>

record M_RequestSessionCreation =
  rsc_sessionname :: string
  rsc_password :: string

record M_ResponseSessionCreation =
  sc_sessionindex :: int
  sc_reason :: string

record M_ResponseSessionEntry =
  se_result :: bool
  se_reason :: string

record session_entry = session_info +
  si_sessionIndex :: int

record M_ResponseSessionList =
  rsl_count :: int
  rsl_list :: "session_entry list"

record lobby_pb = session_pb +
  REQUEST_SESSION_LIST :: int32
  REQUEST_SESSION_CREATION :: int32
  REQUEST_SESSION_ENTRY :: int32
  REQUEST_LOBBY_EXIT :: int32
  RESPONSE_SESSION_LIST :: int32
  RESPONSE_SESSION_CREATION :: int32
  RESPONSE_SESSION_ENTRY :: int32
  LBMT_DISCONNECTED :: int32
  parse_session_creation :: "byte list \<Rightarrow> M_RequestSessionCreation option"
  parse_session_entry :: "byte list \<Rightarrow> int option"
  serialize_session_creation :: "M_ResponseSessionCreation \<Rightarrow> byte list"
  serialize_session_entry :: "M_ResponseSessionEntry \<Rightarrow> byte list"
  serialize_session_list :: "M_ResponseSessionList \<Rightarrow> byte list"

section \<open>State\<close>

record ('d, 'c) Lobby = "('d, 'c) Process" +
  lb_sessionIndexCounter :: int32
  lb_emptySessions :: "(int, nat) std_map"
  lb_sessions :: "(int, nat) std_map"
  lb_loginedClients :: "(token, nat) std_map"
  lb_serializedRSLCache :: "byte list"
  lb_timers :: nat

text \<open>
  The constructor does not initialise \<^verbatim>\<open>_sessionIndexCounter\<close>: it starts with whatever the
  memory held.
\<close>

definition LobbyManager_ctor :: "int32 \<Rightarrow> ('d, 'c) Process \<Rightarrow> ('d, 'c) Lobby" where
  "LobbyManager_ctor memory s =
     Process.extend s
       \<lparr>lb_sessionIndexCounter = memory, lb_emptySessions = [], lb_sessions = [], lb_loginedClients = [],
        lb_serializedRSLCache = [], lb_timers = 0\<rparr>"

type_synonym ('c, 'y) lobby_client = "('c, lobby_handler, lobby_disconnect, 'y) LegacyClient_scheme"

section \<open>Clients\<close>

definition SetClientHandler :: "lobby_pb \<Rightarrow> ('c, 'y) lobby_client \<Rightarrow> nat \<Rightarrow> (('d, 'c) Lobby, unit) comp" where
  "SetClientHandler pb cl client =
     seqM (client_doP client (ClearPacketHandler cl))
    (seqM (client_doP client (ClearDisconnectHandler cl))
    (seqM (client_doP client (SetPacketHandler cl (sint (REQUEST_SESSION_LIST pb)) (OnSessionList client)))
    (seqM (client_doP client (SetPacketHandler cl (sint (REQUEST_SESSION_CREATION pb)) (OnSessionCreation client)))
    (seqM (client_doP client (SetPacketHandler cl (sint (REQUEST_SESSION_ENTRY pb)) (OnSessionEntry client)))
    (seqM (client_doP client (SetPacketHandler cl (sint (REQUEST_LOBBY_EXIT pb)) (OnLobbyExit client)))
    (client_doP client (SetDisconnectHandler cl (sint (LBMT_DISCONNECTED pb)) (OnLobbyDisconnected client))))))))"

definition RequestEnterLobby ::
  "lobby_pb \<Rightarrow> 'd IRedis \<Rightarrow> ('c, 'y) lobby_client \<Rightarrow> nat option \<Rightarrow> (('d, 'c) Lobby, bool \<times> string) comp" where
  "RequestEnterLobby pb rs cl client =
     (case client of
        None \<Rightarrow> ret (False, ''LobbyManager::RequestEnterLobby: Client is not valid.'')
      | Some c \<Rightarrow>
          bindM (client_getP c (GetNickname cl)) (\<lambda>nickname.
          case utf8_length (bytes_of nickname) of
            Inl _ \<Rightarrow> ret (False, ''Invalid UTF-8 string'')
          | Inr n \<Rightarrow>
              if n < 2 then ret (False, ''LobbyManager::RequestEnterLobby: Client nickname is not valid.'')
              else
                bindM (client_getP c (GetToken cl)) (\<lambda>token.
                let keyUser = user_key token
                in bindM (rsP (Exists rs keyUser)) (\<lambda>keyExists.
                   if keyExists then ret (False, ''This nickname is already exists'')
                   else
                     seqM (modify (\<lambda>s. s\<lparr>lb_loginedClients := map_put token c (lb_loginedClients s)\<rparr>))
                    (seqM (rsP (SetKey rs keyUser nickname))
                    (seqM (SetClientHandler pb cl c)
                    (ret (True, ''ok''))))))))"

definition DisconnectedClient :: "'d IRedis \<Rightarrow> ('c, 'y) lobby_client \<Rightarrow> nat \<Rightarrow> (('d, 'c) Lobby, unit) comp" where
  "DisconnectedClient rs cl client =
     seqM (client_doP client (Stop cl))
    (bindM (client_getP client (GetToken cl)) (\<lambda>token.
     seqM (modify (\<lambda>s. s\<lparr>lb_loginedClients := map_erase token (lb_loginedClients s)\<rparr>))
    (seqM (rsP (Del rs (user_key token)))
    (ret ()))))"

definition HandleRequestSessionLeave :: "('c, 'y) lobby_client \<Rightarrow> nat \<Rightarrow> (('d, 'c) Lobby, unit) comp" where
  "HandleRequestSessionLeave cl client =
     bindM (client_getP client (GetToken cl)) (\<lambda>clientToken.
     seqM (client_doP client (Stop cl))
    (modify (\<lambda>s. s\<lparr>lb_loginedClients := map_erase clientToken (lb_loginedClients s)\<rparr>)))"

section \<open>The list of sessions\<close>

fun collect_session_info :: "'d IRedis \<Rightarrow> (int \<times> nat) list \<Rightarrow> (('d, 'c) Lobby, session_entry list) comp" where
  "collect_session_info rs [] = ret []"
| "collect_session_info rs ((index, ss) # rest) =
     bindM (GetSessionInfo rs ss) (\<lambda>res.
     case res of
       None \<Rightarrow> collect_session_info rs rest
     | Some i \<Rightarrow>
         bindM (collect_session_info rs rest) (\<lambda>list.
         ret (session_info.extend i \<lparr>si_sessionIndex = index\<rparr> # list)))"

definition RewriteSessionListCache :: "lobby_pb \<Rightarrow> 'd IRedis \<Rightarrow> (('d, 'c) Lobby, unit) comp" where
  "RewriteSessionListCache pb rs =
     bindM (gets lb_sessions) (\<lambda>sessions.
     seqM
       (if 0 < length sessions then
          bindM (collect_session_info rs sessions) (\<lambda>list.
          modify (\<lambda>s. s\<lparr>lb_serializedRSLCache :=
            serialize_session_list pb \<lparr>rsl_count = int (length sessions), rsl_list = list\<rparr>\<rparr>))
        else
          modify (\<lambda>s. s\<lparr>lb_serializedRSLCache := serialize_session_list pb \<lparr>rsl_count = 0, rsl_list = []\<rparr>\<rparr>))
       (modify (\<lambda>s. s\<lparr>lb_timers := Suc (lb_timers s)\<rparr>)))"

text \<open>The completion handler of the timer.\<close>

definition on_refresh_timer :: "lobby_pb \<Rightarrow> 'd IRedis \<Rightarrow> string option \<Rightarrow> (('d, 'c) Lobby, unit) comp" where
  "on_refresh_timer pb rs ec =
     seqM (modify (\<lambda>s. s\<lparr>lb_timers := lb_timers s - 1\<rparr>))
       (case ec of None \<Rightarrow> RewriteSessionListCache pb rs | Some _ \<Rightarrow> ret ())"

definition StartRefreshSessionCache :: "lobby_pb \<Rightarrow> 'd IRedis \<Rightarrow> (('d, 'c) Lobby, unit) comp" where
  "StartRefreshSessionCache pb rs = RewriteSessionListCache pb rs"

definition SendCurrentActivedSessionList :: "lobby_pb \<Rightarrow> ('c, 'y) lobby_client \<Rightarrow> nat \<Rightarrow> (('d, 'c) Lobby, unit) comp" where
  "SendCurrentActivedSessionList pb cl client =
     bindM (gets lb_serializedRSLCache) (\<lambda>cache.
     seqM (clientP client (PostWrite cl (framed (RESPONSE_SESSION_LIST pb) cache))) (ret ()))"

section \<open>Sessions\<close>

definition ActivateSession :: "int \<Rightarrow> (('d, 'c) Lobby, unit) comp" where
  "ActivateSession sessionIndex =
     bindM (gets lb_emptySessions) (\<lambda>emptySessions.
     case map_find sessionIndex emptySessions of
       None \<Rightarrow> ret ()
     | Some ss \<Rightarrow>
         seqM (modify (\<lambda>s. s\<lparr>lb_sessions := map_put sessionIndex ss (lb_sessions s)\<rparr>))
        (modify (\<lambda>s. s\<lparr>lb_emptySessions := map_erase sessionIndex (lb_emptySessions s)\<rparr>)))"

fun run_joincode_callback :: "joincode_callback \<Rightarrow> (('d, 'c) Lobby, unit) comp" where
  "run_joincode_callback (CallActivateSession sessionIndex) = ActivateSession sessionIndex"

text \<open>
  \<open>owning\<close>: an exception that leaves the scope of the only shared pointer to a session runs the
  destructor first.
\<close>

definition is_exception :: "fault \<Rightarrow> bool" where
  "is_exception e \<longleftrightarrow> (case e of Undefined _ \<Rightarrow> False | Terminated \<Rightarrow> False | OutOfFuel \<Rightarrow> False | _ \<Rightarrow> True)"

definition owning :: "('s, unit) comp \<Rightarrow> ('s, 'a) comp \<Rightarrow> ('s, 'a) comp" where
  "owning destroy m = (\<lambda>s. case fst (m s) of
       Inr a \<Rightarrow> (Inr a, snd (m s))
     | Inl e \<Rightarrow> if is_exception e then seqM destroy (raise e) (snd (m s)) else (Inl e, snd (m s)))"

definition LobbyManager_CreateSession ::
  "'d IRedis \<Rightarrow> ('c, 'y) lobby_client \<Rightarrow> nat \<Rightarrow> string \<Rightarrow> string \<Rightarrow> string \<Rightarrow> (('d, 'c) Lobby, int \<times> string) comp" where
  "LobbyManager_CreateSession rs cl client name password reason =
     bindM Session_ctor (\<lambda>session.
     bindM (owning (Session_dtor rs session)
              (Session_CreateSession rs cl session (Some client) 4 name password reason)) (\<lambda>(res, reason).
     if \<not> res then seqM (Session_dtor rs session) (ret (-1, reason))
     else
       bindM (gets lb_sessionIndexCounter) (\<lambda>counter.
       if sint counter = 2 ^ 31 - 1 then raise (Undefined ''signed overflow of _sessionIndexCounter'')
       else
         (let sessionIndex = sint (counter + 1)
          in seqM (modify (\<lambda>s. s\<lparr>lb_sessionIndexCounter := counter + 1\<rparr>))
            (seqM (modify (\<lambda>s. s\<lparr>lb_emptySessions := map_put sessionIndex session (lb_emptySessions s)\<rparr>))
            (seqM (SetReceiveJoinCodeCallback session (CallActivateSession sessionIndex))
            (ret (sessionIndex, ''ok''))))))))"

section \<open>Requests\<close>

definition HandleRequestSessionCreate ::
  "lobby_pb \<Rightarrow> 'd IRedis \<Rightarrow> ('c, 'y) lobby_client \<Rightarrow> nat \<Rightarrow> byte list \<Rightarrow> int \<Rightarrow> (('d, 'c) Lobby, unit) comp" where
  "HandleRequestSessionCreate pb rs cl client serializedData length' =
     bindM (ParseFromArray (parse_session_creation pb) serializedData length') (\<lambda>rcs.
     bindM
       (case rcs of
          Some m \<Rightarrow>
            bindM (LobbyManager_CreateSession rs cl client (rsc_sessionname m) (rsc_password m) []) (\<lambda>(res, reason).
            if 0 \<le> res then ret \<lparr>sc_sessionindex = res, sc_reason = ''ok''\<rparr>
            else ret \<lparr>sc_sessionindex = -1, sc_reason = reason\<rparr>)
        | None \<Rightarrow> ret \<lparr>sc_sessionindex = -1, sc_reason = ''Parsing message error.''\<rparr>) (\<lambda>response.
     seqM (clientP client (PostWrite cl
        (framed (RESPONSE_SESSION_CREATION pb) (serialize_session_creation pb response)))) (ret ())))"

definition HandleRequestSessionEnter ::
  "lobby_pb \<Rightarrow> 'd IRedis \<Rightarrow> ('c, 'y) lobby_client \<Rightarrow> nat \<Rightarrow> byte list \<Rightarrow> int \<Rightarrow> (('d, 'c) Lobby, unit) comp" where
  "HandleRequestSessionEnter pb rs cl client serializedData length' =
     bindM (ParseFromArray (parse_session_entry pb) serializedData length') (\<lambda>res.
     bindM
       (case res of
          Some sessionIndex \<Rightarrow>
            bindM (gets lb_emptySessions) (\<lambda>emptySessions.
            bindM (gets lb_sessions) (\<lambda>sessions.
            case map_find sessionIndex emptySessions of
              Some ss \<Rightarrow>
                bindM (Session_AddClient pb rs cl ss (Some client) []) (\<lambda>(success, reason).
                ret \<lparr>se_result = success, se_reason = reason\<rparr>)
            | None \<Rightarrow>
               (case map_find sessionIndex sessions of
                  Some ss \<Rightarrow>
                    bindM (Session_AddClient pb rs cl ss (Some client) []) (\<lambda>(success, reason).
                    ret \<lparr>se_result = success, se_reason = reason\<rparr>)
                | None \<Rightarrow> ret \<lparr>se_result = False, se_reason = ''Invalid session index''\<rparr>)))
        | None \<Rightarrow> ret \<lparr>se_result = False, se_reason = ''Parsing message error''\<rparr>) (\<lambda>response.
     seqM (clientP client (PostWrite cl
        (framed (RESPONSE_SESSION_ENTRY pb) (serialize_session_entry pb response)))) (ret ())))"

section \<open>The closures\<close>

definition if_alive :: "nat \<Rightarrow> (('d, 'c) Lobby, unit) comp \<Rightarrow> (('d, 'c) Lobby, unit) comp" where
  "if_alive c m = bindM (gets (\<lambda>s. pr_clients s c \<noteq> None)) (\<lambda>alive. if alive then m else ret ())"

fun run_lobby_handler ::
  "lobby_pb \<Rightarrow> 'd IRedis \<Rightarrow> ('c, 'y) lobby_client \<Rightarrow> lobby_handler \<Rightarrow> byte list \<Rightarrow> int \<Rightarrow> (('d, 'c) Lobby, unit) comp" where
  "run_lobby_handler pb rs cl (OnSessionList c) data len = if_alive c (SendCurrentActivedSessionList pb cl c)"
| "run_lobby_handler pb rs cl (OnSessionCreation c) data len = if_alive c (HandleRequestSessionCreate pb rs cl c data len)"
| "run_lobby_handler pb rs cl (OnSessionEntry c) data len = if_alive c (HandleRequestSessionEnter pb rs cl c data len)"
| "run_lobby_handler pb rs cl (OnLobbyExit c) data len = if_alive c (HandleRequestSessionLeave cl c)"
| "run_lobby_handler pb rs cl (OnJoinCode ss c) data len =
     handle_joincode pb rs cl run_joincode_callback ss c data len"
| "run_lobby_handler pb rs cl (OnRequestEnvironment c sessionKey host) data len =
     handle_request_environment pb rs cl c sessionKey host"

fun run_lobby_disconnect ::
  "'d IRedis \<Rightarrow> ('c, 'y) lobby_client \<Rightarrow> lobby_disconnect \<Rightarrow> (('d, 'c) Lobby, unit) comp" where
  "run_lobby_disconnect rs cl (OnLobbyDisconnected c) = if_alive c (DisconnectedClient rs cl c)"

end
