(* ===== verification/Redis_Expiry.thy ===== *)
theory Redis_Expiry
  imports Redis_Memory
begin

text \<open>
  The commands that only the session code under \<^verbatim>\<open>src/deprecated\<close> uses: SET on a key, HMSET,
  HEXISTS, HLEN, EXPIRE and PERSIST. Besides the view of a database, \<open>volatile\<close> is the set of
  keys that have a time to live (redis.io, EXPIRE: the timeout is removed by DEL, SET and PERSIST, and
  kept by the commands that alter the value of the key). \<open>redis_expiring\<close> states this of the client
  library, \<open>iredis_expiring\<close> of the interface; \<^verbatim>\<open>RedisService\<close> gives the one from the other.
\<close>

definition put_fields :: "view \<Rightarrow> string \<Rightarrow> (string \<times> string) list \<Rightarrow> view" where
  "put_fields v k fs = v(k \<mapsto> RHash (hash_at v k ++ map_of (rev fs)))"

lemma put_fields_at [simp]:
  "put_fields v k fs k' = (if k' = k then Some (RHash (hash_at v k ++ map_of (rev fs))) else v k')"
  by (simp add: put_fields_def)

lemma hash_at_put_fields [simp]:
  "hash_at (put_fields v k fs) k' = (if k' = k then hash_at v k ++ map_of (rev fs) else hash_at v k')"
  by (simp add: put_fields_def)

lemma hashy_put_fields [simp]: "hashy (put_fields v k fs) k' \<longleftrightarrow> k' = k \<or> hashy v k'"
  by (simp add: put_fields_def)

section \<open>The client library\<close>

locale redis_expiring = redis_live +
  fixes volatile :: "'a \<Rightarrow> string set"
  assumes hmset_live: "hashy (view d) k \<Longrightarrow> \<exists>u. fst (rc_hmset R k fs d) = Inr u"
    and hmset_effect: "fst (rc_hmset R k fs d) = Inr u \<Longrightarrow> view (snd (rc_hmset R k fs d)) = put_fields (view d) k fs"
    and expire_live: "\<exists>b. fst (rc_expire R k secs d) = Inr b"
    and expire_effect: "fst (rc_expire R k secs d) = Inr b \<Longrightarrow> 0 < secs \<Longrightarrow>
      view (snd (rc_expire R k secs d)) = view d
      \<and> volatile (snd (rc_expire R k secs d)) = (if view d k = None then volatile d else insert k (volatile d))"
    and persist_volatile: "fst (rc_persist R k d) = Inr b \<Longrightarrow> volatile (snd (rc_persist R k d)) = volatile d - {k}"
    and del_volatile: "fst (rc_del R k d) = Inr n \<Longrightarrow> volatile (snd (rc_del R k d)) = volatile d - {k}"
    and set_volatile: "fst (rc_set R k x d) = Inr b \<Longrightarrow> volatile (snd (rc_set R k x d)) = volatile d - {k}"
    and kept_volatile: "volatile (snd (rc_exists R k d)) = volatile d"
      "volatile (snd (rc_hget R k f d)) = volatile d" "volatile (snd (rc_hexists R k f d)) = volatile d"
      "volatile (snd (rc_hlen R k d)) = volatile d" "volatile (snd (rc_hset R k f x d)) = volatile d"
      "volatile (snd (rc_hmset R k fs d)) = volatile d"

section \<open>The interface\<close>

locale iredis_expiring = iredis +
  fixes volatile :: "'a \<Rightarrow> string set"
  assumes SetKey_ok: "k \<noteq> [] \<Longrightarrow> fst (SetKey rs k x d) = Inr True"
      "k \<noteq> [] \<Longrightarrow> view (snd (SetKey rs k x d)) = (view d)(k \<mapsto> RString x)"
      "k \<noteq> [] \<Longrightarrow> volatile (snd (SetKey rs k x d)) = volatile d - {k}"
    and HashFieldExists_ok: "hashy (view d) k \<Longrightarrow> fst (HashFieldExists rs k f d) = Inr (hash_at (view d) k f \<noteq> None)"
      "view (snd (HashFieldExists rs k f d)) = view d"
    and HashSetMany_ok: "hashy (view d) k \<Longrightarrow> fst (HashSetMany rs k fs d) = Inr ()"
      "hashy (view d) k \<Longrightarrow> view (snd (HashSetMany rs k fs d)) = put_fields (view d) k fs"
    and HashLen_ok: "hashy (view d) k \<Longrightarrow> fst (HashLen rs k d) = Inr (int (card (dom (hash_at (view d) k))))"
      "view (snd (HashLen rs k d)) = view d"
    and Expire_ok: "\<exists>b. fst (Expire rs k mins d) = Inr b"
      "0 < mins \<Longrightarrow> view (snd (Expire rs k mins d)) = view d"
      "0 < mins \<Longrightarrow> volatile (snd (Expire rs k mins d)) = (if view d k = None then volatile d else insert k (volatile d))"
    and Persist_volatile: "volatile (snd (Persist rs k d)) = volatile d - {k}"
    and Del_volatile: "volatile (snd (Del rs k d)) = volatile d - {k}"
    and volatile_kept: "volatile (snd (Exists rs k d)) = volatile d"
      "volatile (snd (HashGet rs k f d)) = volatile d" "volatile (snd (HashFieldExists rs k f d)) = volatile d"
      "volatile (snd (HashLen rs k d)) = volatile d" "volatile (snd (HashSet rs k f x d)) = volatile d"
      "volatile (snd (HashSetMany rs k fs d)) = volatile d"
begin

lemmas Expiry_ok = SetKey_ok HashFieldExists_ok HashSetMany_ok HashLen_ok Expire_ok(2,3)
  Persist_volatile Del_volatile volatile_kept

end

sublocale redis_expiring \<subseteq> esvc: iredis_expiring "RedisService R" view volatile
proof
  fix k f x d fs
  fix mins :: int
  show "k \<noteq> [] \<Longrightarrow> fst (SetKey (RedisService R) k x d) = Inr True"
    "k \<noteq> [] \<Longrightarrow> view (snd (SetKey (RedisService R) k x d)) = (view d)(k \<mapsto> RString x)"
    "k \<noteq> [] \<Longrightarrow> volatile (snd (SetKey (RedisService R) k x d)) = volatile d - {k}"
    using set_live [of k x d] set_effect [of k x d] set_volatile [of k x d]
    by (auto simp: RedisService_def RedisService_Set_def comp_simps)
  show "hashy (view d) k \<Longrightarrow> fst (HashFieldExists (RedisService R) k f d) = Inr (hash_at (view d) k f \<noteq> None)"
    "view (snd (HashFieldExists (RedisService R) k f d)) = view d"
    using hexists_live [of d k f] hexists_result [of k f d] hexists_view [of k f d]
    by (auto simp: RedisService_def RedisService_HashFieldExists_def)
  show "hashy (view d) k \<Longrightarrow> fst (HashSetMany (RedisService R) k fs d) = Inr ()"
    "hashy (view d) k \<Longrightarrow> view (snd (HashSetMany (RedisService R) k fs d)) = put_fields (view d) k fs"
    using hmset_live [of d k fs] hmset_effect [of k fs d]
    by (auto simp: RedisService_def RedisService_HashSetMany_def)
  show "hashy (view d) k \<Longrightarrow> fst (HashLen (RedisService R) k d) = Inr (int (card (dom (hash_at (view d) k))))"
    "view (snd (HashLen (RedisService R) k d)) = view d"
    using hlen_live [of d k] hlen_result [of k d] hlen_view [of k d]
    by (auto simp: RedisService_def RedisService_HashLen_def)
  show "\<exists>b. fst (Expire (RedisService R) k mins d) = Inr b"
    "0 < mins \<Longrightarrow> view (snd (Expire (RedisService R) k mins d)) = view d"
    "0 < mins \<Longrightarrow> volatile (snd (Expire (RedisService R) k mins d))
        = (if view d k = None then volatile d else insert k (volatile d))"
    using expire_live [of k "60 * mins" d] expire_effect [of k "60 * mins" d]
    by (auto simp: RedisService_def RedisService_Expire_def)
  show "volatile (snd (Persist (RedisService R) k d)) = volatile d - {k}"
    using persist_live [of k d] persist_volatile [of k d]
    by (auto simp: RedisService_def RedisService_Persist_def)
  show "volatile (snd (Del (RedisService R) k d)) = volatile d - {k}"
    using del_live [of k d] del_volatile [of k d]
    by (auto simp: RedisService_def RedisService_Del_def comp_simps)
  show "volatile (snd (Exists (RedisService R) k d)) = volatile d"
    "volatile (snd (HashFieldExists (RedisService R) k f d)) = volatile d"
    "volatile (snd (HashLen (RedisService R) k d)) = volatile d"
    "volatile (snd (HashSetMany (RedisService R) k fs d)) = volatile d"
    using exists_live [of k d] kept_volatile
    by (auto simp: RedisService_def RedisService_Exists_def RedisService_HashFieldExists_def
        RedisService_HashLen_def RedisService_HashSetMany_def comp_simps)
  show "volatile (snd (HashGet (RedisService R) k f d)) = volatile d"
    "volatile (snd (HashSet (RedisService R) k f x d)) = volatile d"
    using kept_volatile
    by (auto simp: RedisService_def RedisService_HashGet_def RedisService_HashSet_def bindM_apply comp_simps
        split: sum.split option.split)
qed

section \<open>An instance\<close>

text \<open>
  The in-memory client with the keys that have a time to live beside it. The commands that alter
  a value are those of \<open>mem_redis\<close>.
\<close>

type_synonym expdb = "memdb \<times> string list"

definition on_mem :: "(memdb, 'a) comp \<Rightarrow> (expdb, 'a) comp" where
  "on_mem m = (\<lambda>(d, ts). (fst (m d), (snd (m d), ts)))"

definition on_mem_persist :: "string \<Rightarrow> (memdb, 'a) comp \<Rightarrow> (expdb, 'a) comp" where
  "on_mem_persist k m = (\<lambda>(d, ts). (fst (m d), (snd (m d), filter (\<lambda>k'. k' \<noteq> k) ts)))"

definition exp_redis :: "expdb redis_client" where
  "exp_redis =
     \<lparr>rc_ping = on_mem (rc_ping mem_redis), rc_set = (\<lambda>k x. on_mem_persist k (rc_set mem_redis k x)),
      rc_get = (\<lambda>k. on_mem (rc_get mem_redis k)), rc_exists = (\<lambda>k. on_mem (rc_exists mem_redis k)),
      rc_del = (\<lambda>k. on_mem_persist k (rc_del mem_redis k)),
      rc_persist = (\<lambda>k. on_mem_persist k (rc_persist mem_redis k)),
      rc_flushall = (\<lambda>_. (Inr (), ([], []))), rc_scan = (\<lambda>c p. on_mem (rc_scan mem_redis c p)),
      rc_hexists = (\<lambda>k f. on_mem (rc_hexists mem_redis k f)),
      rc_hset = (\<lambda>k f x. on_mem (rc_hset mem_redis k f x)),
      rc_hmset = (\<lambda>k fs. on_mem (rc_hmset mem_redis k fs)),
      rc_hlen = (\<lambda>k. on_mem (rc_hlen mem_redis k)),
      rc_hget = (\<lambda>k f. on_mem (rc_hget mem_redis k f)),
      rc_hdel = (\<lambda>k f. on_mem (rc_hdel mem_redis k f)),
      rc_sadd = (\<lambda>k m. on_mem (rc_sadd mem_redis k m)), rc_srem = (\<lambda>k m. on_mem (rc_srem mem_redis k m)),
      rc_sismember = (\<lambda>k m. on_mem (rc_sismember mem_redis k m)),
      rc_smembers = (\<lambda>k. on_mem (rc_smembers mem_redis k)), rc_scard = (\<lambda>k. on_mem (rc_scard mem_redis k)),
      rc_expire = (\<lambda>k t (d, ts). (Inr (mem_view d k \<noteq> None),
          (d, if mem_view d k = None then ts else List.insert k ts)))\<rparr>"

definition exp_view :: "expdb \<Rightarrow> view" where
  "exp_view d = mem_view (fst d)"

definition exp_volatile :: "expdb \<Rightarrow> string set" where
  "exp_volatile d = set (snd d)"

lemma on_mem_simps [simp]:
  "fst (on_mem m d) = fst (m (fst d))" "fst (snd (on_mem m d)) = snd (m (fst d))" "snd (snd (on_mem m d)) = snd d"
  "fst (on_mem_persist k m d) = fst (m (fst d))" "fst (snd (on_mem_persist k m d)) = snd (m (fst d))"
  "snd (snd (on_mem_persist k m d)) = filter (\<lambda>k'. k' \<noteq> k) (snd d)"
  by (simp_all add: on_mem_def on_mem_persist_def case_prod_beta)

lemma mem_hmset:
  "fst (rc_hmset mem_redis k fs d) = (if hashy (mem_view d) k then Inr () else Inl wrong_type)"
  "hashy (mem_view d) k \<Longrightarrow> mem_view (snd (rc_hmset mem_redis k fs d)) = put_fields (mem_view d) k fs"
  by (simp_all add: mem_redis_def on_hash_def put_fields_def)

lemma exp_redis_simps:
  "rc_ping exp_redis = on_mem (rc_ping mem_redis)" "rc_set exp_redis k x = on_mem_persist k (rc_set mem_redis k x)"
  "rc_get exp_redis k = on_mem (rc_get mem_redis k)" "rc_exists exp_redis k = on_mem (rc_exists mem_redis k)"
  "rc_del exp_redis k = on_mem_persist k (rc_del mem_redis k)"
  "rc_persist exp_redis k = on_mem_persist k (rc_persist mem_redis k)"
  "rc_scan exp_redis c p = on_mem (rc_scan mem_redis c p)"
  "rc_hexists exp_redis k f = on_mem (rc_hexists mem_redis k f)"
  "rc_hset exp_redis k f x = on_mem (rc_hset mem_redis k f x)" "rc_hmset exp_redis k fs = on_mem (rc_hmset mem_redis k fs)"
  "rc_hlen exp_redis k = on_mem (rc_hlen mem_redis k)" "rc_hget exp_redis k f = on_mem (rc_hget mem_redis k f)"
  "rc_hdel exp_redis k f = on_mem (rc_hdel mem_redis k f)"
  "rc_expire exp_redis k t d = (Inr (mem_view (fst d) k \<noteq> None),
     (fst d, if mem_view (fst d) k = None then snd d else List.insert k (snd d)))"
  by (simp_all add: exp_redis_def case_prod_beta)

interpretation emem: redis_live exp_redis exp_view mem_glob
  using mem.scan_live mem.ping_live mem.scan_result mem.hexists_result mem.del_fault mem.hset_fault mem.hdel_fault
  by unfold_locales
    (simp_all only: exp_redis_simps exp_view_def on_mem_simps mem.exists_result mem.exists_view mem.del_effect
      mem.persist_view mem.hget_result mem.hget_view mem.hexists_view mem.hlen_result
      mem.hlen_view mem.hset_effect mem.hdel_effect mem.set_effect mem.get_result
      mem.get_view mem.scan_whole mem.scan_view mem.glob_prefix mem.exists_live
      mem.del_live mem.persist_live mem.hget_live mem.hset_live mem.hdel_live mem.hlen_live mem.hexists_live
      mem.set_live)

interpretation emem: redis_expiring exp_redis exp_view mem_glob exp_volatile
  by unfold_locales
    (auto simp: exp_redis_simps exp_view_def exp_volatile_def mem_hmset split: if_splits)

end
