(* ===== verification/Session_Spec.thy ===== *)
theory Session_Spec
  imports Session Client_Contract Redis_Expiry
begin

text \<open>
  What a session of \<^verbatim>\<open>src/deprecated/session.cpp\<close> means: a host, a limit, a name, a password,
  a join code and the members with their nicknames (\<open>session_data\<close>), how the two hashes in Redis
  represent it (\<open>game_rel\<close>), and the proofs that creation, entry, the join code and the
  information call implement the operations on it. \<open>legacy_client\<close> is the contract of the old client
  class that they rely on.
\<close>

section \<open>The client\<close>

locale legacy_client = iclient cl queue phandler ehandler wf
  for cl :: "('c, 'h, 'e, 'y) LegacyClient_scheme"
    and queue :: "'c \<Rightarrow> byte list list"
    and phandler :: "'c \<Rightarrow> int \<Rightarrow> 'h option"
    and ehandler :: "'c \<Rightarrow> int \<Rightarrow> 'e option"
    and wf :: "'c \<Rightarrow> bool" +
  assumes nickname_kept: "GetNickname cl (SetPacketHandler cl t h c) = GetNickname cl c"
      "GetNickname cl (snd (PostWrite cl b c)) = GetNickname cl c"
    and clear_token: "GetToken cl (ClearPacketHandler cl c) = GetToken cl c"
      "GetToken cl (ClearDisconnectHandler cl c) = GetToken cl c"
      "GetToken cl (SetDisconnectHandler cl t e c) = GetToken cl c"
      "GetToken cl (RemovePacketHandler cl t c) = GetToken cl c"
begin

lemmas Legacy_ok = Client_ok nickname_kept clear_token

end

text \<open>\<^verbatim>\<open>ClientSocket\<close> with a nickname beside it.\<close>

definition named :: "('c \<Rightarrow> 'c) \<Rightarrow> 'c \<times> string \<Rightarrow> 'c \<times> string" where
  "named f = (\<lambda>(c, n). (f c, n))"

definition named_call :: "('c \<Rightarrow> 'a \<times> 'c) \<Rightarrow> 'c \<times> string \<Rightarrow> 'a \<times> 'c \<times> string" where
  "named_call f = (\<lambda>(c, n). (fst (f c), snd (f c), n))"

definition named_client :: "(('h, 'e) ClientSocket \<times> string, 'h, 'e) LegacyClient" where
  "named_client =
     \<lparr>Init = named_call ClientSocket_Init, Stop = named ClientSocket_Stop,
      PostWrite = (\<lambda>b. named_call (ClientSocket_PostWrite b)),
      SetPacketHandler = (\<lambda>t h. named (ClientSocket_SetPacketHandler t h)),
      SetErrorHandler = (\<lambda>t h. named (ClientSocket_SetErrorHandler t h)),
      RemovePacketHandler = (\<lambda>t. named (ClientSocket_RemovePacketHandler t)),
      RemoveDisconnectHandler = (\<lambda>t. named (ClientSocket_RemoveDisconnectHandler t)),
      ClearPacketHandler = named ClientSocket_ClearPacketHandler,
      ClearDisconnectHandler = named ClientSocket_ClearDisconnectHandler,
      GetToken = (\<lambda>(c, _). ClientSocket_GetToken c), SetLoginKey = (\<lambda>k. named (ClientSocket_SetLoginKey k)),
      GetLoginKey = (\<lambda>(c, _). ClientSocket_GetLoginKey c), GetNickname = snd,
      SetDisconnectHandler = (\<lambda>t h. named (ClientSocket_SetErrorHandler t h))\<rparr>"

interpretation nc: legacy_client named_client "\<lambda>c. cs_writeBufferQueue (fst c)" "\<lambda>c. packet_handler_of (fst c)"
  "\<lambda>c. error_handler_of (fst c)" "\<lambda>c. handlers_ok (fst c)"
  by unfold_locales
    (auto simp: named_client_def named_def named_call_def ClientSocket_defs handlers_ok_def packet_handler_of_def
      error_handler_of_def fun_eq_iff split: list.split prod.split)

section \<open>Keys\<close>

lemma colon_not_in_decimal: "CHR '':'' \<notin> set (to_string_u64 t)"
proof
  assume "CHR '':'' \<in> set (to_string_u64 t)"
  then obtain d where "d < 10" "CHR '':'' = digit_char d"
    unfolding to_string_u64_def using dec_of_nat_digits by blast
  then have "of_char (CHR '':'') = 48 + d" using of_char_digit_char by metis
  with \<open>d < 10\<close> show False by simp
qed

lemma session_key_inj [simp]: "session_key t = session_key t' \<longleftrightarrow> t = t'"
  by (simp add: session_key_def)

lemma session_clients_key_inj [simp]: "session_clients_key t = session_clients_key t' \<longleftrightarrow> t = t'"
  by (simp add: session_clients_key_def)

lemma session_key_not_clients: "session_key t \<noteq> session_clients_key t'"
proof -
  have "to_string_u64 t \<noteq> to_string_u64 t' @ '':clients''"
    using colon_not_in_decimal [of t] by auto
  then show ?thesis by (simp add: session_key_def session_clients_key_def)
qed

lemmas session_keys_distinct [simp] = session_key_not_clients not_sym [OF session_key_not_clients]

lemma user_key_distinct [simp]:
  "user_key t \<noteq> session_key t'" "user_key t \<noteq> session_clients_key t'"
  "session_key t' \<noteq> user_key t" "session_clients_key t' \<noteq> user_key t"
  by (simp_all add: user_key_def session_key_def session_clients_key_def)

lemma user_key_inj [simp]: "user_key t = user_key t' \<longleftrightarrow> t = t'"
  by (simp add: user_key_def)

section \<open>Sessions and their representation\<close>

record session_data =
  sd_host :: token
  sd_max :: uint32
  sd_name :: string
  sd_password :: string
  sd_joinCode :: string
  sd_members :: "token \<rightharpoonup> string"

definition members_rel :: "(string \<rightharpoonup> string) \<Rightarrow> (token \<rightharpoonup> string) \<Rightarrow> bool" where
  "members_rel h m \<longleftrightarrow> (\<forall>t. h (to_string_u64 t) = m t) \<and> dom h \<subseteq> range to_string_u64"

definition settings_rel :: "(string \<rightharpoonup> string) \<Rightarrow> session_data \<Rightarrow> bool" where
  "settings_rel h sd \<longleftrightarrow>
     h ''hostToken'' = Some (to_string_u64 (sd_host sd))
     \<and> h ''maxClientCount'' = Some (dec_of_nat (unat (sd_max sd)))
     \<and> h ''name'' = Some (sd_name sd) \<and> h ''password'' = Some (sd_password sd)
     \<and> h ''joinCode'' = Some (sd_joinCode sd)"

definition game_rel :: "view \<Rightarrow> token \<Rightarrow> session_data \<Rightarrow> bool" where
  "game_rel v t sd \<longleftrightarrow>
     hashy v (session_key t) \<and> hashy v (session_clients_key t) \<and> v (session_clients_key t) \<noteq> None
     \<and> settings_rel (hash_at v (session_key t)) sd
     \<and> members_rel (hash_at v (session_clients_key t)) (sd_members sd)"

text \<open>Entry: the host always, a guest while the host is a member and the count is not above the limit.\<close>

definition entry_refused :: "token \<Rightarrow> session_data \<Rightarrow> string option" where
  "entry_refused t sd =
     (if t = sd_host sd then None
      else if sd_members sd (sd_host sd) = None
        then Some ''Session::AddClient. The host client is not in session.''
      else if unat (sd_max sd) < card (dom (sd_members sd)) then Some ''Session is full''
      else None)"

definition session_enter :: "token \<Rightarrow> string \<Rightarrow> session_data \<Rightarrow> (bool \<times> string) \<times> session_data" where
  "session_enter t nickname sd =
     (case entry_refused t sd of
        Some why \<Rightarrow> ((False, why), sd)
      | None \<Rightarrow> ((True, ''ok''), sd\<lparr>sd_members := (sd_members sd)(t \<mapsto> nickname)\<rparr>))"

definition session_create :: "token \<Rightarrow> string \<Rightarrow> uint32 \<Rightarrow> string \<Rightarrow> string \<Rightarrow> session_data" where
  "session_create t nickname maxc name password =
     \<lparr>sd_host = t, sd_max = maxc, sd_name = name, sd_password = password, sd_joinCode = [],
      sd_members = [t \<mapsto> nickname]\<rparr>"

text \<open>
  Completeness, read off the database alone: the five settings are there, the host is a number other than
  0, and the hash of the members exists. A session is shown in the list when it is complete and has a member.
\<close>

definition session_fields :: "string list" where
  "session_fields = [''hostToken'', ''maxClientCount'', ''name'', ''password'', ''joinCode'']"

definition complete_session :: "view \<Rightarrow> token \<Rightarrow> bool" where
  "complete_session v t \<longleftrightarrow>
     (\<forall>f\<in>set session_fields. hash_at v (session_key t) f \<noteq> None)
     \<and> (case hash_at v (session_key t) ''hostToken'' of
          None \<Rightarrow> False
        | Some h \<Rightarrow> (case stoull h of Inl _ \<Rightarrow> False | Inr host \<Rightarrow> host \<noteq> 0))
     \<and> v (session_clients_key t) \<noteq> None"

definition shown_session :: "view \<Rightarrow> token \<Rightarrow> session_info option" where
  "shown_session v t =
     (let h = hash_at v (session_key t); n = card (dom (hash_at v (session_clients_key t)))
      in if complete_session v t \<and> n \<noteq> 0
         then Some \<lparr>si_name = the (h ''name''),
                    si_maxClientCount = (case stoi (the (h ''maxClientCount'')) of Inl _ \<Rightarrow> 0 | Inr m \<Rightarrow> m),
                    si_clientCount = int n, si_password = the (h ''password''), si_joinCode = the (h ''joinCode'')\<rparr>
         else None)"

text \<open>
  What reading a session needs: both keys hold hashes (if they exist), the limit of a complete session
  is a number (\<^verbatim>\<open>std::stoi\<close> throws otherwise), and the count fits an \<^verbatim>\<open>int\<close>.
\<close>

definition readable_session :: "view \<Rightarrow> token \<Rightarrow> bool" where
  "readable_session v t \<longleftrightarrow>
     hashy v (session_key t) \<and> hashy v (session_clients_key t)
     \<and> card (dom (hash_at v (session_clients_key t))) < 2 ^ 31
     \<and> (complete_session v t \<longrightarrow> (\<exists>m. stoi (the (hash_at v (session_key t) ''maxClientCount'')) = Inr m))"

text \<open>
  The members of a session after entries by the clients \<open>seen\<close>, the host among them: all of them as long
  as there are no more than the limit, and never more than the limit and one.
\<close>

definition capacity_inv :: "token set \<Rightarrow> session_data \<Rightarrow> bool" where
  "capacity_inv seen sd \<longleftrightarrow>
     finite seen \<and> sd_members sd (sd_host sd) \<noteq> None \<and> dom (sd_members sd) \<subseteq> seen
     \<and> card (dom (sd_members sd)) \<le> unat (sd_max sd) + 1
     \<and> (card (dom (sd_members sd)) \<le> unat (sd_max sd) \<longrightarrow> dom (sd_members sd) = seen)"

lemma capacity_create:
  assumes "maxc \<noteq> 0"
  shows "capacity_inv {t} (session_create t nickname maxc name password)"
  using assms by (simp add: capacity_inv_def session_create_def)

lemma capacity_enter:
  assumes "capacity_inv seen sd"
  shows "capacity_inv (insert u seen) (snd (session_enter u nickname sd))"
proof -
  have fin: "finite (dom (sd_members sd))" using assms finite_subset by (auto simp: capacity_inv_def)
  show ?thesis
  proof (cases "u \<in> dom (sd_members sd)")
    case True
    then have "insert u (dom (sd_members sd)) = dom (sd_members sd)" "u \<in> seen"
      using assms by (auto simp: capacity_inv_def)
    then show ?thesis using assms by (auto simp: capacity_inv_def session_enter_def insert_absorb split: option.split)
  next
    case False
    with fin have "card (insert u (dom (sd_members sd))) = Suc (card (dom (sd_members sd)))" by simp
    with False show ?thesis using assms
      by (auto simp: capacity_inv_def session_enter_def entry_refused_def split: option.split if_splits)
  qed
qed

lemma capacity_card:
  assumes "capacity_inv seen sd"
  shows "card (dom (sd_members sd)) = min (unat (sd_max sd) + 1) (card seen)"
proof (cases "card (dom (sd_members sd)) \<le> unat (sd_max sd)")
  case True
  then show ?thesis using assms by (simp add: capacity_inv_def)
next
  case False
  then have "card (dom (sd_members sd)) = unat (sd_max sd) + 1" using assms by (simp add: capacity_inv_def)
  moreover have "card (dom (sd_members sd)) \<le> card seen" using assms by (auto simp: capacity_inv_def intro: card_mono)
  ultimately show ?thesis by simp
qed

lemma members_rel_card: "members_rel h m \<Longrightarrow> card (dom h) = card (dom m)"
proof -
  assume r: "members_rel h m"
  have "dom h = to_string_u64 ` dom m"
    using r unfolding members_rel_def by (force simp: dom_def)
  moreover have "inj to_string_u64" by (simp add: inj_def)
  ultimately show ?thesis by (simp add: card_image inj_on_def)
qed

lemma members_rel_put: "members_rel h m \<Longrightarrow> members_rel (h(to_string_u64 t \<mapsto> x)) (m(t \<mapsto> x))"
  by (auto simp: members_rel_def)

lemma members_rel_empty: "members_rel Map.empty Map.empty"
  by (simp add: members_rel_def)

lemma settings_rel_joinCode: "settings_rel h sd \<Longrightarrow> settings_rel (h(''joinCode'' \<mapsto> x)) (sd\<lparr>sd_joinCode := x\<rparr>)"
  by (simp add: settings_rel_def)

lemma game_relD:
  assumes "game_rel v t sd"
  shows "hashy v (session_key t)" "hashy v (session_clients_key t)" "\<exists>y. v (session_clients_key t) = Some y"
    "\<exists>y. v (session_key t) = Some y"
    "hash_at v (session_key t) ''hostToken'' = Some (to_string_u64 (sd_host sd))"
    "hash_at v (session_key t) ''maxClientCount'' = Some (dec_of_nat (unat (sd_max sd)))"
    "hash_at v (session_key t) ''name'' = Some (sd_name sd)"
    "hash_at v (session_key t) ''password'' = Some (sd_password sd)"
    "hash_at v (session_key t) ''joinCode'' = Some (sd_joinCode sd)"
    "hash_at v (session_clients_key t) (to_string_u64 u) = sd_members sd u"
    "card (dom (hash_at v (session_clients_key t))) = card (dom (sd_members sd))"
  using assms members_rel_card hash_at_SomeD [of v "session_key t" "''name''"]
  by (auto simp: game_rel_def settings_rel_def members_rel_def)

lemma game_rel_complete: "game_rel v t sd \<Longrightarrow> sd_host sd \<noteq> 0 \<Longrightarrow> complete_session v t"
  using game_relD [of v t sd] by (simp add: complete_session_def session_fields_def)

lemma game_rel_member:
  assumes "game_rel v t sd"
  shows "game_rel (put_field v (session_clients_key t) (to_string_u64 u) x) t
    (sd\<lparr>sd_members := (sd_members sd)(u \<mapsto> x)\<rparr>)"
  using assms members_rel_put by (auto simp: game_rel_def settings_rel_def)

lemma game_rel_joinCode:
  assumes "game_rel v t sd"
  shows "game_rel (put_field v (session_key t) ''joinCode'' x) t (sd\<lparr>sd_joinCode := x\<rparr>)"
  using assms settings_rel_joinCode by (auto simp: game_rel_def)

lemma game_rel_frame:
  assumes "game_rel v t sd" "v' (session_key t) = v (session_key t)" "v' (session_clients_key t) = v (session_clients_key t)"
  shows "game_rel v' t sd"
  using assms by (simp add: game_rel_def hashy_def hash_at_def)

end
