(* ===== verification/Session_Refines.thy ===== *)
theory Session_Refines
  imports Session_Spec
begin

text \<open>
  The operations of \<^verbatim>\<open>session.cpp\<close> implement \<open>Session_Spec\<close>, for every Redis that keeps the
  contract \<open>iredis_expiring\<close> and every client that keeps \<open>legacy_client\<close>.
\<close>

section \<open>Calls\<close>

lemma rsP_simps [simp]:
  "fst (rsP m s) = fst (m (pr_db s))" "snd (rsP m s) = s\<lparr>pr_db := snd (m (pr_db s))\<rparr>"
  by (simp_all add: rsP_def)

lemma clientP_simps [simp]:
  "pr_clients s r = Some c \<Longrightarrow> fst (clientP r f s) = Inr (fst (f c))"
  "pr_clients s r = Some c \<Longrightarrow> snd (clientP r f s) = s\<lparr>pr_clients := (pr_clients s)(r \<mapsto> snd (f c))\<rparr>"
  by (simp_all add: clientP_def)

lemma client_doP_simps [simp]:
  "pr_clients s r = Some c \<Longrightarrow> fst (client_doP r g s) = Inr ()"
  "pr_clients s r = Some c \<Longrightarrow> snd (client_doP r g s) = s\<lparr>pr_clients := (pr_clients s)(r \<mapsto> g c)\<rparr>"
  by (simp_all add: client_doP_def)

lemma client_getP_simps [simp]:
  "pr_clients s r = Some c \<Longrightarrow> fst (client_getP r h s) = Inr (h c)"
  "pr_clients s r = Some c \<Longrightarrow> snd (client_getP r h s) = s"
  by (simp_all add: client_getP_def)

lemma session_get_simps [simp]:
  "pr_sessions s ss = Some o' \<Longrightarrow> fst (session_get ss h s) = Inr (h o')"
  "pr_sessions s ss = Some o' \<Longrightarrow> snd (session_get ss h s) = s"
  by (simp_all add: session_get_def)

lemma session_do_simps [simp]:
  "pr_sessions s ss = Some o' \<Longrightarrow> fst (session_do ss g s) = Inr ()"
  "pr_sessions s ss = Some o' \<Longrightarrow> snd (session_do ss g s) = s\<lparr>pr_sessions := (pr_sessions s)(ss \<mapsto> g o')\<rparr>"
  by (simp_all add: session_do_def)

lemma throwing_simps [simp]: "throwing (Inr a) = ret a" "throwing (Inl e) = raise e"
  by (simp_all add: throwing_def)

text \<open>
  \<open>served\<close>: the call returned \<open>y\<close>, left the view \<open>v\<close> of the database with the volatile keys
  \<open>vol\<close> and the client objects \<open>heap\<close>, and changed nothing else.
\<close>

definition served ::
  "('d \<Rightarrow> view) \<Rightarrow> ('d \<Rightarrow> string set) \<Rightarrow> ('d, 'c, 'z) Process_scheme \<Rightarrow> 'a \<Rightarrow> view \<Rightarrow> string set \<Rightarrow> (nat \<rightharpoonup> 'c)
     \<Rightarrow> (fault + 'a) \<times> ('d, 'c, 'z) Process_scheme \<Rightarrow> bool" where
  "served view volatile s y v vol heap res \<longleftrightarrow>
     fst res = Inr y \<and> view (pr_db (snd res)) = v \<and> volatile (pr_db (snd res)) = vol
     \<and> snd res = s\<lparr>pr_db := pr_db (snd res), pr_clients := heap\<rparr>"

lemma servedE:
  assumes "served view volatile s y v vol heap res"
  obtains d where "res = (Inr y, s\<lparr>pr_db := d, pr_clients := heap\<rparr>)" "view d = v" "volatile d = vol"
  using assms that [of "pr_db (snd res)"] by (cases res) (auto simp: served_def)

definition session_at :: "('d, 'c, 'z) Process_scheme \<Rightarrow> nat \<Rightarrow> token \<Rightarrow> bool" where
  "session_at s ss t \<longleftrightarrow>
     (case pr_sessions s ss of None \<Rightarrow> False
      | Some o' \<Rightarrow> ss_token o' = t \<and> ss_sessionKey o' = session_key t \<and> ss_sessionClientsKey o' = session_clients_key t)"

lemma session_atE:
  assumes "session_at s ss t"
  obtains o' where "pr_sessions s ss = Some o'" "ss_token o' = t" "ss_sessionKey o' = session_key t"
    "ss_sessionClientsKey o' = session_clients_key t"
  using assms by (auto simp: session_at_def split: option.splits)

lemma Process_update_order: "s\<lparr>pr_sessions := a, pr_db := d\<rparr> = s\<lparr>pr_db := d, pr_sessions := a\<rparr>"
  by (cases s) simp

lemma Process_heap_same: "pr_clients s r = Some c \<Longrightarrow> s\<lparr>pr_clients := (pr_clients s)(r \<mapsto> c)\<rparr> = s"
  by (simp add: fun_upd_idem)

text \<open>The client object after an entry.\<close>

definition after_entry ::
  "'x session_pb_scheme \<Rightarrow> ('c, lobby_handler, 'e, 'y) IClient_scheme \<Rightarrow> nat \<Rightarrow> nat \<Rightarrow> token \<Rightarrow> session_data \<Rightarrow> 'c \<Rightarrow> 'c" where
  "after_entry pb cl ss r t sd c =
     (let u = GetToken cl c; host = (sd_host sd = u);
          c' = (if host then SetPacketHandler cl (sint (JOINCODE pb)) (OnJoinCode ss r) c else c)
      in if entry_refused u sd = None
         then SetPacketHandler cl (sint (REQUEST_ENVIRONMENT pb)) (OnRequestEnvironment r (session_key t) host) c'
         else c')"

locale session_service = rd: iredis_expiring rs view volatile + lc: legacy_client cl queue phandler ehandler wf
  for rs :: "'d IRedis" and view :: "'d \<Rightarrow> view" and volatile :: "'d \<Rightarrow> string set"
    and cl :: "('c, lobby_handler, lobby_disconnect, 'y) LegacyClient_scheme"
    and queue :: "'c \<Rightarrow> byte list list"
    and phandler :: "'c \<Rightarrow> int \<Rightarrow> lobby_handler option"
    and ehandler :: "'c \<Rightarrow> int \<Rightarrow> lobby_disconnect option"
    and wf :: "'c \<Rightarrow> bool"
begin

lemmas run_simps = ParseFromArray_nonneg bindM_norm bindM_run Let_def rd.Redis_ok rd.Expiry_ok

lemma all_fields_exist_sim:
  assumes "hashy (view d) k"
  shows "fst (all_fields_exist rs k fs d) = Inr (\<forall>f \<in> set fs. hash_at (view d) k f \<noteq> None)
    \<and> view (snd (all_fields_exist rs k fs d)) = view d \<and> volatile (snd (all_fields_exist rs k fs d)) = volatile d"
  using assms
proof (induction fs arbitrary: d)
  case (Cons f fs)
  let ?d = "snd (HashFieldExists rs k f d)"
  have "fst (HashFieldExists rs k f d) = Inr (hash_at (view d) k f \<noteq> None)" using Cons.prems by (simp add: rd.Expiry_ok)
  then have "all_fields_exist rs k (f # fs) d
      = (if hash_at (view d) k f \<noteq> None then all_fields_exist rs k fs ?d else (Inr False, ?d))"
    by (simp add: bindM_run ret_apply)
  then show ?case using Cons.IH [of ?d] Cons.prems by (simp add: rd.Expiry_ok)
qed simp

text \<open>The checks of a session decide its completeness, in whatever state the database is.\<close>

lemma IsValidSession_sim:
  assumes "session_at s ss t" and h: "hashy (view (pr_db s)) (session_key t)"
  shows "\<exists>why. served view volatile s (complete_session (view (pr_db s)) t, why) (view (pr_db s)) (volatile (pr_db s))
      (pr_clients s) (IsValidSession rs ss reason s) \<and> (complete_session (view (pr_db s)) t \<longrightarrow> why = reason)"
proof -
  obtain o' where o: "pr_sessions s ss = Some o'" "ss_sessionKey o' = session_key t"
    "ss_sessionClientsKey o' = session_clients_key t" using assms(1) by (rule session_atE)
  let ?v = "view (pr_db s)" and ?fs = "[''hostToken'', ''maxClientCount'', ''name'', ''password'', ''joinCode'']"
  note fs = session_fields_def [symmetric]
  have f: "fst (all_fields_exist rs (session_key t) session_fields d)
      = Inr (\<forall>f \<in> set session_fields. hash_at ?v (session_key t) f \<noteq> None)"
    "view (snd (all_fields_exist rs (session_key t) session_fields d)) = view d"
    "volatile (snd (all_fields_exist rs (session_key t) session_fields d)) = volatile d" if "view d = ?v" for d
    using all_fields_exist_sim [of d "session_key t" session_fields] that h by simp_all
  note run = o run_simps fs f h
  show ?thesis
  proof (cases "?v (session_key t) = None \<or> \<not> (\<forall>f \<in> set session_fields. hash_at ?v (session_key t) f \<noteq> None)")
    case True
    then have "\<not> complete_session ?v t" by (auto simp: complete_session_def session_fields_def)
    with True show ?thesis unfolding IsValidSession_def
      by (cases "?v (session_key t) = None"; simp add: run del: all_fields_exist.simps split del: if_split)
        (simp_all add: served_def run del: all_fields_exist.simps)
  next
    case False
    then obtain k where k: "hash_at ?v (session_key t) ''hostToken'' = Some k" "?v (session_key t) \<noteq> None"
      "\<forall>f \<in> set session_fields. hash_at ?v (session_key t) f \<noteq> None" by (auto simp: session_fields_def)
    then have c: "complete_session ?v t \<longleftrightarrow> (case stoull k of Inl _ \<Rightarrow> False | Inr host \<Rightarrow> host \<noteq> 0)
        \<and> ?v (session_clients_key t) \<noteq> None" by (simp add: complete_session_def)
    show ?thesis
    proof (cases "stoull k")
      case (Inl e)
      then show ?thesis unfolding IsValidSession_def using k c
        by (cases e; simp add: run del: all_fields_exist.simps)
          (simp_all add: served_def run del: all_fields_exist.simps)
    next
      case (Inr host)
      then show ?thesis unfolding IsValidSession_def using k c
        by (cases "host = 0"; cases "?v (session_clients_key t)"; simp add: run del: all_fields_exist.simps)
          (simp_all add: served_def run del: all_fields_exist.simps)
    qed
  qed
qed

lemma IsValidSession_ok:
  assumes at: "session_at s ss t" and rel: "game_rel (view (pr_db s)) t sd" and "sd_host sd \<noteq> 0"
  shows "served view volatile s (True, reason) (view (pr_db s)) (volatile (pr_db s)) (pr_clients s)
    (IsValidSession rs ss reason s)"
  using IsValidSession_sim [OF at game_relD(1) [OF rel], of reason] game_rel_complete [OF rel assms(3)] by auto

lemma guest_refused_ok:
  assumes "session_at s ss t" and rel: "game_rel (view (pr_db s)) t sd" and "u \<noteq> sd_host sd"
    and small: "card (dom (sd_members sd)) < 2 ^ 31"
  shows "served view volatile s (entry_refused u sd) (view (pr_db s)) (volatile (pr_db s)) (pr_clients s)
    (guest_refused rs ss (to_string_u64 (sd_host sd)) s)"
proof -
  obtain o' where o: "pr_sessions s ss = Some o'" "ss_sessionKey o' = session_key t"
    "ss_sessionClientsKey o' = session_clients_key t" using assms(1) by (rule session_atE)
  let ?n = "card (dom (sd_members sd))"
  have m: "unat (sd_max sd) < 2 ^ 64" by (rule less_trans [OF unsigned_less]) simp
  have "(of_nat a < (of_nat b :: uint64)) \<longleftrightarrow> a < b" if "a < 2 ^ 64" "b < 2 ^ 64" for a b :: nat
    using that by (simp add: word_less_nat_alt unat_of_nat)
  from this [of "unat (sd_max sd)" ?n] show ?thesis
    unfolding guest_refused_def using assms(3) game_relD [OF rel] m small
    by (simp add: o run_simps entry_refused_def stoull_dec) (simp add: served_def run_simps)
qed

lemma Session_AddClient_sim:
  assumes at: "session_at s ss t" and rel: "game_rel (view (pr_db s)) t sd" and host: "sd_host sd \<noteq> 0"
    and small: "card (dom (sd_members sd)) < 2 ^ 31" and c: "pr_clients s r = Some c"
    and known: "view (pr_db s) (user_key (GetToken cl c)) \<noteq> None"
  shows "served view volatile s (fst (session_enter (GetToken cl c) (GetNickname cl c) sd))
    (if entry_refused (GetToken cl c) sd = None
     then put_field (view (pr_db s)) (session_clients_key t) (to_string_u64 (GetToken cl c)) (GetNickname cl c)
     else view (pr_db s))
    (volatile (pr_db s) - (if GetToken cl c = sd_host sd then {session_key t, session_clients_key t} else {}))
    ((pr_clients s)(r \<mapsto> after_entry pb cl ss r t sd c))
    (Session_AddClient pb rs cl ss (Some r) reason s)"
proof -
  obtain o' where o: "pr_sessions s ss = Some o'" "ss_sessionKey o' = session_key t"
    "ss_sessionClientsKey o' = session_clients_key t" using at by (rule session_atE)
  define u where "u = GetToken cl c"
  note u = u_def [symmetric]
  let ?s = "s\<lparr>pr_db := snd (Exists rs (user_key u) (pr_db s))\<rparr>"
  have at1: "session_at ?s ss t" using at by (simp add: session_at_def)
  have rel1: "game_rel (view (pr_db ?s)) t sd" using rel by (simp add: rd.Redis_ok)
  obtain d where "IsValidSession rs ss reason ?s = (Inr (True, reason), ?s\<lparr>pr_db := d, pr_clients := pr_clients ?s\<rparr>)"
    and d: "view d = view (pr_db s)" "volatile d = volatile (pr_db s)"
    using IsValidSession_ok [OF at1 rel1 host, of reason] by (rule servedE) (simp add: rd.Redis_ok rd.Expiry_ok)
  then have valid: "fst (IsValidSession rs ss reason ?s) = Inr (True, reason)"
    "snd (IsValidSession rs ss reason ?s) = s\<lparr>pr_db := d\<rparr>" by simp_all
  show ?thesis
  proof (cases "sd_host sd = u")
    case True
    obtain b where b: "fst (Persist rs k d) = Inr (b k d)" for k d using rd.Persist_ok(1) by metis
    from True show ?thesis
      unfolding Session_AddClient_def using known game_relD [OF rel]
      by (simp add: o c u run_simps valid d b entry_refused_def session_enter_def)
        (simp add: served_def after_entry_def run_simps d u lc.Legacy_ok entry_refused_def flip: Diff_insert2)
  next
    case False
    let ?s2 = "s\<lparr>pr_db := snd (HashGet rs (session_key t) ''hostToken'' d)\<rparr>"
    have "session_at ?s2 ss t" "game_rel (view (pr_db ?s2)) t sd"
      using at rel by (simp_all add: session_at_def rd.Redis_ok d)
    from guest_refused_ok [OF this not_sym [OF False] small]
    obtain d2 where "guest_refused rs ss (to_string_u64 (sd_host sd)) ?s2
        = (Inr (entry_refused u sd), ?s2\<lparr>pr_db := d2, pr_clients := pr_clients ?s2\<rparr>)"
      and d2: "view d2 = view (pr_db s)" "volatile d2 = volatile (pr_db s)"
      by (rule servedE) (simp add: rd.Redis_ok rd.Expiry_ok d)
    then have guest: "fst (guest_refused rs ss (to_string_u64 (sd_host sd)) ?s2) = Inr (entry_refused u sd)"
      "snd (guest_refused rs ss (to_string_u64 (sd_host sd)) ?s2) = s\<lparr>pr_db := d2\<rparr>" by simp_all
    from False show ?thesis
      unfolding Session_AddClient_def using known game_relD [OF rel]
      by (cases "entry_refused u sd"; simp add: o c u run_simps valid d guest d2 session_enter_def)
        (simp_all add: served_def after_entry_def run_simps d2 u lc.Legacy_ok fun_upd_idem c)
  qed
qed

lemma SetHostJoinCode_sim:
  assumes at: "session_at s ss t" and rel: "game_rel (view (pr_db s)) t sd" and c: "pr_clients s r = Some c"
  shows "served view volatile s (GetToken cl c = sd_host sd)
    (if GetToken cl c = sd_host sd then put_field (view (pr_db s)) (session_key t) ''joinCode'' code else view (pr_db s))
    (volatile (pr_db s)) (pr_clients s) (SetHostJoinCode rs cl ss r code s)"
proof -
  obtain o' where o: "pr_sessions s ss = Some o'" "ss_sessionKey o' = session_key t" using at by (rule session_atE)
  show ?thesis unfolding SetHostJoinCode_def using game_relD [OF rel]
    by (simp add: o c run_simps) (simp add: served_def run_simps)
qed

lemma GetSessionInfo_sim:
  assumes at: "session_at s ss t" and r: "readable_session (view (pr_db s)) t"
  shows "served view volatile s (shown_session (view (pr_db s)) t) (view (pr_db s)) (volatile (pr_db s)) (pr_clients s)
    (GetSessionInfo rs ss s)"
proof -
  let ?v = "view (pr_db s)"
  obtain o' where o: "pr_sessions s ss = Some o'" "ss_sessionKey o' = session_key t"
    "ss_sessionClientsKey o' = session_clients_key t" using at by (rule session_atE)
  have h: "hashy ?v (session_key t)" "hashy ?v (session_clients_key t)" using r by (simp_all add: readable_session_def)
  obtain why d where "IsValidSession rs ss [] s = (Inr (complete_session ?v t, why), s\<lparr>pr_db := d, pr_clients := pr_clients s\<rparr>)"
    and d: "view d = ?v" "volatile d = volatile (pr_db s)"
    using IsValidSession_sim [OF at h(1), of "[]"] by (auto elim: servedE)
  then have valid: "fst (IsValidSession rs ss [] s) = Inr (complete_session ?v t, why)"
    "snd (IsValidSession rs ss [] s) = s\<lparr>pr_db := d\<rparr>" by simp_all
  let ?n = "card (dom (hash_at ?v (session_clients_key t)))"
  have n: "sint (word_of_nat ?n :: int32) = int ?n"
    using r by (simp add: readable_session_def signed_of_nat signed_take_bit_int_eq_self)
  show ?thesis
  proof (cases "complete_session ?v t")
    case False
    then show ?thesis unfolding GetSessionInfo_def
      by (simp add: run_simps valid) (simp add: served_def d shown_session_def)
  next
    case True
    then obtain name mcc m password code where f: "hash_at ?v (session_key t) ''name'' = Some name"
      "hash_at ?v (session_key t) ''maxClientCount'' = Some mcc" "stoi mcc = Inr m"
      "hash_at ?v (session_key t) ''password'' = Some password" "hash_at ?v (session_key t) ''joinCode'' = Some code"
      using r by (auto simp: readable_session_def complete_session_def session_fields_def)
    show ?thesis
      unfolding GetSessionInfo_def using True h f
      by (cases "?n = 0"; simp add: o run_simps valid d n) (simp_all add: served_def run_simps d shown_session_def)
  qed
qed

lemma Session_CreateSession_sim:
  assumes o: "pr_sessions s ss = Some o'" "ss_token o' = t" and c: "pr_clients s r = Some c"
    and fresh: "view (pr_db s) (session_key t) = None" "view (pr_db s) (session_clients_key t) = None"
    and maxc: "maxc \<noteq> 0" and name: "utf8_length (bytes_of name) = Inr n" "2 \<le> n"
  obtains d where "Session_CreateSession rs cl ss (Some r) maxc name password reason s
      = (Inr (True, reason), s\<lparr>pr_db := d, pr_sessions := (pr_sessions s)(ss \<mapsto>
           o'\<lparr>ss_sessionKey := session_key t, ss_sessionClientsKey := session_clients_key t\<rparr>)\<rparr>)"
    "game_rel (view d) t (session_create (GetToken cl c) (GetNickname cl c) maxc name password)"
    "\<And>k. k \<noteq> session_key t \<Longrightarrow> k \<noteq> session_clients_key t \<Longrightarrow> view d k = view (pr_db s) k"
    "volatile d = volatile (pr_db s) \<union> {session_key t, session_clients_key t}"
proof -
  let ?res = "Session_CreateSession rs cl ss (Some r) maxc name password reason s"
  let ?d = "pr_db (snd ?res)"
  obtain b where b: "fst (Expire rs k n d) = Inr (b k n d)" for k n d using rd.Expire_ok(1) by metis
  have h: "hashy (view (pr_db s)) (session_key t)" "hashy (view (pr_db s)) (session_clients_key t)"
    using fresh by (simp_all add: hashy_absent)
  have n: "\<not> n < 2" using name(2) by simp
  note run = o c maxc name(1) n h b run_simps
  let ?fs = "[(''hostToken'', to_string_u64 (GetToken cl c)), (''maxClientCount'', dec_of_nat (unat maxc)),
    (''name'', name), (''password'', password), (''joinCode'', '''')]"
  have v: "view ?d = put_field (put_fields (view (pr_db s)) (session_key t) ?fs)
      (session_clients_key t) (to_string_u64 (GetToken cl c)) (GetNickname cl c)"
    unfolding Session_CreateSession_def by (simp add: run)
  have "?res = (Inr (True, reason), s\<lparr>pr_db := ?d, pr_sessions := (pr_sessions s)(ss \<mapsto>
      o'\<lparr>ss_sessionKey := session_key t, ss_sessionClientsKey := session_clients_key t\<rparr>)\<rparr>)"
    unfolding Session_CreateSession_def by (simp add: run) (simp add: run Process_update_order ret_apply)
  moreover have "game_rel (view ?d) t (session_create (GetToken cl c) (GetNickname cl c) maxc name password)"
    unfolding v using members_rel_put [OF members_rel_empty] fresh
    by (simp add: game_rel_def session_create_def settings_rel_def)
  moreover have "volatile ?d = volatile (pr_db s) \<union> {session_key t, session_clients_key t}"
    unfolding Session_CreateSession_def by (simp add: run) (rule insert_commute)
  ultimately show thesis using that [of ?d] by (simp add: v)
qed

lemma handle_request_environment_sim:
  assumes rel: "game_rel (view (pr_db s)) t sd" and c: "pr_clients s r = Some c"
  shows "served view volatile s () (view (pr_db s)) (volatile (pr_db s))
    ((pr_clients s)(r \<mapsto> snd (PostWrite cl (framed (ENVIRONMENT pb) (serialize_environment pb
        \<lparr>env_sessionname = sd_name sd, env_joincode = sd_joinCode sd, env_password = sd_password sd, env_host = host\<rparr>)) c)))
    (handle_request_environment pb rs cl r (session_key t) host s)"
  unfolding handle_request_environment_def using game_relD [OF rel]
  by (simp add: c run_simps) (simp add: served_def run_simps)

lemma handle_request_environment_gone:
  assumes "view (pr_db s) k = None" and "pr_clients s r = Some c"
  shows "fst (handle_request_environment pb rs cl r k host s) = Inl (Undefined ''name'')"
  unfolding handle_request_environment_def using assms
  by (simp add: hashy_absent run_simps)

end

end
