(* ===== verification/Lobby_Inv.thy ===== *)
theory Lobby_Inv
  imports Lobby_Manager Session_Refines
begin

text \<open>
  The histories of the lobby: the calls and completions that \<^verbatim>\<open>LobbyManager\<close> serves, one after
  another, over any Redis and any client class. The invariant \<open>lobby_inv\<close> ties the two tables of
  sessions to the session objects and to the token pool. Almost every operation leaves the part of the
  state it speaks about (\<open>tables\<close>) alone, on every outcome; only creation and activation change it.
\<close>

section \<open>Histories\<close>

datatype lobby_event =
    EnterLobby "nat option"
  | LobbyPacket lobby_handler "byte list" int
  | LobbyDisconnect lobby_disconnect
  | RefreshTimer "string option"
  | StartRefresh

fun lobby_next ::
  "lobby_pb \<Rightarrow> 'd IRedis \<Rightarrow> ('c, 'y) lobby_client \<Rightarrow> lobby_event \<Rightarrow> (('d, 'c) Lobby, unit) comp" where
  "lobby_next pb rs cl (EnterLobby client) = seqM (RequestEnterLobby pb rs cl client) (ret ())"
| "lobby_next pb rs cl (LobbyPacket h data len) = run_lobby_handler pb rs cl h data len"
| "lobby_next pb rs cl (LobbyDisconnect h) = run_lobby_disconnect rs cl h"
| "lobby_next pb rs cl (RefreshTimer ec) = on_refresh_timer pb rs ec"
| "lobby_next pb rs cl StartRefresh = StartRefreshSessionCache pb rs"

inductive lobby_reachable ::
  "lobby_pb \<Rightarrow> 'd IRedis \<Rightarrow> ('c, 'y) lobby_client \<Rightarrow> ('d, 'c) Lobby \<Rightarrow> ('d, 'c) Lobby \<Rightarrow> bool"
  for pb rs cl s0 where
  lobby_start: "lobby_reachable pb rs cl s0 s0"
| lobby_more: "lobby_reachable pb rs cl s0 s \<Longrightarrow> lobby_next pb rs cl ev s = (Inr (), s') \<Longrightarrow>
    lobby_reachable pb rs cl s0 s'"

section \<open>What the invariant speaks about\<close>

type_synonym session_ids = "nat \<rightharpoonup> token \<times> joincode_callback option"

definition ids_of :: "(nat \<rightharpoonup> Session) \<Rightarrow> session_ids" where
  "ids_of h = (\<lambda>r. map_option (\<lambda>o'. (ss_token o', ss_receiveJoinCodeCallback o')) (h r))"

record lobby_tables =
  lt_pool :: TokenPool64
  lt_next :: nat
  lt_ids :: session_ids
  lt_counter :: int32
  lt_empty :: "(int, nat) std_map"
  lt_active :: "(int, nat) std_map"

definition tables :: "('d, 'c) Lobby \<Rightarrow> lobby_tables" where
  "tables s = \<lparr>lt_pool = pr_tokens s, lt_next = pr_next s, lt_ids = ids_of (pr_sessions s),
     lt_counter = lb_sessionIndexCounter s, lt_empty = lb_emptySessions s, lt_active = lb_sessions s\<rparr>"

definition tables_ok :: "lobby_tables \<Rightarrow> bool" where
  "tables_ok T \<longleftrightarrow>
     map_ok (lt_empty T) \<and> map_ok (lt_active T)
     \<and> (\<forall>i. map_find i (lt_empty T) = None \<or> map_find i (lt_active T) = None)
     \<and> (\<forall>r. lt_next T \<le> r \<longrightarrow> lt_ids T r = None)
     \<and> (\<forall>r t f. lt_ids T r = Some (t, f) \<longrightarrow> t \<in> used (lt_pool T))
     \<and> (\<forall>r r' t f f'. lt_ids T r = Some (t, f) \<and> lt_ids T r' = Some (t, f') \<longrightarrow> r = r')
     \<and> (\<forall>i r. map_find i (lt_empty T) = Some r \<or> map_find i (lt_active T) = Some r \<longrightarrow>
          i \<le> sint (lt_counter T) \<and> (\<exists>t. lt_ids T r = Some (t, Some (CallActivateSession i))))"

abbreviation lobby_inv :: "('d, 'c) Lobby \<Rightarrow> bool" where
  "lobby_inv s \<equiv> tables_ok (tables s)"

lemma ids_of_update [simp]:
  "ids_of (h(r \<mapsto> o')) = (ids_of h)(r \<mapsto> (ss_token o', ss_receiveJoinCodeCallback o'))"
  "ids_of (h(r := None)) = (ids_of h)(r := None)"
  by (auto simp: ids_of_def)

lemma ids_of_same: "h r = Some o' \<Longrightarrow> ss_token o'' = ss_token o' \<Longrightarrow>
    ss_receiveJoinCodeCallback o'' = ss_receiveJoinCodeCallback o' \<Longrightarrow> ids_of (h(r \<mapsto> o'')) = ids_of h"
  by (auto simp: ids_of_def)

section \<open>The operations that leave it alone\<close>

lemma frames_calls:
  "keeps (\<lambda>s :: ('d, 'c) Lobby. tables s = T) (rsP m)"
  "keeps (\<lambda>s :: ('d, 'c) Lobby. tables s = T) (clientP r f)"
  "keeps (\<lambda>s :: ('d, 'c) Lobby. tables s = T) (client_doP r g)"
  "keeps (\<lambda>s :: ('d, 'c) Lobby. tables s = T) (client_getP r h)"
  "keeps (\<lambda>s :: ('d, 'c) Lobby. tables s = T) (session_get ss k)"
  by (auto intro!: keepsI simp: tables_def rsP_def clientP_def client_doP_def client_getP_def session_get_def
      split: option.splits)

lemma frames_throwing: "keeps P (throwing x)"
  by (auto simp: throwing_def split: sum.split)

lemma frames_parse: "keeps P (ParseFromArray p d n)"
  by (auto simp: ParseFromArray_def)

lemma frames_modify:
  "(\<And>s. tables (f s) = tables s) \<Longrightarrow> keeps (\<lambda>s. tables s = T) (modify f)"
  by (auto intro!: keepsI simp: modify_def)

lemma frames_session_do:
  "(\<And>o'. ss_token (f o') = ss_token o' \<and> ss_receiveJoinCodeCallback (f o') = ss_receiveJoinCodeCallback o') \<Longrightarrow>
   keeps (\<lambda>s :: ('d, 'c) Lobby. tables s = T) (session_do ss f)"
  by (auto intro!: keepsI simp: tables_def session_do_def ids_of_same simp del: ids_of_update split: option.splits)

lemma keeps_option:
  "(x = None \<Longrightarrow> keeps P m) \<Longrightarrow> (\<And>y. x = Some y \<Longrightarrow> keeps P (k y)) \<Longrightarrow>
   keeps P (case x of None \<Rightarrow> m | Some y \<Rightarrow> k y)"
  by (cases x) auto

lemma keeps_sum:
  "(\<And>e. x = Inl e \<Longrightarrow> keeps P (m e)) \<Longrightarrow> (\<And>y. x = Inr y \<Longrightarrow> keeps P (k y)) \<Longrightarrow>
   keeps P (case x of Inl e \<Rightarrow> m e | Inr y \<Rightarrow> k y)"
  by (cases x) auto

lemma keeps_prod: "(\<And>a b. keeps P (k a b)) \<Longrightarrow> keeps P (case x of (a, b) \<Rightarrow> k a b)"
  by (cases x) auto

lemmas frame_rules = keeps_basic keeps_bindM keeps_seqM keeps_if keeps_option keeps_sum keeps_prod keeps_forM
  frames_calls frames_throwing frames_parse

lemma IsValidSession_frames: "keeps (\<lambda>s :: ('d, 'c) Lobby. tables s = T) (IsValidSession rs ss reason)"
  unfolding IsValidSession_def by (intro frame_rules) (auto split: fault.split)

lemma guest_refused_frames: "keeps (\<lambda>s :: ('d, 'c) Lobby. tables s = T) (guest_refused rs ss h)"
  unfolding guest_refused_def by (intro frame_rules)

lemma Session_AddClient_frames:
  "keeps (\<lambda>s :: ('d, 'c) Lobby. tables s = T) (Session_AddClient pb rs cl ss client reason)"
  unfolding Session_AddClient_def Let_def
  by (intro frame_rules IsValidSession_frames guest_refused_frames)

lemma Session_CreateSession_frames:
  "keeps (\<lambda>s :: ('d, 'c) Lobby. tables s = T) (Session_CreateSession rs cl ss client maxc name password reason)"
  unfolding Session_CreateSession_def Let_def by (intro frame_rules frames_session_do) simp_all

lemma GetSessionInfo_frames: "keeps (\<lambda>s :: ('d, 'c) Lobby. tables s = T) (GetSessionInfo rs ss)"
  unfolding GetSessionInfo_def Let_def by (intro frame_rules IsValidSession_frames)

lemma SetHostJoinCode_frames:
  "keeps (\<lambda>s :: ('d, 'c) Lobby. tables s = T) (SetHostJoinCode rs cl ss c code)"
  unfolding SetHostJoinCode_def by (intro frame_rules)

lemma handle_request_environment_frames:
  "keeps (\<lambda>s :: ('d, 'c) Lobby. tables s = T) (handle_request_environment pb rs cl c k host)"
  unfolding handle_request_environment_def Let_def by (intro frame_rules)

lemma collect_session_info_frames:
  "keeps (\<lambda>s :: ('d, 'c) Lobby. tables s = T) (collect_session_info rs xs)"
  by (induction xs rule: collect_session_info.induct [of "\<lambda>_ xs. keeps (\<lambda>s. tables s = T) (collect_session_info rs xs)" for rs xs])
    (auto intro!: frame_rules GetSessionInfo_frames)

lemma tables_other_fields [simp]:
  "tables (s\<lparr>lb_loginedClients := x\<rparr>) = tables s" "tables (s\<lparr>lb_serializedRSLCache := y\<rparr>) = tables s"
  "tables (s\<lparr>lb_timers := n\<rparr>) = tables s"
  by (simp_all add: tables_def)

lemma RewriteSessionListCache_frames: "keeps (\<lambda>s. tables s = T) (RewriteSessionListCache pb rs)"
  unfolding RewriteSessionListCache_def by (intro frame_rules frames_modify collect_session_info_frames) simp_all

lemma lobby_request_frames:
  "keeps (\<lambda>s. tables s = T) (RequestEnterLobby pb rs cl client)"
  "keeps (\<lambda>s. tables s = T) (DisconnectedClient rs cl c)"
  "keeps (\<lambda>s. tables s = T) (HandleRequestSessionLeave cl c)"
  "keeps (\<lambda>s. tables s = T) (SendCurrentActivedSessionList pb cl c)"
  "keeps (\<lambda>s. tables s = T) (HandleRequestSessionEnter pb rs cl c data len)"
  "keeps (\<lambda>s. tables s = T) (on_refresh_timer pb rs ec)"
  unfolding RequestEnterLobby_def SetClientHandler_def DisconnectedClient_def HandleRequestSessionLeave_def
    SendCurrentActivedSessionList_def HandleRequestSessionEnter_def on_refresh_timer_def Let_def
  by (intro frame_rules frames_modify Session_AddClient_frames RewriteSessionListCache_frames; simp)+

section \<open>Creation and activation\<close>

lemma tables_okI:
  assumes "map_ok (lt_empty T)" "map_ok (lt_active T)"
    and "\<And>i. map_find i (lt_empty T) = None \<or> map_find i (lt_active T) = None"
    and "\<And>r. lt_next T \<le> r \<Longrightarrow> lt_ids T r = None"
    and "\<And>r t f. lt_ids T r = Some (t, f) \<Longrightarrow> t \<in> used (lt_pool T)"
    and "\<And>r r' t f f'. lt_ids T r = Some (t, f) \<Longrightarrow> lt_ids T r' = Some (t, f') \<Longrightarrow> r = r'"
    and "\<And>i r. map_find i (lt_empty T) = Some r \<or> map_find i (lt_active T) = Some r \<Longrightarrow>
      i \<le> sint (lt_counter T) \<and> (\<exists>t. lt_ids T r = Some (t, Some (CallActivateSession i)))"
  shows "tables_ok T"
  unfolding tables_ok_def using assms by blast

lemma tables_okD:
  assumes "tables_ok T"
  shows "map_ok (lt_empty T)" "map_ok (lt_active T)"
    and "map_find i (lt_empty T) = None \<or> map_find i (lt_active T) = None"
    and "lt_next T \<le> r \<Longrightarrow> lt_ids T r = None"
    and "lt_ids T r = Some (t, f) \<Longrightarrow> t \<in> used (lt_pool T)"
    and "lt_ids T r = Some (t, f) \<Longrightarrow> lt_ids T r' = Some (t, f') \<Longrightarrow> r = r'"
    and "map_find i (lt_empty T) = Some r \<or> map_find i (lt_active T) = Some r \<Longrightarrow>
      i \<le> sint (lt_counter T) \<and> (\<exists>t. lt_ids T r = Some (t, Some (CallActivateSession i)))"
proof -
  note a = assms [unfolded tables_ok_def]
  note b = a [THEN conjunct2]
  note c = b [THEN conjunct2]
  note d = c [THEN conjunct2]
  note e = d [THEN conjunct2]
  note f = e [THEN conjunct2]
  show "map_ok (lt_empty T)" "map_ok (lt_active T)" by (rule conjunct1 [OF a], rule conjunct1 [OF b])
  show "map_find i (lt_empty T) = None \<or> map_find i (lt_active T) = None" using c [THEN conjunct1] by (rule spec)
  show "lt_next T \<le> r \<Longrightarrow> lt_ids T r = None" using d [THEN conjunct1] by simp
  show "lt_ids T r = Some (t, f) \<Longrightarrow> t \<in> used (lt_pool T)" using e [THEN conjunct1] by blast
  show "lt_ids T r = Some (t, f) \<Longrightarrow> lt_ids T r' = Some (t, f') \<Longrightarrow> r = r'" using f [THEN conjunct1] by blast
  show "map_find i (lt_empty T) = Some r \<or> map_find i (lt_active T) = Some r \<Longrightarrow>
      i \<le> sint (lt_counter T) \<and> (\<exists>t. lt_ids T r = Some (t, Some (CallActivateSession i)))"
    using f [THEN conjunct2, rule_format, of i r] .
qed

lemma tables_ok_new_session:
  assumes ok: "tables_ok T" and a: "allocate (lt_pool T) = Some (t, pool)"
  shows "tables_ok (T\<lparr>lt_pool := pool, lt_next := Suc (lt_next T), lt_ids := (lt_ids T)(lt_next T \<mapsto> (t, None))\<rparr>)"
    (is "tables_ok ?T")
proof (rule tables_okI)
  note D = tables_okD [OF ok]
  have new: "t \<notin> used (lt_pool T)" and pool: "used pool = insert t (used (lt_pool T))"
    using tp.alloc_new [OF a] tp.alloc_live [OF a] .
  have fresh: "lt_ids T (lt_next T) = None" by (rule D(4)) simp
  show "map_ok (lt_empty ?T)" "map_ok (lt_active ?T)" using D(1,2) by simp_all
  show "map_find i (lt_empty ?T) = None \<or> map_find i (lt_active ?T) = None" for i using D(3) by simp
  show "lt_ids ?T r = None" if "lt_next ?T \<le> r" for r using D(4) [of r] that by simp
  show "t' \<in> used (lt_pool ?T)" if "lt_ids ?T r = Some (t', f)" for r t' f
    using D(5) [of r t' f] that pool by (auto split: if_splits)
  show "r = r'" if "lt_ids ?T r = Some (t', f)" "lt_ids ?T r' = Some (t', f')" for r r' t' f f'
    using D(5) [of r t'] D(5) [of r' t'] D(6) [of r t' f r' f'] that new by (auto split: if_splits)
  show "i \<le> sint (lt_counter ?T) \<and> (\<exists>t. lt_ids ?T r = Some (t, Some (CallActivateSession i)))"
    if "map_find i (lt_empty ?T) = Some r \<or> map_find i (lt_active ?T) = Some r" for i r
    using D(7) [of i r] that fresh by auto
qed

lemma tables_ok_drop_session:
  assumes ok: "tables_ok T" and r0: "lt_ids T r0 = Some (t0, None)"
  shows "tables_ok (T\<lparr>lt_pool := release t0 (lt_pool T), lt_ids := (lt_ids T)(r0 := None)\<rparr>)" (is "tables_ok ?T")
proof (rule tables_okI)
  note D = tables_okD [OF ok]
  show "map_ok (lt_empty ?T)" "map_ok (lt_active ?T)" using D(1,2) by simp_all
  show "map_find i (lt_empty ?T) = None \<or> map_find i (lt_active ?T) = None" for i using D(3) by simp
  show "lt_ids ?T r = None" if "lt_next ?T \<le> r" for r using D(4) [of r] that by simp
  show "t \<in> used (lt_pool ?T)" if "lt_ids ?T r = Some (t, f)" for r t f
    using D(5) [of r t f] D(6) [of r t f r0 None] that r0 by (auto simp: tp.free_live split: if_splits)
  show "r = r'" if "lt_ids ?T r = Some (t, f)" "lt_ids ?T r' = Some (t, f')" for r r' t f f'
    using D(6) [of r t f r' f'] that by (auto split: if_splits)
  show "i \<le> sint (lt_counter ?T) \<and> (\<exists>t. lt_ids ?T r = Some (t, Some (CallActivateSession i)))"
    if "map_find i (lt_empty ?T) = Some r \<or> map_find i (lt_active ?T) = Some r" for i r
    using D(7) [of i r] that r0 by auto
qed

lemma sint_word_of_int_in_range: "- (2 ^ 31) \<le> k \<Longrightarrow> k < 2 ^ 31 \<Longrightarrow> sint (word_of_int k :: int32) = k"
  by (simp add: signed_of_int signed_take_bit_int_eq_self)

lemma sint_counter_Suc: "sint (n :: int32) \<noteq> 2 ^ 31 - 1 \<Longrightarrow> sint (n + 1) = sint n + 1"
proof -
  assume "sint n \<noteq> 2 ^ 31 - 1"
  moreover have "sint n < 2 ^ 31" "- (2 ^ 31) \<le> sint n"
    using sint_lt [of n] sint_ge [of n] by simp_all
  moreover have "n + 1 = (word_of_int (sint n + 1) :: int32)" by simp
  ultimately show ?thesis
    using sint_word_of_int_in_range [of "sint n + 1"] by (simp del: of_int_add of_int_sint)
qed

lemma tables_ok_add_session:
  assumes ok: "tables_ok T" and r0: "lt_ids T r0 = Some (t0, None)" and c: "sint (lt_counter T) \<noteq> 2 ^ 31 - 1"
  defines "j \<equiv> sint (lt_counter T + 1)"
  shows "tables_ok (T\<lparr>lt_ids := (lt_ids T)(r0 \<mapsto> (t0, Some (CallActivateSession j))),
      lt_counter := lt_counter T + 1, lt_empty := map_put j r0 (lt_empty T)\<rparr>)" (is "tables_ok ?T")
proof (rule tables_okI)
  note D = tables_okD [OF ok]
  have j: "j = sint (lt_counter T) + 1" unfolding j_def by (rule sint_counter_Suc [OF c])
  have unused: "map_find j (lt_active T) = None"
    using D(7) [of j] j by (cases "map_find j (lt_active T)") fastforce+
  have other: "r \<noteq> r0" if "map_find i (lt_empty T) = Some r \<or> map_find i (lt_active T) = Some r" for i r
    using D(7) [OF that] r0 by auto
  show "map_ok (lt_empty ?T)" "map_ok (lt_active ?T)" using D(1,2) by simp_all
  show "map_find i (lt_empty ?T) = None \<or> map_find i (lt_active ?T) = None" for i
    using D(3) [of i] unused D(1) by simp
  show "lt_ids ?T r = None" if "lt_next ?T \<le> r" for r using D(4) [of r] that r0 by auto
  show "t \<in> used (lt_pool ?T)" if "lt_ids ?T r = Some (t, f)" for r t f
    using D(5) [of r t f] D(5) [of r0 t0 None] that r0 by (auto split: if_splits)
  show "r = r'" if "lt_ids ?T r = Some (t, f)" "lt_ids ?T r' = Some (t, f')" for r r' t f f'
  proof -
    have "\<exists>g. lt_ids T q = Some (t, g)" if "lt_ids ?T q = Some (t, h)" for q h
      using that r0 by (cases "q = r0") simp_all
    then show ?thesis using that D(6) by blast
  qed
  show "i \<le> sint (lt_counter ?T) \<and> (\<exists>t. lt_ids ?T r = Some (t, Some (CallActivateSession i)))"
    if "map_find i (lt_empty ?T) = Some r \<or> map_find i (lt_active ?T) = Some r" for i r
    using D(7) [of i r] D(1) that other [of i r] j by (auto simp: j_def [symmetric] split: if_splits)
qed

lemma tables_ok_activate:
  assumes ok: "tables_ok T" and e: "map_find i (lt_empty T) = Some r"
  shows "tables_ok (T\<lparr>lt_active := map_put i r (lt_active T), lt_empty := map_erase i (lt_empty T)\<rparr>)" (is "tables_ok ?T")
proof (rule tables_okI)
  note D = tables_okD [OF ok]
  show "map_ok (lt_empty ?T)" "map_ok (lt_active ?T)" using D(1,2) by simp_all
  show "map_find k (lt_empty ?T) = None \<or> map_find k (lt_active ?T) = None" for k
    using D(1,2) D(3) [of k] by simp
  show "k \<le> sint (lt_counter ?T) \<and> (\<exists>t. lt_ids ?T q = Some (t, Some (CallActivateSession k)))"
    if "map_find k (lt_empty ?T) = Some q \<or> map_find k (lt_active ?T) = Some q" for k q
    using D(7) [of k q] D(1,2) that e by (auto split: if_splits)
qed (use tables_okD [OF ok] in \<open>simp_all\<close>)

section \<open>The invariant is kept\<close>

lemma keeps_frame: "keeps (\<lambda>s. tables s = tables s0) m \<Longrightarrow> tables (snd (m s0)) = tables s0"
  by (simp add: keeps_def)

lemma bindM_success:
  assumes "fst (bindM m f s) = Inr y"
  obtains a where "fst (m s) = Inr a" "fst (f a (snd (m s))) = Inr y" "snd (bindM m f s) = snd (f a (snd (m s)))"
  using assms by (auto simp: bindM_def split: sum.splits)

lemma seqM_success:
  assumes "fst (seqM m k s) = Inr y"
  obtains a where "fst (m s) = Inr a" "fst (k (snd (m s))) = Inr y" "snd (seqM m k s) = snd (k (snd (m s)))"
  using assms unfolding seqM_def by (rule bindM_success)

lemma ActivateSession_inv: "lobby_inv s \<Longrightarrow> lobby_inv (snd (ActivateSession i s))"
proof (cases "map_find i (lb_emptySessions s)")
  case (Some r)
  assume "lobby_inv s"
  from tables_ok_activate [OF this, of i r] Some show ?thesis
    by (simp add: ActivateSession_def bindM_run seqM_def tables_def)
qed (simp add: ActivateSession_def bindM_run)

lemma Session_ctor_tables:
  assumes "fst (Session_ctor s) = Inr r" and "lobby_inv s"
  shows "lobby_inv (snd (Session_ctor s)) \<and> (\<exists>t. lt_ids (tables (snd (Session_ctor s))) r = Some (t, None))"
proof -
  obtain t pool where a: "allocate (pr_tokens s) = Some (t, pool)"
    using assms(1) by (cases "allocate (pr_tokens s)") (auto simp: Session_ctor_def)
  then show ?thesis using tables_ok_new_session [OF assms(2), of t pool] assms(1)
    by (auto simp: Session_ctor_def tables_def)
qed

lemma StopSession_frames: "keeps (\<lambda>s :: ('d, 'c) Lobby. tables s = T) (StopSession rs ss)"
  unfolding StopSession_def by (intro frame_rules)

lemma Session_dtor_inv:
  assumes "lobby_inv s" and "lt_ids (tables s) r = Some (t, None)" and "fst (Session_dtor rs r s) = Inr u"
  shows "lobby_inv (snd (Session_dtor rs r s))"
proof -
  obtain o' where o: "pr_sessions s r = Some o'" "ss_token o' = t"
    using assms(2) by (auto simp: tables_def ids_of_def)
  define s1 where "s1 = s\<lparr>pr_tokens := release t (pr_tokens s)\<rparr>"
  have T: "tables (snd (StopSession rs r s1)) = tables s1" by (rule keeps_frame) (rule StopSession_frames)
  have "\<exists>x. fst (StopSession rs r s1) = Inr x"
    using assms(3) o by (auto simp: Session_dtor_def noexcept_def bindM_def seqM_def modify_def s1_def session_get_def
        split: sum.splits fault.splits)
  then have "snd (Session_dtor rs r s) = (snd (StopSession rs r s1))\<lparr>pr_sessions := (pr_sessions (snd (StopSession rs r s1)))(r := None)\<rparr>"
    using o by (auto simp: Session_dtor_def noexcept_def bindM_def seqM_def modify_def s1_def session_get_def)
  then have "tables (snd (Session_dtor rs r s))
      = (tables s)\<lparr>lt_pool := release t (lt_pool (tables s)), lt_ids := (lt_ids (tables s))(r := None)\<rparr>"
    using T by (simp add: tables_def s1_def)
  then show ?thesis using tables_ok_drop_session [OF assms(1,2)] by simp
qed

lemma owning_success: "fst (owning d m s) = Inr y \<Longrightarrow> fst (m s) = Inr y \<and> snd (owning d m s) = snd (m s)"
  by (auto simp: owning_def seqM_def bindM_def raise_def split: sum.splits if_splits)

lemma LobbyManager_CreateSession_inv:
  fixes s :: "('d, 'c) Lobby"
  assumes inv: "lobby_inv s" and ok: "fst (LobbyManager_CreateSession rs cl c name password reason s) = Inr y"
  shows "lobby_inv (snd (LobbyManager_CreateSession rs cl c name password reason s))"
proof -
  obtain r where r: "fst (Session_ctor s) = Inr r"
    using bindM_success [OF ok [unfolded LobbyManager_CreateSession_def]] by blast
  define s1 where "s1 = snd (Session_ctor s)"
  define m :: "(('d, 'c) Lobby, bool \<times> string) comp" where "m = owning (Session_dtor rs r) (Session_CreateSession rs cl r (Some c) 4 name password reason)"
  define s2 where "s2 = snd (m s1)"
  note run = LobbyManager_CreateSession_def bindM_run r s1_def [symmetric] m_def [symmetric] s2_def [symmetric]
  obtain res reason' where res: "fst (m s1) = Inr (res, reason')"
    using ok by (cases "fst (m s1)") (auto simp: run)
  obtain t where inv1: "lobby_inv s1" and t: "lt_ids (tables s1) r = Some (t, None)"
    using Session_ctor_tables [OF r inv] unfolding s1_def by blast
  have "s2 = snd (Session_CreateSession rs cl r (Some c) 4 name password reason s1)"
    using owning_success [OF res [unfolded m_def]] by (simp add: s2_def m_def)
  then have "tables s2 = tables s1" by (simp add: keeps_frame Session_CreateSession_frames)
  with inv1 t have inv2: "lobby_inv s2" and t2: "lt_ids (tables s2) r = Some (t, None)" by simp_all
  then obtain o' where o: "pr_sessions s2 r = Some o'" "ss_token o' = t"
    by (auto simp: tables_def ids_of_def)
  show ?thesis
  proof (cases res)
    case False
    then show ?thesis using ok Session_dtor_inv [OF inv2 t2, of rs]
      by (cases "fst (Session_dtor rs r s2)") (simp_all add: run res seqM_def)
  next
    case True
    let ?n = "lb_sessionIndexCounter s2"
    have n: "sint ?n \<noteq> 2 ^ 31 - 1" using ok True by (auto simp: run res)
    with True show ?thesis
      using tables_ok_add_session [OF inv2 t2] o
      by (simp add: run res seqM_def SetReceiveJoinCodeCallback_def Let_def) (simp add: tables_def)
  qed
qed

lemma HandleRequestSessionCreate_inv:
  fixes s :: "('d, 'c) Lobby"
  assumes "lobby_inv s" and ok: "fst (HandleRequestSessionCreate pb rs cl c data len s) = Inr u"
  shows "lobby_inv (snd (HandleRequestSessionCreate pb rs cl c data len s))"
proof -
  have frame: "lobby_inv (snd (seqM (clientP c f) (ret ()) s'))" if "lobby_inv s'"
    for f :: "'c \<Rightarrow> bool \<times> 'c" and s' :: "('d, 'c) Lobby"
    using that keeps_frame [of s' "seqM (clientP c f) (ret ())"] by (simp add: frame_rules)
  obtain m where p: "ParseFromArray (parse_session_creation pb) data len
      = (ret m :: (('d, 'c) Lobby, M_RequestSessionCreation option) comp)"
    using ok unfolding HandleRequestSessionCreate_def ParseFromArray_def by (auto simp: bindM_raise split: if_splits)
  show ?thesis
  proof (cases m)
    case None
    with assms(1) frame show ?thesis by (simp add: HandleRequestSessionCreate_def p)
  next
    case (Some x)
    let ?k = "LobbyManager_CreateSession rs cl c (rsc_sessionname x) (rsc_password x) []"
    obtain y where "fst (?k s) = Inr y"
      using ok Some by (cases "fst (?k s)") (auto simp: HandleRequestSessionCreate_def p bindM_assoc bindM_run)
    moreover from LobbyManager_CreateSession_inv [OF assms(1) this] have "lobby_inv (snd (?k s))" .
    ultimately show ?thesis using Some frame
      by (cases y) (simp add: HandleRequestSessionCreate_def p bindM_assoc bindM_run)
  qed
qed

lemma handle_joincode_inv:
  assumes "lobby_inv s"
  shows "lobby_inv (snd (handle_joincode pb rs cl run_joincode_callback ss c data len s))"
proof -
  have "keeps lobby_inv (handle_joincode pb rs cl run_joincode_callback ss c data len)"
    unfolding handle_joincode_def OnReceiveHostJoinCode_def
  proof (intro frame_rules)
    show "keeps lobby_inv (SetHostJoinCode rs cl ss c x)" for x
      by (rule keepsI) (simp add: keeps_frame SetHostJoinCode_frames)
    show "keeps lobby_inv (session_get ss f)" for f :: "Session \<Rightarrow> joincode_callback option"
      by (rule keepsI) (simp add: session_get_def split: option.split)
    show "keeps lobby_inv (run_joincode_callback f)" for f
      by (cases f) (auto intro!: keepsI ActivateSession_inv)
  qed
  then show ?thesis using assms by (rule keepsD)
qed

lemma lobby_next_inv:
  assumes "lobby_inv s" and "fst (lobby_next pb rs cl ev s) = Inr ()"
  shows "lobby_inv (snd (lobby_next pb rs cl ev s))"
proof (cases ev)
  case (LobbyDisconnect h)
  with assms(1) show ?thesis by (cases h) (simp add: if_alive_def bindM_run keeps_frame lobby_request_frames)
next
  case StartRefresh
  with assms(1) show ?thesis by (simp add: StartRefreshSessionCache_def keeps_frame RewriteSessionListCache_frames)
next
  case (LobbyPacket h data len)
  show ?thesis
  proof (cases h)
    case (OnSessionCreation c)
    with LobbyPacket assms HandleRequestSessionCreate_inv show ?thesis
      by (cases "pr_clients s c") (simp_all add: if_alive_def bindM_run)
  next
    case (OnJoinCode ss c)
    with LobbyPacket assms show ?thesis by (simp add: handle_joincode_inv)
  qed (use LobbyPacket assms(1) in \<open>simp_all add: if_alive_def bindM_run keeps_frame lobby_request_frames
      handle_request_environment_frames\<close>)
qed (use assms(1) in \<open>simp_all add: keeps_frame lobby_request_frames frame_rules\<close>)

end
