(* ===== verification/Lobby_Refines.thy ===== *)
theory Lobby_Refines
  imports Lobby_Inv
begin

text \<open>
  The requests of the lobby over a Redis and a client that keep their contracts: creation makes a
  volatile session in the table of empty sessions, the entry of its host makes it permanent, the host's
  join code moves it to the table of active sessions, and the list cache shows what the active sessions
  are in Redis.
\<close>

context redis_expiring
begin

lemma session_service:
  assumes "legacy_client cl queue phandler ehandler ok_client"
  shows "session_service (RedisService R) view volatile cl queue phandler ehandler ok_client"
  by (intro session_service.intro esvc.iredis_expiring_axioms assms)

end

interpretation memlobby: session_service "RedisService exp_redis" exp_view exp_volatile named_client
  "\<lambda>c. cs_writeBufferQueue (fst c)" "\<lambda>c. packet_handler_of (fst c)" "\<lambda>c. error_handler_of (fst c)" "\<lambda>c. handlers_ok (fst c)"
  ..

text \<open>The state after a successful creation.\<close>

definition created_session :: "token \<Rightarrow> int \<Rightarrow> Session" where
  "created_session t i = \<lparr>ss_token = t, ss_sessionKey = session_key t, ss_sessionClientsKey = session_clients_key t,
     ss_receiveJoinCodeCallback = Some (CallActivateSession i)\<rparr>"

definition after_creation ::
  "token \<Rightarrow> TokenPool64 \<Rightarrow> 'd \<Rightarrow> (nat \<rightharpoonup> 'c) \<Rightarrow> ('d, 'c) Lobby \<Rightarrow> ('d, 'c) Lobby" where
  "after_creation t pool d heap s =
     s\<lparr>pr_db := d, pr_tokens := pool, pr_clients := heap,
       pr_sessions := (pr_sessions s)(pr_next s \<mapsto> created_session t (sint (lb_sessionIndexCounter s) + 1)),
       pr_next := Suc (pr_next s), lb_sessionIndexCounter := lb_sessionIndexCounter s + 1,
       lb_emptySessions := map_put (sint (lb_sessionIndexCounter s) + 1) (pr_next s) (lb_emptySessions s)\<rparr>"

lemma Lobby_eqI:
  fixes s s' :: "('d, 'c) Lobby"
  assumes "pr_db s = pr_db s'" "pr_tokens s = pr_tokens s'" "pr_clients s = pr_clients s'"
    "pr_sessions s = pr_sessions s'" "pr_next s = pr_next s'"
    "lb_sessionIndexCounter s = lb_sessionIndexCounter s'" "lb_emptySessions s = lb_emptySessions s'"
    "lb_sessions s = lb_sessions s'" "lb_loginedClients s = lb_loginedClients s'"
    "lb_serializedRSLCache s = lb_serializedRSLCache s'" "lb_timers s = lb_timers s'"
  shows "s = s'"
  using assms by simp

text \<open>What the list shows: one entry for each session that the database shows, with its index.\<close>

definition listed :: "view \<Rightarrow> (nat \<rightharpoonup> Session) \<Rightarrow> (int \<times> nat) list \<Rightarrow> session_entry list" where
  "listed v objects xs = List.map_filter
     (\<lambda>(i, ss). map_option (\<lambda>info. session_info.extend info \<lparr>si_sessionIndex = i\<rparr>)
        (Option.bind (objects ss) (\<lambda>x. shown_session v (ss_token x)))) xs"

context session_service
begin

lemma LobbyManager_CreateSession_sim:
  fixes s :: "('d, 'c) Lobby"
  assumes a: "allocate (pr_tokens s) = Some (t, pool)" and c: "pr_clients s r = Some c"
    and fresh: "view (pr_db s) (session_key t) = None" "view (pr_db s) (session_clients_key t) = None"
    and name: "utf8_length (bytes_of name) = Inr n" "2 \<le> n"
    and counter: "sint (lb_sessionIndexCounter s) < 2 ^ 31 - 1"
  obtains d where "LobbyManager_CreateSession rs cl r name password [] s
      = (Inr (sint (lb_sessionIndexCounter s) + 1, ''ok''), after_creation t pool d (pr_clients s) s)"
    "game_rel (view d) t (session_create (GetToken cl c) (GetNickname cl c) 4 name password)"
    "\<And>k. k \<noteq> session_key t \<Longrightarrow> k \<noteq> session_clients_key t \<Longrightarrow> view d k = view (pr_db s) k"
    "volatile d = volatile (pr_db s) \<union> {session_key t, session_clients_key t}"
proof -
  let ?o = "\<lparr>ss_token = t, ss_sessionKey = [], ss_sessionClientsKey = [], ss_receiveJoinCodeCallback = None\<rparr>"
  let ?r = "pr_next s"
  define s1 where "s1 = s\<lparr>pr_tokens := pool, pr_next := Suc ?r, pr_sessions := (pr_sessions s)(?r \<mapsto> ?o)\<rparr>"
  have ctor: "fst (Session_ctor s) = Inr ?r" "snd (Session_ctor s) = s1" by (simp_all add: Session_ctor_def a s1_def)
  have s1: "pr_sessions s1 ?r = Some ?o" "pr_clients s1 r = Some c" "pr_db s1 = pr_db s"
    "lb_sessionIndexCounter s1 = lb_sessionIndexCounter s" using c by (simp_all add: s1_def)
  obtain d where d: "Session_CreateSession rs cl ?r (Some r) 4 name password [] s1
      = (Inr (True, []), s1\<lparr>pr_db := d, pr_sessions := (pr_sessions s1)(?r \<mapsto>
           ?o\<lparr>ss_sessionKey := session_key t, ss_sessionClientsKey := session_clients_key t\<rparr>)\<rparr>)"
    and rel: "game_rel (view d) t (session_create (GetToken cl c) (GetNickname cl c) 4 name password)"
    "\<And>k. k \<noteq> session_key t \<Longrightarrow> k \<noteq> session_clients_key t \<Longrightarrow> view d k = view (pr_db s1) k"
    "volatile d = volatile (pr_db s1) \<union> {session_key t, session_clients_key t}"
    by (rule Session_CreateSession_sim [OF s1(1) _ s1(2), of t 4 name n password "[]"])
      (use fresh name in \<open>simp_all add: s1_def\<close>)
  have own: "fst (owning m (Session_CreateSession rs cl ?r (Some r) 4 name password []) s1) = Inr (True, [])"
    "snd (owning m (Session_CreateSession rs cl ?r (Some r) 4 name password []) s1)
      = snd (Session_CreateSession rs cl ?r (Some r) 4 name password [] s1)" for m
    by (simp_all add: owning_def d)
  have n: "sint (lb_sessionIndexCounter s + 1) = sint (lb_sessionIndexCounter s) + 1"
    by (rule sint_counter_Suc) (use counter in simp)
  have "LobbyManager_CreateSession rs cl r name password [] s
      = (Inr (sint (lb_sessionIndexCounter s) + 1, ''ok''), after_creation t pool d (pr_clients s) s)"
    using counter unfolding LobbyManager_CreateSession_def
    by (simp add: ctor own bindM_run d s1 n seqM_def SetReceiveJoinCodeCallback_def ret_apply Let_def)
      (auto intro!: Lobby_eqI simp: after_creation_def created_session_def s1_def)
  with rel show thesis using that [of d] by (simp add: s1)
qed

lemma HandleRequestSessionCreate_sim:
  fixes s :: "('d, 'c) Lobby"
  assumes len: "0 \<le> len" "parse_session_creation pb (take (nat len) data) = Some m"
    and a: "allocate (pr_tokens s) = Some (t, pool)" and c: "pr_clients s r = Some c"
    and fresh: "view (pr_db s) (session_key t) = None" "view (pr_db s) (session_clients_key t) = None"
    and name: "utf8_length (bytes_of (rsc_sessionname m)) = Inr n" "2 \<le> n"
    and counter: "-1 \<le> sint (lb_sessionIndexCounter s)" "sint (lb_sessionIndexCounter s) < 2 ^ 31 - 1"
  obtains d where "run_lobby_handler pb rs cl (OnSessionCreation r) data len s
      = (Inr (), after_creation t pool d ((pr_clients s)(r \<mapsto> snd (PostWrite cl
           (framed (RESPONSE_SESSION_CREATION pb) (serialize_session_creation pb
              \<lparr>sc_sessionindex = sint (lb_sessionIndexCounter s) + 1, sc_reason = ''ok''\<rparr>)) c))) s)"
    "game_rel (view d) t (session_create (GetToken cl c) (GetNickname cl c) 4 (rsc_sessionname m) (rsc_password m))"
    "\<And>k. k \<noteq> session_key t \<Longrightarrow> k \<noteq> session_clients_key t \<Longrightarrow> view d k = view (pr_db s) k"
    "volatile d = volatile (pr_db s) \<union> {session_key t, session_clients_key t}"
proof -
  let ?k = "LobbyManager_CreateSession rs cl r (rsc_sessionname m) (rsc_password m) []"
  obtain d where k: "?k s = (Inr (sint (lb_sessionIndexCounter s) + 1, ''ok''), after_creation t pool d (pr_clients s) s)"
    and rest: "game_rel (view d) t (session_create (GetToken cl c) (GetNickname cl c) 4 (rsc_sessionname m) (rsc_password m))"
    "\<And>k. k \<noteq> session_key t \<Longrightarrow> k \<noteq> session_clients_key t \<Longrightarrow> view d k = view (pr_db s) k"
    "volatile d = volatile (pr_db s) \<union> {session_key t, session_clients_key t}"
    using LobbyManager_CreateSession_sim [OF a c fresh name counter(2)] by blast
  have h: "pr_clients (after_creation t pool d (pr_clients s) s) r = Some c" using c by (simp add: after_creation_def)
  have "run_lobby_handler pb rs cl (OnSessionCreation r) data len s
      = (Inr (), after_creation t pool d ((pr_clients s)(r \<mapsto> snd (PostWrite cl
           (framed (RESPONSE_SESSION_CREATION pb) (serialize_session_creation pb
              \<lparr>sc_sessionindex = sint (lb_sessionIndexCounter s) + 1, sc_reason = ''ok''\<rparr>)) c))) s)"
    using counter
    by (simp add: if_alive_def HandleRequestSessionCreate_def ParseFromArray_nonneg len c k h bindM_norm bindM_run ret_apply)
      (simp add: after_creation_def)
  then show thesis using that rest by blast
qed

lemma HandleRequestSessionEnter_sim:
  fixes s :: "('d, 'c) Lobby"
  assumes len: "0 \<le> len" "parse_session_entry pb (take (nat len) data) = Some i"
    and i: "map_find i (lb_emptySessions s) = Some ss \<or> map_find i (lb_emptySessions s) = None \<and> map_find i (lb_sessions s) = Some ss"
    and at: "session_at s ss t" and rel: "game_rel (view (pr_db s)) t sd" and host: "sd_host sd \<noteq> 0"
    and small: "card (dom (sd_members sd)) < 2 ^ 31" and c: "pr_clients s r = Some c"
    and known: "view (pr_db s) (user_key (GetToken cl c)) \<noteq> None"
  shows "served view volatile s ()
    (if entry_refused (GetToken cl c) sd = None
     then put_field (view (pr_db s)) (session_clients_key t) (to_string_u64 (GetToken cl c)) (GetNickname cl c)
     else view (pr_db s))
    (volatile (pr_db s) - (if GetToken cl c = sd_host sd then {session_key t, session_clients_key t} else {}))
    ((pr_clients s)(r \<mapsto> snd (PostWrite cl (framed (RESPONSE_SESSION_ENTRY pb) (serialize_session_entry pb
        \<lparr>se_result = fst (fst (session_enter (GetToken cl c) (GetNickname cl c) sd)),
         se_reason = snd (fst (session_enter (GetToken cl c) (GetNickname cl c) sd))\<rparr>))
       (after_entry pb cl ss r t sd c))))
    (run_lobby_handler pb rs cl (OnSessionEntry r) data len s)"
proof -
  obtain ok why where y: "fst (session_enter (GetToken cl c) (GetNickname cl c) sd) = (ok, why)" by fastforce
  obtain d where "Session_AddClient pb rs cl ss (Some r) [] s
      = (Inr (ok, why), s\<lparr>pr_db := d, pr_clients := (pr_clients s)(r \<mapsto> after_entry pb cl ss r t sd c)\<rparr>)"
    and d: "view d = (if entry_refused (GetToken cl c) sd = None
     then put_field (view (pr_db s)) (session_clients_key t) (to_string_u64 (GetToken cl c)) (GetNickname cl c)
     else view (pr_db s))"
    "volatile d = volatile (pr_db s) - (if GetToken cl c = sd_host sd then {session_key t, session_clients_key t} else {})"
    using Session_AddClient_sim [OF at rel host small c known, of pb "[]"] unfolding y by (rule servedE)
  then have add: "fst (Session_AddClient pb rs cl ss (Some r) [] s) = Inr (ok, why)"
    "snd (Session_AddClient pb rs cl ss (Some r) [] s)
      = s\<lparr>pr_db := d, pr_clients := (pr_clients s)(r \<mapsto> after_entry pb cl ss r t sd c)\<rparr>" by simp_all
  show ?thesis using i
    by (elim disjE conjE; simp add: if_alive_def HandleRequestSessionEnter_def ParseFromArray_nonneg len c bindM_norm
        bindM_run add y) (simp_all add: served_def d)
qed

text \<open>The host's join code, for a session whose callback is the one its creation installed.\<close>

lemma handle_joincode_sim:
  fixes s :: "('d, 'c) Lobby"
  assumes len: "0 \<le> len" "parse_joincode pb (take (nat len) data) = Some code"
    and o: "pr_sessions s ss = Some (created_session t i)"
    and rel: "game_rel (view (pr_db s)) t sd" and c: "pr_clients s r = Some c" and host: "GetToken cl c = sd_host sd"
    and i: "map_find i (lb_emptySessions s) = Some ss"
  obtains d where "run_lobby_handler pb rs cl (OnJoinCode ss r) data len s
      = (Inr (), s\<lparr>pr_db := d, lb_sessions := map_put i ss (lb_sessions s),
                  lb_emptySessions := map_erase i (lb_emptySessions s)\<rparr>)"
    "game_rel (view d) t (sd\<lparr>sd_joinCode := code\<rparr>)" "volatile d = volatile (pr_db s)"
proof -
  have at: "session_at s ss t" by (simp add: session_at_def o created_session_def)
  obtain d where "SetHostJoinCode rs cl ss r code s = (Inr True, s\<lparr>pr_db := d, pr_clients := pr_clients s\<rparr>)"
    and d: "view d = put_field (view (pr_db s)) (session_key t) ''joinCode'' code" "volatile d = volatile (pr_db s)"
    using SetHostJoinCode_sim [OF at rel c, of code] host by (auto elim: servedE)
  then have set: "fst (SetHostJoinCode rs cl ss r code s) = Inr True" "snd (SetHostJoinCode rs cl ss r code s) = s\<lparr>pr_db := d\<rparr>"
    by simp_all
  have "run_lobby_handler pb rs cl (OnJoinCode ss r) data len s
      = (Inr (), s\<lparr>pr_db := d, lb_sessions := map_put i ss (lb_sessions s),
                  lb_emptySessions := map_erase i (lb_emptySessions s)\<rparr>)"
    by (simp add: handle_joincode_def OnReceiveHostJoinCode_def ParseFromArray_nonneg len c o bindM_norm bindM_run set
        created_session_def ActivateSession_def i ret_apply modify_apply)
  then show thesis using that [of d] d game_rel_joinCode [OF rel, of code] by simp
qed

text \<open>The list: the sessions that are complete in Redis, in the order of their indices.\<close>

lemma collect_session_info_sim:
  fixes s :: "('d, 'c) Lobby"
  assumes "\<forall>(i, ss) \<in> set xs. \<exists>t. session_at s ss t \<and> readable_session (view (pr_db s)) t"
  shows "served view volatile s (listed (view (pr_db s)) (pr_sessions s) xs) (view (pr_db s)) (volatile (pr_db s))
    (pr_clients s) (collect_session_info rs xs s)"
  using assms
proof (induction xs arbitrary: s)
  case Nil
  show ?case by (simp add: served_def listed_def)
next
  case (Cons x xs)
  obtain i ss where x: "x = (i, ss)" by fastforce
  with Cons.prems obtain t where at: "session_at s ss t" and l: "readable_session (view (pr_db s)) t" by auto
  let ?shown = "shown_session (view (pr_db s)) t" and ?rest = "listed (view (pr_db s)) (pr_sessions s) xs"
  have t: "Option.bind (pr_sessions s ss) (\<lambda>x. shown_session (view (pr_db s)) (ss_token x)) = ?shown"
    using at by (auto elim: session_atE)
  obtain d where "GetSessionInfo rs ss s = (Inr ?shown, s\<lparr>pr_db := d, pr_clients := pr_clients s\<rparr>)"
    and d: "view d = view (pr_db s)" "volatile d = volatile (pr_db s)"
    using GetSessionInfo_sim [OF at l] by (rule servedE)
  then have info: "fst (GetSessionInfo rs ss s) = Inr ?shown"
    "snd (GetSessionInfo rs ss s) = s\<lparr>pr_db := d\<rparr>" by simp_all
  have "served view volatile (s\<lparr>pr_db := d\<rparr>) ?rest (view (pr_db s)) (volatile (pr_db s)) (pr_clients s)
      (collect_session_info rs xs (s\<lparr>pr_db := d\<rparr>))"
    using Cons.IH [of "s\<lparr>pr_db := d\<rparr>"] Cons.prems by (auto simp: session_at_def d)
  then obtain d' where "collect_session_info rs xs (s\<lparr>pr_db := d\<rparr>)
      = (Inr ?rest, s\<lparr>pr_db := d, pr_db := d', pr_clients := pr_clients s\<rparr>)"
    and d': "view d' = view (pr_db s)" "volatile d' = volatile (pr_db s)" by (rule servedE)
  then have rest: "fst (collect_session_info rs xs (s\<lparr>pr_db := d\<rparr>)) = Inr ?rest"
    "snd (collect_session_info rs xs (s\<lparr>pr_db := d\<rparr>)) = s\<lparr>pr_db := d'\<rparr>" by simp_all
  show ?case
    by (cases ?shown) (simp_all add: x bindM_run info rest listed_def t served_def d')
qed

lemma RewriteSessionListCache_sim:
  fixes s :: "('d, 'c) Lobby"
  assumes "\<forall>(i, ss) \<in> set (lb_sessions s). \<exists>t. session_at s ss t \<and> readable_session (view (pr_db s)) t"
  obtains d where "RewriteSessionListCache pb rs s
      = (Inr (), s\<lparr>pr_db := d, lb_serializedRSLCache := serialize_session_list pb
           \<lparr>rsl_count = int (length (lb_sessions s)), rsl_list = listed (view (pr_db s)) (pr_sessions s) (lb_sessions s)\<rparr>,
           lb_timers := Suc (lb_timers s)\<rparr>)"
    "view d = view (pr_db s)" "volatile d = volatile (pr_db s)"
proof -
  obtain d where "collect_session_info rs (lb_sessions s) s
      = (Inr (listed (view (pr_db s)) (pr_sessions s) (lb_sessions s)), s\<lparr>pr_db := d, pr_clients := pr_clients s\<rparr>)"
    and d: "view d = view (pr_db s)" "volatile d = volatile (pr_db s)"
    using collect_session_info_sim [OF assms] by (rule servedE)
  then have c: "fst (collect_session_info rs (lb_sessions s) s) = Inr (listed (view (pr_db s)) (pr_sessions s) (lb_sessions s))"
    "snd (collect_session_info rs (lb_sessions s) s) = s\<lparr>pr_db := d\<rparr>" by simp_all
  show thesis
  proof (cases "lb_sessions s = []")
    case True
    then show thesis using that [of "pr_db s"]
      by (simp add: RewriteSessionListCache_def bindM_run seqM_def modify_apply listed_def)
  next
    case False
    then show thesis using that [of d] d c
      by (simp add: RewriteSessionListCache_def bindM_run seqM_def modify_apply)
  qed
qed

text \<open>Any sequence of entries into one session, by the clients \<open>qs\<close>.\<close>

lemma entries_sim:
  fixes s :: "('d, 'c, 'z) Process_scheme"
  assumes "session_at s ss t" and "game_rel (view (pr_db s)) t sd" and "sd_host sd \<noteq> 0"
    and "capacity_inv seen sd" and "unat (sd_max sd) < 2 ^ 31 - 1"
    and "\<forall>q\<in>set qs. \<exists>c. pr_clients s q = Some c \<and> view (pr_db s) (user_key (GetToken cl c)) \<noteq> None"
  shows "\<exists>s' sd'. forM qs (\<lambda>q. seqM (Session_AddClient pb rs cl ss (Some q) reason) (ret ())) s = (Inr (), s')
    \<and> game_rel (view (pr_db s')) t sd' \<and> sd_host sd' = sd_host sd \<and> sd_max sd' = sd_max sd
    \<and> capacity_inv (seen \<union> (\<lambda>q. GetToken cl (the (pr_clients s q))) ` set qs) sd'"
  using assms
proof (induction qs arbitrary: s sd seen)
  case Nil
  then show ?case by (intro exI [of _ s] exI [of _ sd]) (simp add: ret_apply)
next
  case (Cons q qs)
  obtain c where c: "pr_clients s q = Some c" "view (pr_db s) (user_key (GetToken cl c)) \<noteq> None"
    using Cons.prems(6) by auto
  let ?u = "GetToken cl c" and ?c' = "after_entry pb cl ss q t sd c"
  let ?e = "session_enter ?u (GetNickname cl c) sd"
  have small: "card (dom (sd_members sd)) < 2 ^ 31" using Cons.prems(4,5) by (simp add: capacity_inv_def)
  obtain d where d: "Session_AddClient pb rs cl ss (Some q) reason s
      = (Inr (fst ?e), s\<lparr>pr_db := d, pr_clients := (pr_clients s)(q \<mapsto> ?c')\<rparr>)"
    and v: "view d = (if entry_refused ?u sd = None
      then put_field (view (pr_db s)) (session_clients_key t) (to_string_u64 ?u) (GetNickname cl c) else view (pr_db s))"
    using Session_AddClient_sim [OF Cons.prems(1-3) small c, of pb reason] by (rule servedE)
  let ?s = "s\<lparr>pr_db := d, pr_clients := (pr_clients s)(q \<mapsto> ?c')\<rparr>"
  have rel: "game_rel (view d) t (snd ?e)"
    using Cons.prems(2) game_rel_member [OF Cons.prems(2)] by (auto simp: v session_enter_def split: option.split)
  have tok: "GetToken cl ?c' = ?u" by (simp add: after_entry_def Let_def lc.Legacy_ok)
  have toks: "GetToken cl (the (pr_clients ?s q')) = GetToken cl (the (pr_clients s q'))" for q'
    using tok c(1) by simp
  have same: "sd_host (snd ?e) = sd_host sd" "sd_max (snd ?e) = sd_max sd"
    by (simp_all add: session_enter_def split: option.split)
  have known: "\<forall>q'\<in>set qs. \<exists>c. pr_clients ?s q' = Some c \<and> view (pr_db ?s) (user_key (GetToken cl c)) \<noteq> None"
    using Cons.prems(6) tok c by (auto simp: v)
  have at: "session_at ?s ss t" using Cons.prems(1) by (simp add: session_at_def)
  define body where "body = (\<lambda>q. seqM (Session_AddClient pb rs cl ss (Some q) reason) (ret ()) :: ('d, 'c, 'z) Process_scheme \<Rightarrow> _)"
  have "body q s = (Inr (), ?s)" using d by (simp add: body_def seqM_def bindM_def ret_apply)
  then have step: "forM (q # qs) body s = forM qs body ?s" by (simp add: seqM_def bindM_def)
  obtain s' sd' where "forM qs body ?s = (Inr (), s')"
    "game_rel (view (pr_db s')) t sd'" "sd_host sd' = sd_host sd" "sd_max sd' = sd_max sd"
    "capacity_inv (insert ?u seen \<union> (\<lambda>q. GetToken cl (the (pr_clients s q))) ` set qs) sd'"
    using Cons.IH [OF at _ _ capacity_enter [OF Cons.prems(4), of ?u "GetNickname cl c"] _ known] rel same Cons.prems(3,5)
    unfolding toks body_def by auto
  then show ?case using step c(1) unfolding body_def [symmetric] by auto
qed

text \<open>A creation as its client sees it.\<close>

lemma host_creates:
  fixes s :: "('d, 'c) Lobby"
  assumes "0 \<le> len" "parse_session_creation pb (take (nat len) data) = Some m"
    and "allocate (pr_tokens s) = Some (t, pool)" and "pr_clients s r = Some c"
    and "view (pr_db s) (session_key t) = None" "view (pr_db s) (session_clients_key t) = None"
    and "utf8_length (bytes_of (rsc_sessionname m)) = Inr n" "2 \<le> n"
    and i: "i = sint (lb_sessionIndexCounter s) + 1" "0 \<le> i" "i < 2 ^ 31"
  obtains d c' where "run_lobby_handler pb rs cl (OnSessionCreation r) data len s
      = (Inr (), after_creation t pool d ((pr_clients s)(r \<mapsto> c')) s)"
    "GetToken cl c' = GetToken cl c" "GetNickname cl c' = GetNickname cl c"
    "game_rel (view d) t (session_create (GetToken cl c) (GetNickname cl c) 4 (rsc_sessionname m) (rsc_password m))"
    "view d (user_key u) = view (pr_db s) (user_key u)"
    "volatile d = volatile (pr_db s) \<union> {session_key t, session_clients_key t}"
  by (rule HandleRequestSessionCreate_sim [OF assms(1-8)]) (use i in \<open>auto intro: that simp: lc.Legacy_ok\<close>)

text \<open>The entry of the host into the session it has created.\<close>

lemma host_enters:
  fixes s :: "('d, 'c) Lobby"
  assumes len: "0 \<le> len" "parse_session_entry pb (take (nat len) data) = Some i"
    and i: "map_find i (lb_emptySessions s) = Some ss" and o: "pr_sessions s ss = Some (created_session t i)"
    and rel: "game_rel (view (pr_db s)) t sd" and c: "pr_clients s r = Some c"
    and host: "sd_host sd = GetToken cl c" "GetToken cl c \<noteq> 0" and only: "sd_members sd = [GetToken cl c \<mapsto> GetNickname cl c]"
    and known: "view (pr_db s) (user_key (GetToken cl c)) \<noteq> None"
  obtains d c' where "run_lobby_handler pb rs cl (OnSessionEntry r) data len s
      = (Inr (), s\<lparr>pr_db := d, pr_clients := (pr_clients s)(r \<mapsto> c')\<rparr>)"
    "GetToken cl c' = GetToken cl c" "game_rel (view d) t sd"
    "volatile d = volatile (pr_db s) - {session_key t, session_clients_key t}"
proof -
  have at: "session_at s ss t" by (simp add: session_at_def o created_session_def)
  have e: "entry_refused (GetToken cl c) sd = None" by (simp add: entry_refused_def host)
  let ?v = "put_field (view (pr_db s)) (session_clients_key t) (to_string_u64 (GetToken cl c)) (GetNickname cl c)"
  have v: "game_rel ?v t sd"
  proof -
    have "(sd_members sd)(GetToken cl c \<mapsto> GetNickname cl c) = sd_members sd" by (simp add: only)
    with game_rel_member [OF rel, of "GetToken cl c" "GetNickname cl c"] show ?thesis by simp
  qed
  have small: "card (dom (sd_members sd)) < 2 ^ 31" and h: "sd_host sd \<noteq> 0" using only host by simp_all
  let ?c' = "snd (PostWrite cl (framed (RESPONSE_SESSION_ENTRY pb) (serialize_session_entry pb
      \<lparr>se_result = fst (fst (session_enter (GetToken cl c) (GetNickname cl c) sd)),
       se_reason = snd (fst (session_enter (GetToken cl c) (GetNickname cl c) sd))\<rparr>)) (after_entry pb cl ss r t sd c))"
  have tok: "GetToken cl ?c' = GetToken cl c" by (simp add: after_entry_def Let_def lc.Legacy_ok)
  obtain d where "run_lobby_handler pb rs cl (OnSessionEntry r) data len s
      = (Inr (), s\<lparr>pr_db := d, pr_clients := (pr_clients s)(r \<mapsto> ?c')\<rparr>)"
    "view d = ?v" "volatile d = volatile (pr_db s) - {session_key t, session_clients_key t}"
    using servedE [OF HandleRequestSessionEnter_sim [OF len disjI1 [OF i] at rel h small c known]] unfolding e host(1) if_True simp_thms .
  then show thesis using that [of ?c' d] tok v by simp
qed

end

end
