(* ===== verification/Lobby_Properties.thy ===== *)
theory Lobby_Properties
  imports Lobby_Refines
begin

text \<open>
  What the lobby and the sessions promise, and where they do not keep it: the properties of the
  classes under \<^verbatim>\<open>src/deprecated\<close> over every Redis with the documented behaviour and every
  client class that keeps the contract \<open>legacy_client\<close>, and one concrete lobby for the witnesses.
\<close>

section \<open>A concrete lobby\<close>

definition lobby_test_pb :: lobby_pb where
  "lobby_test_pb =
     \<lparr>JOINCODE = 1, REQUEST_ENVIRONMENT = 2, ENVIRONMENT = 3,
      parse_joincode = (\<lambda>d. Some ''CODE''), serialize_environment = (\<lambda>e. bytes_of (env_sessionname e)),
      REQUEST_SESSION_LIST = 4, REQUEST_SESSION_CREATION = 5, REQUEST_SESSION_ENTRY = 6, REQUEST_LOBBY_EXIT = 7,
      RESPONSE_SESSION_LIST = 8, RESPONSE_SESSION_CREATION = 9, RESPONSE_SESSION_ENTRY = 10, LBMT_DISCONNECTED = 11,
      parse_session_creation = (\<lambda>d. Some \<lparr>rsc_sessionname = ''game'', rsc_password = ''pw''\<rparr>),
      parse_session_entry = (\<lambda>d. Some 1),
      serialize_session_creation = (\<lambda>r. bytes_of (sc_reason r)),
      serialize_session_entry = (\<lambda>r. bytes_of (se_reason r)),
      serialize_session_list = (\<lambda>r. [of_int (rsl_count r), of_nat (length (rsl_list r))])\<rparr>"

type_synonym lobby_socket = "(lobby_handler, lobby_disconnect) ClientSocket \<times> string"

definition lobby_test_client :: "token \<Rightarrow> lobby_socket" where
  "lobby_test_client t =
     (\<lparr>cs_open = True, cs_token = t, cs_loginKey = [], cs_alloc = replicate 4096 0, cs_recvBuffer = None,
       cs_writeBufferQueue = [], cs_packetHandler = [], cs_disconnectHandler = [], cs_reading = 0, cs_popped = 0, cs_writing = []\<rparr>,
      ''alice'')"

definition test_process :: "expdb \<Rightarrow> token \<Rightarrow> (expdb, lobby_socket) Process" where
  "test_process d t = \<lparr>pr_db = d, pr_tokens = \<lparr>used = {t}, draws = [9]\<rparr>, pr_clients = [0 \<mapsto> lobby_test_client t],
     pr_sessions = Map.empty, pr_next = 0\<rparr>"

definition test_lobby :: "(expdb, lobby_socket) Lobby" where
  "test_lobby = LobbyManager_ctor 0 (test_process ([(user_key 5, RString ''alice'')], []) 5)"

text \<open>A session of the host 1 with a limit of 4 and four members, in a database in which client 5 is known.\<close>

definition full_session :: session_data where
  "full_session = \<lparr>sd_host = 1, sd_max = 4, sd_name = ''game'', sd_password = [], sd_joinCode = [],
     sd_members = [1 \<mapsto> ''a'', 2 \<mapsto> ''b'', 3 \<mapsto> ''c'', 4 \<mapsto> ''d'']\<rparr>"

definition full_db :: expdb where
  "full_db =
     ([(session_key 9, RHash [''hostToken'' \<mapsto> to_string_u64 1, ''maxClientCount'' \<mapsto> dec_of_nat 4, ''name'' \<mapsto> ''game'',
          ''password'' \<mapsto> [], ''joinCode'' \<mapsto> []]),
       (session_clients_key 9, RHash [to_string_u64 1 \<mapsto> ''a'', to_string_u64 2 \<mapsto> ''b'', to_string_u64 3 \<mapsto> ''c'',
          to_string_u64 4 \<mapsto> ''d'']),
       (user_key 5, RString ''alice'')], [session_key 9, session_clients_key 9])"

definition full_process :: "(expdb, lobby_socket) Lobby" where
  "full_process = (LobbyManager_ctor 1 (test_process full_db 5))
     \<lparr>pr_sessions := [0 \<mapsto> created_session 9 1], lb_sessions := [(1, 0)]\<rparr>"

lemma full_session_rel: "game_rel (exp_view full_db) 9 full_session"
  by (auto simp: game_rel_def settings_rel_def members_rel_def exp_view_def mem_view_def full_db_def full_session_def
      hash_at_def hashy_def split: if_splits)

lemma full_process_simps [simp]:
  "pr_db full_process = full_db" "pr_clients full_process = [0 \<mapsto> lobby_test_client 5]"
  "session_at full_process 0 9" "lb_sessions full_process = [(1, 0)]"
  by (simp_all add: full_process_def LobbyManager_ctor_def test_process_def session_at_def created_session_def
      Process.defs)

lemma full_session_card: "card (dom (sd_members full_session)) = 4"
  by (simp add: full_session_def)

lemma named_client_simps [simp]:
  "GetToken named_client (lobby_test_client t) = t" "GetNickname named_client (lobby_test_client t) = ''alice''"
  by (simp_all add: named_client_def lobby_test_client_def ClientSocket_GetToken_def)

lemma test_lobby_simps:
  "pr_clients test_lobby 0 = Some (lobby_test_client 5)" "lb_sessionIndexCounter test_lobby = 0" "pr_next test_lobby = 0"
  "allocate (pr_tokens test_lobby) = Some (9, \<lparr>used = {9, 5}, draws = []\<rparr>)"
  "pr_db test_lobby = ([(user_key 5, RString ''alice'')], [])" "lb_emptySessions test_lobby = []" "lb_sessions test_lobby = []"
  by (simp_all add: test_lobby_def LobbyManager_ctor_def test_process_def Process.defs allocate_def)

lemma lobby_test_pb_simps:
  "parse_session_creation lobby_test_pb x = Some \<lparr>rsc_sessionname = ''game'', rsc_password = ''pw''\<rparr>"
  "parse_session_entry lobby_test_pb x = Some 1" "parse_joincode lobby_test_pb x = Some ''CODE''"
  by (simp_all add: lobby_test_pb_def)

lemma game_name: "utf8_length (bytes_of ''game'') = Inr 4"
  by code_simp

section \<open>Properties\<close>

text \<open>C28: entering a session implements the abstract entry: the host always gets in and makes the
  session permanent, a guest gets in when the host is a member and the count is not above the limit; the
  answer, the members in Redis, the time to live and the closures stored in the client are exactly those
  of the specification, and nothing else changes.\<close>

theorem add_client_refines:
  fixes s :: "('d, 'c, 'z) Process_scheme" and cl :: "('c, 'y) lobby_client"
  assumes "redis_expiring R view glob volatile" and "legacy_client cl queue phandler ehandler ok_client"
    and "session_at s ss t" and "game_rel (view (pr_db s)) t sd" and "sd_host sd \<noteq> 0"
    and "card (dom (sd_members sd)) < 2 ^ 31" and "pr_clients s r = Some c"
    and "view (pr_db s) (user_key (GetToken cl c)) \<noteq> None"
  shows "\<exists>d. Session_AddClient pb (RedisService R) cl ss (Some r) reason s
      = (Inr (fst (session_enter (GetToken cl c) (GetNickname cl c) sd)),
         s\<lparr>pr_db := d, pr_clients := (pr_clients s)(r \<mapsto> after_entry pb cl ss r t sd c)\<rparr>)
    \<and> game_rel (view d) t (snd (session_enter (GetToken cl c) (GetNickname cl c) sd))
    \<and> volatile d = volatile (pr_db s) -
        (if GetToken cl c = sd_host sd then {session_key t, session_clients_key t} else {})
    \<and> (\<forall>k. k \<noteq> session_clients_key t \<longrightarrow> view d k = view (pr_db s) k)"
proof -
  note service = redis_expiring.session_service [OF assms(1,2)]
  show ?thesis
    by (rule servedE [OF session_service.Session_AddClient_sim [OF service assms(3-8), of pb reason]])
      (use assms(4) game_rel_member [OF assms(4)] in \<open>auto simp: session_enter_def split: option.split\<close>)
qed

theorem add_client_refines_witness:
  "\<exists>d. Session_AddClient lobby_test_pb (RedisService exp_redis) named_client 0 (Some 0) [] full_process
      = (Inr (True, ''ok''), full_process\<lparr>pr_db := d, pr_clients := [0 \<mapsto>
           after_entry lobby_test_pb named_client 0 0 9 full_session (lobby_test_client 5)]\<rparr>)
    \<and> game_rel (exp_view d) 9 (full_session\<lparr>sd_members := (sd_members full_session)(5 \<mapsto> ''alice'')\<rparr>)"
proof -
  have "fst (session_enter 5 ''alice'' full_session) = (True, ''ok'')"
    "snd (session_enter 5 ''alice'' full_session) = full_session\<lparr>sd_members := (sd_members full_session)(5 \<mapsto> ''alice'')\<rparr>"
    using full_session_card by (simp_all add: session_enter_def entry_refused_def) (simp_all add: full_session_def)
  moreover have "exp_view full_db (user_key 5) \<noteq> None" by (simp add: exp_view_def mem_view_def full_db_def)
  moreover have "sd_host full_session \<noteq> 0" by (simp add: full_session_def)
  ultimately show ?thesis
    using add_client_refines [OF emem.redis_expiring_axioms nc.legacy_client_axioms, of full_process 0 9 full_session 0
        "lobby_test_client 5" lobby_test_pb "[]"] full_session_rel full_session_card
    by (simp del: split_paired_Ex) blast
qed

text \<open>C32: the limit of a session is not the limit. The documentation calls \<^verbatim>\<open>maxClientCount\<close> the
  greatest number of clients that may enter; the test \<^verbatim>\<open>currentClientCount > mcc\<close> lets a guest into a
  session that already has that many. From its creation on, whatever known clients ask to enter, in whatever
  order and however often, the number of members is the number of different clients that asked (the host
  included) or the limit plus one, whichever is less: it never exceeds the limit by more than one, and it
  exceeds it by one as soon as that many clients have asked.\<close>

theorem session_capacity:
  fixes s :: "('d, 'c, 'z) Process_scheme" and cl :: "('c, 'y) lobby_client"
  assumes "redis_expiring R view glob volatile" and "legacy_client cl queue phandler ehandler ok_client"
    and o: "pr_sessions s ss = Some o'" "ss_token o' = t" and c: "pr_clients s r = Some c" "GetToken cl c \<noteq> 0"
    and fresh: "view (pr_db s) (session_key t) = None" "view (pr_db s) (session_clients_key t) = None"
    and limit: "maxc \<noteq> 0" "unat maxc < 2 ^ 31 - 1" and name: "utf8_length (bytes_of name) = Inr n" "2 \<le> n"
    and asking: "\<forall>q\<in>set qs. \<exists>c. pr_clients s q = Some c \<and> view (pr_db s) (user_key (GetToken cl c)) \<noteq> None"
  shows "\<exists>s1 s2 sd. Session_CreateSession (RedisService R) cl ss (Some r) maxc name password reason s = (Inr (True, reason), s1)
    \<and> forM qs (\<lambda>q. seqM (Session_AddClient pb (RedisService R) cl ss (Some q) reason) (ret ())) s1 = (Inr (), s2)
    \<and> game_rel (view (pr_db s2)) t sd \<and> sd_host sd = GetToken cl c \<and> sd_max sd = maxc
    \<and> card (dom (sd_members sd))
        = min (unat maxc + 1) (card (insert (GetToken cl c) ((\<lambda>q. GetToken cl (the (pr_clients s q))) ` set qs)))"
proof -
  note service = redis_expiring.session_service [OF assms(1,2)]
  let ?u = "GetToken cl c" and ?o = "o'\<lparr>ss_sessionKey := session_key t, ss_sessionClientsKey := session_clients_key t\<rparr>"
  let ?sd = "session_create ?u (GetNickname cl c) maxc name password"
  obtain d where create: "Session_CreateSession (RedisService R) cl ss (Some r) maxc name password reason s
      = (Inr (True, reason), s\<lparr>pr_db := d, pr_sessions := (pr_sessions s)(ss \<mapsto> ?o)\<rparr>)"
    and rel: "game_rel (view d) t ?sd"
    and frame: "\<And>k. k \<noteq> session_key t \<Longrightarrow> k \<noteq> session_clients_key t \<Longrightarrow> view d k = view (pr_db s) k"
    using session_service.Session_CreateSession_sim [OF service o c(1) fresh limit(1) name, of password reason] by metis
  let ?s1 = "s\<lparr>pr_db := d, pr_sessions := (pr_sessions s)(ss \<mapsto> ?o)\<rparr>"
  have "session_at ?s1 ss t" using o(2) by (simp add: session_at_def)
  moreover have "sd_host ?sd \<noteq> 0" "unat (sd_max ?sd) < 2 ^ 31 - 1" using c(2) limit(2) by (simp_all add: session_create_def)
  moreover have "\<forall>q\<in>set qs. \<exists>c. pr_clients ?s1 q = Some c \<and> view (pr_db ?s1) (user_key (GetToken cl c)) \<noteq> None"
    using asking frame by auto
  ultimately obtain s2 sd where "forM qs (\<lambda>q. seqM (Session_AddClient pb (RedisService R) cl ss (Some q) reason) (ret ())) ?s1 = (Inr (), s2)"
    "game_rel (view (pr_db s2)) t sd" and sd: "sd_host sd = sd_host ?sd" "sd_max sd = sd_max ?sd"
    "capacity_inv ({?u} \<union> (\<lambda>q. GetToken cl (the (pr_clients ?s1 q))) ` set qs) sd"
    using session_service.entries_sim [OF service _ _ _ capacity_create [OF limit(1)], of ?s1 ss t ?u "GetNickname cl c" name password qs pb reason] rel
    by auto
  moreover have "sd_host sd = ?u" "sd_max sd = maxc" using sd by (simp_all add: session_create_def)
  ultimately show ?thesis using create capacity_card [OF sd(3)]
    by (intro exI [of _ ?s1] exI [of _ s2] exI [of _ sd]) simp
qed

text \<open>A process with one session object and three known clients: a session for one client gets two.\<close>

definition three_clients :: "(expdb, lobby_socket) Process" where
  "three_clients =
     \<lparr>pr_db = ([(user_key 5, RString ''a''), (user_key 6, RString ''b''), (user_key 7, RString ''c'')], []),
      pr_tokens = \<lparr>used = {5, 6, 7, 9}, draws = []\<rparr>,
      pr_clients = [0 \<mapsto> lobby_test_client 5, 1 \<mapsto> lobby_test_client 6, 2 \<mapsto> lobby_test_client 7],
      pr_sessions = [0 \<mapsto> \<lparr>ss_token = 9, ss_sessionKey = [], ss_sessionClientsKey = [], ss_receiveJoinCodeCallback = None\<rparr>],
      pr_next = 1\<rparr>"

theorem session_capacity_witness:
  "\<exists>s1 s2 sd. Session_CreateSession (RedisService exp_redis) named_client 0 (Some 0) 1 ''game'' [] [] three_clients = (Inr (True, []), s1)
    \<and> forM [0, 1, 2] (\<lambda>q. seqM (Session_AddClient lobby_test_pb (RedisService exp_redis) named_client 0 (Some q) []) (ret ())) s1 = (Inr (), s2)
    \<and> game_rel (exp_view (pr_db s2)) 9 sd \<and> sd_max sd = 1 \<and> card (dom (sd_members sd)) = 2"
proof -
  have s: "pr_sessions three_clients 0 = Some \<lparr>ss_token = 9, ss_sessionKey = [], ss_sessionClientsKey = [], ss_receiveJoinCodeCallback = None\<rparr>"
    and c: "pr_clients three_clients 0 = Some (lobby_test_client 5)" "pr_clients three_clients 1 = Some (lobby_test_client 6)"
      "pr_clients three_clients 2 = Some (lobby_test_client 7)"
    and v: "exp_view (pr_db three_clients) (session_key 9) = None" "exp_view (pr_db three_clients) (session_clients_key 9) = None"
      "\<forall>t\<in>{5, 6, 7}. exp_view (pr_db three_clients) (user_key t) \<noteq> None"
    by (simp_all add: three_clients_def exp_view_def mem_view_def)
  have "\<forall>q\<in>set [0, 1, 2]. \<exists>c. pr_clients three_clients q = Some c
      \<and> exp_view (pr_db three_clients) (user_key (GetToken named_client c)) \<noteq> None"
    using c v(3) by (simp del: split_paired_Ex)
  from session_capacity [OF emem.redis_expiring_axioms nc.legacy_client_axioms s _ c(1) _ v(1,2) _ _ game_name _ this,
      of 1 "[]" "[]" lobby_test_pb]
  obtain s1 s2 sd where r: "Session_CreateSession (RedisService exp_redis) named_client 0 (Some 0) 1 ''game'' [] [] three_clients = (Inr (True, []), s1)"
    "forM [0, 1, 2] (\<lambda>q. seqM (Session_AddClient lobby_test_pb (RedisService exp_redis) named_client 0 (Some q) []) (ret ())) s1 = (Inr (), s2)"
    "game_rel (exp_view (pr_db s2)) 9 sd" "sd_max sd = 1"
    and n: "card (dom (sd_members sd)) = min (unat (1 :: uint32) + 1)
      (card (insert 5 ((\<lambda>q. GetToken named_client (the (pr_clients three_clients q))) ` set [0, 1, 2])))"
    by auto
  have "(\<lambda>q. GetToken named_client (the (pr_clients three_clients q))) ` set [0, 1, 2] = {5, 6, 7}" using c by auto
  then have "card (dom (sd_members sd)) = 2" using n by simp
  with r show ?thesis by blast
qed

text \<open>C29: in every history of the lobby, over any Redis and any client class, the table of empty
  sessions and the table of active ones have no index in common, every session in them is a live object
  whose callback activates exactly its own index, and two different indices never share a session object
  or a session token (and so never a key in Redis).\<close>

theorem lobby_sessions_consistent:
  assumes "lobby_reachable pb rs cl (LobbyManager_ctor memory p) s" and "pr_sessions p = Map.empty"
  shows "(\<forall>i. map_find i (lb_emptySessions s) = None \<or> map_find i (lb_sessions s) = None)
    \<and> (\<forall>i ss. map_find i (lb_emptySessions s) = Some ss \<or> map_find i (lb_sessions s) = Some ss \<longrightarrow>
         (\<exists>x. pr_sessions s ss = Some x \<and> ss_receiveJoinCodeCallback x = Some (CallActivateSession i)
              \<and> ss_token x \<in> used (pr_tokens s)))
    \<and> (\<forall>ss ss' x x'. pr_sessions s ss = Some x \<and> pr_sessions s ss' = Some x' \<and> ss_token x = ss_token x' \<longrightarrow> ss = ss')"
proof -
  have init: "lobby_inv (LobbyManager_ctor memory p)"
    using assms(2) by (simp add: tables_ok_def tables_def LobbyManager_ctor_def Process.defs ids_of_def)
  have inv: "lobby_inv s"
    using assms(1)
  proof induction
    case (lobby_more s ev s')
    then show ?case using lobby_next_inv [of s pb rs cl ev] by simp
  qed (rule init)
  note D = tables_okD [OF inv]
  show ?thesis
  proof (intro conjI allI impI)
    fix i show "map_find i (lb_emptySessions s) = None \<or> map_find i (lb_sessions s) = None"
      using D(3) [of i] by (simp add: tables_def)
  next
    fix i ss assume "map_find i (lb_emptySessions s) = Some ss \<or> map_find i (lb_sessions s) = Some ss"
    then obtain t where "lt_ids (tables s) ss = Some (t, Some (CallActivateSession i))"
      using D(7) [of i ss] by (auto simp: tables_def)
    with D(5) show "\<exists>x. pr_sessions s ss = Some x \<and> ss_receiveJoinCodeCallback x = Some (CallActivateSession i)
        \<and> ss_token x \<in> used (pr_tokens s)"
      by (fastforce simp: tables_def ids_of_def)
  next
    fix ss ss' x x'
    assume "pr_sessions s ss = Some x \<and> pr_sessions s ss' = Some x' \<and> ss_token x = ss_token x'"
    then show "ss = ss'" using D(6) [of ss "ss_token x" _ ss'] by (simp add: tables_def ids_of_def)
  qed
qed

theorem lobby_sessions_consistent_witness:
  "\<exists>s x. lobby_reachable lobby_test_pb (RedisService exp_redis) named_client test_lobby s
    \<and> map_find 1 (lb_emptySessions s) = Some 0 \<and> pr_sessions s 0 = Some x
    \<and> ss_receiveJoinCodeCallback x = Some (CallActivateSession 1) \<and> map_find 1 (lb_sessions s) = None"
proof -
  obtain d c' where "lobby_next lobby_test_pb (RedisService exp_redis) named_client (LobbyPacket (OnSessionCreation 0) [] 0) test_lobby
      = (Inr (), after_creation 9 \<lparr>used = {9, 5}, draws = []\<rparr> d ((pr_clients test_lobby)(0 \<mapsto> c')) test_lobby)"
    (is "_ = (_, ?s)")
    using memlobby.host_creates [of 0 lobby_test_pb "[]" "\<lparr>rsc_sessionname = ''game'', rsc_password = ''pw''\<rparr>" test_lobby 9
        "\<lparr>used = {9, 5}, draws = []\<rparr>" 0 "lobby_test_client 5" 4 1]
    by (simp add: test_lobby_simps lobby_test_pb_simps game_name exp_view_def mem_view_def del: run_lobby_handler.simps) blast
  then have r: "lobby_reachable lobby_test_pb (RedisService exp_redis) named_client test_lobby ?s"
    by (rule lobby_more [OF lobby_start])
  have e: "map_find 1 (lb_emptySessions ?s) = Some 0" by (simp add: after_creation_def test_lobby_simps)
  have p: "pr_sessions (test_process d 5) = Map.empty" for d by (simp add: test_process_def)
  note main = lobby_sessions_consistent [of lobby_test_pb "RedisService exp_redis" named_client 0
      "test_process ([(user_key 5, RString ''alice'')], []) 5" ?s, folded test_lobby_def, OF r p]
  obtain x where "pr_sessions ?s 0 = Some x" "ss_receiveJoinCodeCallback x = Some (CallActivateSession 1)"
    using conjunct1 [OF conjunct2 [OF main], rule_format, OF disjI1 [OF e]] by blast
  moreover have "map_find 1 (lb_sessions ?s) = None" using spec [OF conjunct1 [OF main], of 1] e by simp
  ultimately show ?thesis using r e by blast
qed

text \<open>C30: the life of a session. A known client that asks for a session with a proper name gets one
  under the next index, in the table of empty sessions and with a time to live; when it enters, the session
  becomes permanent; when it sends its join code, the session moves to the table of active sessions, and
  Redis holds its settings, its host as the only member, and the join code.\<close>

theorem session_lifecycle:
  fixes s :: "('d, 'c) Lobby" and cl :: "('c, 'y) lobby_client"
  defines "i \<equiv> sint (lb_sessionIndexCounter s) + 1" and "ss \<equiv> pr_next s"
  assumes "redis_expiring R view glob volatile" and "legacy_client cl queue phandler ehandler ok_client"
    and c: "pr_clients s r = Some c" "GetToken cl c \<noteq> 0" "view (pr_db s) (user_key (GetToken cl c)) \<noteq> None"
    and t: "allocate (pr_tokens s) = Some (t, pool)"
      "view (pr_db s) (session_key t) = None" "view (pr_db s) (session_clients_key t) = None"
    and i: "0 \<le> i" "i < 2 ^ 31" and tables: "map_ok (lb_emptySessions s)" "map_ok (lb_sessions s)"
    and create: "0 \<le> len1" "parse_session_creation pb (take (nat len1) data1) = Some m"
      "utf8_length (bytes_of (rsc_sessionname m)) = Inr n" "2 \<le> n"
    and enter: "0 \<le> len2" "parse_session_entry pb (take (nat len2) data2) = Some i"
    and join: "0 \<le> len3" "parse_joincode pb (take (nat len3) data3) = Some code"
  shows "\<exists>s1 s2 s3. run_lobby_handler pb (RedisService R) cl (OnSessionCreation r) data1 len1 s = (Inr (), s1)
    \<and> run_lobby_handler pb (RedisService R) cl (OnSessionEntry r) data2 len2 s1 = (Inr (), s2)
    \<and> run_lobby_handler pb (RedisService R) cl (OnJoinCode ss r) data3 len3 s2 = (Inr (), s3)
    \<and> map_find i (lb_emptySessions s1) = Some ss \<and> {session_key t, session_clients_key t} \<subseteq> volatile (pr_db s1)
    \<and> map_find i (lb_emptySessions s2) = Some ss \<and> {session_key t, session_clients_key t} \<inter> volatile (pr_db s2) = {}
    \<and> map_find i (lb_emptySessions s3) = None \<and> map_find i (lb_sessions s3) = Some ss
    \<and> {session_key t, session_clients_key t} \<inter> volatile (pr_db s3) = {}
    \<and> game_rel (view (pr_db s3)) t
        ((session_create (GetToken cl c) (GetNickname cl c) 4 (rsc_sessionname m) (rsc_password m))\<lparr>sd_joinCode := code\<rparr>)"
proof -
  note service = redis_expiring.session_service [OF assms(3,4)]
  let ?u = "GetToken cl c"
  define sd where "sd = session_create ?u (GetNickname cl c) 4 (rsc_sessionname m) (rsc_password m)"
  have sd: "sd_host sd = ?u" "sd_members sd = [?u \<mapsto> GetNickname cl c]" "entry_refused ?u sd = None"
    by (simp_all add: sd_def session_create_def entry_refused_def)
  obtain d1 c1 where
    s1: "run_lobby_handler pb (RedisService R) cl (OnSessionCreation r) data1 len1 s
      = (Inr (), after_creation t pool d1 ((pr_clients s)(r \<mapsto> c1)) s)"
    and c1: "GetToken cl c1 = ?u" "GetNickname cl c1 = GetNickname cl c" and rel1: "game_rel (view d1) t sd"
    and known1: "view d1 (user_key ?u) = view (pr_db s) (user_key ?u)"
    and vol1: "volatile d1 = volatile (pr_db s) \<union> {session_key t, session_clients_key t}"
    using session_service.host_creates [OF service create(1,2) t(1) c(1) t(2,3) create(3,4) meta_eq_to_obj_eq [OF i_def] i]
    unfolding sd_def by blast
  define s1' where "s1' = after_creation t pool d1 ((pr_clients s)(r \<mapsto> c1)) s"
  have f1: "pr_db s1' = d1" "pr_clients s1' r = Some c1" "pr_sessions s1' ss = Some (created_session t i)"
    "map_find i (lb_emptySessions s1') = Some ss" "lb_sessions s1' = lb_sessions s" "map_ok (lb_emptySessions s1')"
    using tables by (simp_all add: s1'_def after_creation_def i_def ss_def)
  obtain d2 c2 where s2: "run_lobby_handler pb (RedisService R) cl (OnSessionEntry r) data2 len2 s1'
      = (Inr (), s1'\<lparr>pr_db := d2, pr_clients := (pr_clients s1')(r \<mapsto> c2)\<rparr>)"
    and c2: "GetToken cl c2 = ?u" and rel2: "game_rel (view d2) t sd"
    and vol2: "volatile d2 = volatile d1 - {session_key t, session_clients_key t}"
    by (rule session_service.host_enters [OF service enter f1(4,3), of sd r c1])
      (use rel1 known1 c sd c1 f1 in auto)
  define s2' where "s2' = s1'\<lparr>pr_db := d2, pr_clients := (pr_clients s1')(r \<mapsto> c2)\<rparr>"
  obtain d3 where s3: "run_lobby_handler pb (RedisService R) cl (OnJoinCode ss r) data3 len3 s2'
      = (Inr (), s2'\<lparr>pr_db := d3, lb_sessions := map_put i ss (lb_sessions s2'),
           lb_emptySessions := map_erase i (lb_emptySessions s2')\<rparr>)"
    and rel3: "game_rel (view d3) t (sd\<lparr>sd_joinCode := code\<rparr>)" and vol3: "volatile d3 = volatile (pr_db s2')"
    by (rule session_service.handle_joincode_sim [OF service join, of s2' ss t i sd r c2])
      (use rel2 c2 sd f1 in \<open>auto simp: s2'_def\<close>)
  define s3' where "s3' = s2'\<lparr>pr_db := d3, lb_sessions := map_put i ss (lb_sessions s2'),
      lb_emptySessions := map_erase i (lb_emptySessions s2')\<rparr>"
  have "map_find i (lb_emptySessions s2') = Some ss" "map_find i (lb_emptySessions s3') = None"
    "map_find i (lb_sessions s3') = Some ss" "game_rel (view (pr_db s3')) t (sd\<lparr>sd_joinCode := code\<rparr>)"
    using f1 tables rel3 by (simp_all add: s3'_def s2'_def)
  moreover have "{session_key t, session_clients_key t} \<subseteq> volatile (pr_db s1')"
    "{session_key t, session_clients_key t} \<inter> volatile (pr_db s2') = {}"
    "{session_key t, session_clients_key t} \<inter> volatile (pr_db s3') = {}"
    using f1(1) vol1 vol2 vol3 by (simp_all add: s3'_def s2'_def)
  ultimately show ?thesis
    using s1 [folded s1'_def] s2 [folded s2'_def] s3 [folded s3'_def] f1(4) unfolding sd_def
    by (intro exI [of _ s1'] exI [of _ s2'] exI [of _ s3'] conjI)
qed

theorem session_lifecycle_witness:
  "\<exists>s1 s2 s3. run_lobby_handler lobby_test_pb (RedisService exp_redis) named_client (OnSessionCreation 0) [] 0 test_lobby
      = (Inr (), s1)
    \<and> run_lobby_handler lobby_test_pb (RedisService exp_redis) named_client (OnSessionEntry 0) [] 0 s1 = (Inr (), s2)
    \<and> run_lobby_handler lobby_test_pb (RedisService exp_redis) named_client (OnJoinCode 0 0) [] 0 s2 = (Inr (), s3)
    \<and> map_find 1 (lb_sessions s3) = Some 0
    \<and> game_rel (exp_view (pr_db s3)) 9 ((session_create 5 ''alice'' 4 ''game'' ''pw'')\<lparr>sd_joinCode := ''CODE''\<rparr>)"
proof -
  show ?thesis
    using session_lifecycle [OF emem.redis_expiring_axioms nc.legacy_client_axioms test_lobby_simps(1), of 9 "\<lparr>used = {9, 5}, draws = []\<rparr>"
        0 lobby_test_pb "[]" "\<lparr>rsc_sessionname = ''game'', rsc_password = ''pw''\<rparr>" 4 0 "[]" 0 "[]" "''CODE''"]
    by (simp add: test_lobby_simps lobby_test_pb_simps game_name exp_view_def mem_view_def del: run_lobby_handler.simps) blast
qed

text \<open>C31: a refresh of the session list writes into the cache, in the order of the indices, one entry for
  each active session that is complete in Redis (its five settings are there, its host is a number other
  than 0, its members exist) and has a member, with its name, limit, number of members, password and join code
  as they are there; sessions that are incomplete or have expired are left out. The refresh changes no key and
  starts the next wait of the timer, and a request for the list is answered with the cache. The count in the
  message is the number of active sessions, listed or not.\<close>

theorem session_list_shows_redis:
  fixes s :: "('d, 'c) Lobby" and cl :: "('c, 'y) lobby_client"
  assumes "redis_expiring R view glob volatile" and "legacy_client cl queue phandler ehandler ok_client"
    and "\<forall>(i, ss) \<in> set (lb_sessions s). \<exists>t. session_at s ss t \<and> readable_session (view (pr_db s)) t"
    and "pr_clients s r = Some c"
  shows "\<exists>d s1. on_refresh_timer pb (RedisService R) None (s\<lparr>lb_timers := Suc n\<rparr>) = (Inr (), s1)
    \<and> s1 = s\<lparr>pr_db := d, lb_serializedRSLCache := serialize_session_list pb
           \<lparr>rsl_count = int (length (lb_sessions s)), rsl_list = listed (view (pr_db s)) (pr_sessions s) (lb_sessions s)\<rparr>,
           lb_timers := Suc n\<rparr>
    \<and> view d = view (pr_db s)
    \<and> run_lobby_handler pb (RedisService R) cl (OnSessionList r) data len s1
      = (Inr (), s1\<lparr>pr_clients := (pr_clients s)(r \<mapsto> snd (PostWrite cl (framed (RESPONSE_SESSION_LIST pb)
          (lb_serializedRSLCache s1)) c))\<rparr>)"
proof -
  note service = redis_expiring.session_service [OF assms(1,2)]
  let ?s = "s\<lparr>lb_timers := n\<rparr>"
  let ?list = "listed (view (pr_db s)) (pr_sessions s) (lb_sessions s)"
  have "\<forall>(i, ss) \<in> set (lb_sessions ?s). \<exists>t. session_at ?s ss t \<and> readable_session (view (pr_db ?s)) t"
    using assms(3) by (simp add: session_at_def)
  then obtain d where run: "RewriteSessionListCache pb (RedisService R) ?s
      = (Inr (), ?s\<lparr>pr_db := d, lb_serializedRSLCache := serialize_session_list pb
           \<lparr>rsl_count = int (length (lb_sessions ?s)), rsl_list = listed (view (pr_db ?s)) (pr_sessions ?s) (lb_sessions ?s)\<rparr>,
           lb_timers := Suc (lb_timers ?s)\<rparr>)" and d: "view d = view (pr_db ?s)"
    by (rule session_service.RewriteSessionListCache_sim [OF service])
  define s1 where "s1 = s\<lparr>pr_db := d, lb_serializedRSLCache := serialize_session_list pb
           \<lparr>rsl_count = int (length (lb_sessions s)), rsl_list = ?list\<rparr>, lb_timers := Suc n\<rparr>"
  have "on_refresh_timer pb (RedisService R) None (s\<lparr>lb_timers := Suc n\<rparr>) = (Inr (), s1)"
    by (simp add: on_refresh_timer_def seqM_def bindM_run run) (auto intro!: Lobby_eqI simp: s1_def)
  moreover have "run_lobby_handler pb (RedisService R) cl (OnSessionList r) data len s1
      = (Inr (), s1\<lparr>pr_clients := (pr_clients s)(r \<mapsto> snd (PostWrite cl (framed (RESPONSE_SESSION_LIST pb)
          (lb_serializedRSLCache s1)) c))\<rparr>)"
    using assms(4) by (simp add: if_alive_def SendCurrentActivedSessionList_def seqM_def bindM_run s1_def ret_apply)
  ultimately show ?thesis using d s1_def by auto
qed

text \<open>A lobby with two active sessions, of which the second has lost its password.\<close>

definition broken_settings :: rvalue where
  "broken_settings = RHash [''hostToken'' \<mapsto> to_string_u64 1, ''maxClientCount'' \<mapsto> ''many'', ''name'' \<mapsto> ''lost'', ''joinCode'' \<mapsto> []]"

definition mixed_lobby :: "(expdb, lobby_socket) Lobby" where
  "mixed_lobby = full_process\<lparr>pr_db := ((session_key 8, broken_settings) # fst full_db, snd full_db),
     pr_sessions := [0 \<mapsto> created_session 9 1, 1 \<mapsto> created_session 8 2], lb_sessions := [(1, 0), (2, 1)]\<rparr>"

lemma mixed_lobby_simps:
  "exp_view (pr_db mixed_lobby) = (exp_view full_db)(session_key 8 \<mapsto> broken_settings)"
  "pr_sessions mixed_lobby = [0 \<mapsto> created_session 9 1, 1 \<mapsto> created_session 8 2]"
  "lb_sessions mixed_lobby = [(1, 0), (2, 1)]" "pr_clients mixed_lobby = [0 \<mapsto> lobby_test_client 5]"
  "session_at mixed_lobby 0 9" "session_at mixed_lobby 1 8"
  by (simp_all add: mixed_lobby_def exp_view_def mem_view_def session_at_def created_session_def)

lemma mixed_sessions:
  defines "v \<equiv> exp_view (pr_db mixed_lobby)"
  shows "complete_session v 9" "\<not> complete_session v 8" "readable_session v 9" "readable_session v 8"
    "card (dom (hash_at v (session_clients_key 9))) = 4"
proof -
  have "game_rel v 9 full_session"
    unfolding v_def mixed_lobby_simps by (rule game_rel_frame [OF full_session_rel]) simp_all
  note rel = game_relD [OF this]
  show c: "complete_session v 9"
    by (rule game_rel_complete [OF \<open>game_rel v 9 full_session\<close>]) (simp add: full_session_def)
  show n: "card (dom (hash_at v (session_clients_key 9))) = 4" using rel(11) full_session_card by simp
  show "readable_session v 9"
    unfolding readable_session_def using rel n stoi_dec [of 4] by (simp add: full_session_def)
  show b: "\<not> complete_session v 8"
    by (simp add: v_def mixed_lobby_simps complete_session_def session_fields_def broken_settings_def)
  have "exp_view full_db (session_clients_key 8) = None" by (simp add: exp_view_def mem_view_def full_db_def)
  then show "readable_session v 8"
    unfolding readable_session_def using b
    by (simp add: v_def mixed_lobby_simps broken_settings_def hashy_absent)
qed

theorem session_list_shows_redis_witness:
  "\<exists>d s1. on_refresh_timer lobby_test_pb (RedisService exp_redis) None (mixed_lobby\<lparr>lb_timers := Suc 0\<rparr>) = (Inr (), s1)
    \<and> s1 = mixed_lobby\<lparr>pr_db := d, lb_serializedRSLCache := [2, 1], lb_timers := Suc 0\<rparr>"
proof -
  let ?v = "exp_view (pr_db mixed_lobby)"
  have "\<forall>(i, ss) \<in> set (lb_sessions mixed_lobby). \<exists>t. session_at mixed_lobby ss t \<and> readable_session ?v t"
    using mixed_lobby_simps(5,6) mixed_sessions(3,4) by (auto simp: mixed_lobby_simps(3))
  moreover have "length (listed ?v (pr_sessions mixed_lobby) (lb_sessions mixed_lobby)) = 1"
  proof -
    obtain info where "shown_session ?v 9 = Some info" using mixed_sessions(1,5) by (simp add: shown_session_def Let_def)
    moreover have "shown_session ?v 8 = None" using mixed_sessions(2) by (simp add: shown_session_def Let_def)
    ultimately show ?thesis
      by (simp add: mixed_lobby_simps(2,3) listed_def created_session_def List.map_filter_simps)
  qed
  ultimately show ?thesis
    using session_list_shows_redis [OF emem.redis_expiring_axioms nc.legacy_client_axioms, of mixed_lobby
        0 "lobby_test_client 5" lobby_test_pb 0 "[]" 0]
    by (simp add: mixed_lobby_simps(3,4) lobby_test_pb_def del: run_lobby_handler.simps split_paired_Ex) blast
qed

text \<open>C36: a guest may enter a session that its host has not entered yet, for the host is a member from the
  creation on. The session keeps its time to live, the guest keeps a closure for its environment, and once
  the session has expired a request for the environment dereferences an empty \<^verbatim>\<open>std::optional\<close>.\<close>

theorem environment_after_expiry:
  fixes s :: "('d, 'c) Lobby" and cl :: "('c, 'y) lobby_client"
  assumes "redis_expiring R view glob volatile" and "legacy_client cl queue phandler ehandler ok_client"
    and "session_at s ss t" and "game_rel (view (pr_db s)) t sd" and "sd_host sd \<noteq> 0"
    and "card (dom (sd_members sd)) < 2 ^ 31" and "pr_clients s r = Some c" and "ok_client c"
    and "view (pr_db s) (user_key (GetToken cl c)) \<noteq> None" and guest: "GetToken cl c \<noteq> sd_host sd"
    and "entry_refused (GetToken cl c) sd = None" and "session_key t \<in> volatile (pr_db s)"
  shows "\<exists>s1 c1. Session_AddClient pb (RedisService R) cl ss (Some r) [] s = (Inr (True, ''ok''), s1)
    \<and> session_key t \<in> volatile (pr_db s1) \<and> pr_clients s1 r = Some c1
    \<and> phandler c1 (sint (REQUEST_ENVIRONMENT pb)) = Some (OnRequestEnvironment r (session_key t) False)
    \<and> (\<forall>s' :: ('d, 'c) Lobby. view (pr_db s') (session_key t) = None \<and> pr_clients s' r \<noteq> None \<longrightarrow>
         fst (run_lobby_handler pb (RedisService R) cl (OnRequestEnvironment r (session_key t) False) data len s')
           = Inl (Undefined ''name''))"
proof -
  note service = redis_expiring.session_service [OF assms(1,2)]
  let ?c = "after_entry pb cl ss r t sd c"
  have e: "fst (session_enter (GetToken cl c) (GetNickname cl c) sd) = (True, ''ok'')"
    using assms(11) by (simp add: session_enter_def)
  obtain d where "Session_AddClient pb (RedisService R) cl ss (Some r) [] s
      = (Inr (True, ''ok''), s\<lparr>pr_db := d, pr_clients := (pr_clients s)(r \<mapsto> ?c)\<rparr>)"
    and "volatile d = volatile (pr_db s) - (if GetToken cl c = sd_host sd then {session_key t, session_clients_key t} else {})"
    using session_service.Session_AddClient_sim [OF service assms(3-7,9), of pb "[]"] unfolding e by (rule servedE)
  moreover have "phandler ?c (sint (REQUEST_ENVIRONMENT pb)) = Some (OnRequestEnvironment r (session_key t) False)"
    using guest assms(8,11) iclient.phandler_set(1) [OF legacy_client.axioms(1) [OF assms(2)]]
    by (auto simp: after_entry_def)
  moreover have "fst (run_lobby_handler pb (RedisService R) cl (OnRequestEnvironment r (session_key t) False) data len s')
      = Inl (Undefined ''name'')" if "view (pr_db s') (session_key t) = None" "pr_clients s' r \<noteq> None" for s' :: "('d, 'c) Lobby"
    using session_service.handle_request_environment_gone [OF service that(1), of r _ pb False] that(2) by auto
  ultimately show ?thesis using guest assms(12)
    by (intro exI [of _ "s\<lparr>pr_db := d, pr_clients := (pr_clients s)(r \<mapsto> ?c)\<rparr>"] exI [of _ ?c]) simp
qed

theorem environment_after_expiry_witness:
  "\<exists>s1. Session_AddClient lobby_test_pb (RedisService exp_redis) named_client 0 (Some 0) [] full_process = (Inr (True, ''ok''), s1)
    \<and> session_key 9 \<in> exp_volatile (pr_db s1)
    \<and> fst (run_lobby_handler lobby_test_pb (RedisService exp_redis) named_client
        (OnRequestEnvironment 0 (session_key 9) False) [] 0 test_lobby) = Inl (Undefined ''name'')"
proof -
  have "entry_refused 5 full_session = None" using full_session_card by (simp add: entry_refused_def) (simp add: full_session_def)
  moreover have "sd_host full_session = 1" by (simp add: full_session_def)
  moreover have "exp_view full_db (user_key 5) \<noteq> None" "session_key 9 \<in> exp_volatile full_db"
    by (simp_all add: exp_view_def mem_view_def full_db_def exp_volatile_def)
  moreover have "exp_view (pr_db test_lobby) (session_key 9) = None" "pr_clients test_lobby 0 \<noteq> None"
    by (simp_all add: test_lobby_simps exp_view_def mem_view_def)
  moreover have "handlers_ok (fst (lobby_test_client 5))" by (simp add: handlers_ok_def lobby_test_client_def)
  ultimately show ?thesis
    using environment_after_expiry [OF emem.redis_expiring_axioms nc.legacy_client_axioms, of full_process 0 9 full_session 0
        "lobby_test_client 5" lobby_test_pb "[]" 0] full_session_rel full_session_card
    by (simp del: run_lobby_handler.simps split_paired_Ex) blast
qed

end
