(* ===== verification/Room.thy ===== *)
theory Room
  imports Session
begin

text \<open>
  \<^verbatim>\<open>src/deprecated/room.h\<close> and \<^verbatim>\<open>src/deprecated/room.cpp\<close>: a room broadcasts to its
  members. A \<open>Room\<close> record is the object; \<open>rm_timers\<close> counts the waits started on its timer and
  \<open>rm_udp\<close> lists the datagrams handed to the socket. \<^verbatim>\<open>_udpRecvBuffer\<close> is allocated and
  never used; the functions that are commented out are not modelled.
\<close>

record Room =
  rm_index :: int
  rm_name :: string
  rm_joinCode :: string
  rm_clients :: "(token, nat) std_map"
  rm_broadcastingMessage :: string
  rm_timers :: nat
  rm_udp :: "(string \<times> byte list) list"

record ('d, 'c) RoomProcess = "('d, 'c) Process" +
  pr_room :: Room

datatype room_handler = OnBroadcast nat

text \<open>The generated code: \<open>parse_broadcast\<close> yields the field of \<^verbatim>\<open>M_BroadcastMessage\<close>,
  \<open>serialize_bcsync\<close> serialises an \<^verbatim>\<open>M_BCSync_1\<close> with the given field.\<close>

record room_pb =
  REQUEST_SYNC1 :: int32
  REQUEST_BROADCASTING_MESSAGE :: int32
  RESPONSE_BROADCASTING_MESSAGE :: int32
  parse_broadcast :: "byte list \<Rightarrow> string option"
  serialize_bcsync :: "string \<Rightarrow> byte list"

definition room_do :: "(Room \<Rightarrow> Room) \<Rightarrow> (('d, 'c) RoomProcess, unit) comp" where
  "room_do f = modify (\<lambda>s. s\<lparr>pr_room := f (pr_room s)\<rparr>)"

section \<open>Broadcasting\<close>

text \<open>\<^verbatim>\<open>for (auto &ep : _clients) ep.second->PostWrite(buffer)\<close>\<close>

definition post_all :: "('c, 'h, 'e, 'y) IClient_scheme \<Rightarrow> byte list \<Rightarrow> (('d, 'c) RoomProcess, unit) comp" where
  "post_all cl buffer =
     bindM (gets (\<lambda>s. rm_clients (pr_room s))) (\<lambda>clients.
     forM clients (\<lambda>(_, c). seqM (clientP c (PostWrite cl buffer)) (ret ())))"

definition StartSyncTimer :: "room_pb \<Rightarrow> ('c, 'h, 'e, 'y) IClient_scheme \<Rightarrow> (('d, 'c) RoomProcess, unit) comp" where
  "StartSyncTimer pb cl =
     bindM (gets (\<lambda>s. rm_broadcastingMessage (pr_room s))) (\<lambda>message.
     seqM
       (if 0 < length message
        then post_all cl (framed (REQUEST_SYNC1 pb) (serialize_bcsync pb message))
        else ret ())
       (room_do (\<lambda>r. r\<lparr>rm_timers := Suc (rm_timers r)\<rparr>)))"

text \<open>The completion handler of the timer.\<close>

definition on_sync_timer :: "room_pb \<Rightarrow> ('c, 'h, 'e, 'y) IClient_scheme \<Rightarrow> string option \<Rightarrow> (('d, 'c) RoomProcess, unit) comp" where
  "on_sync_timer pb cl ec =
     seqM (room_do (\<lambda>r. r\<lparr>rm_timers := rm_timers r - 1\<rparr>))
       (case ec of None \<Rightarrow> StartSyncTimer pb cl | Some _ \<Rightarrow> ret ())"

definition SendUDPData :: "string \<Rightarrow> byte list \<Rightarrow> (('d, 'c) RoomProcess, unit) comp" where
  "SendUDPData remoteEndpoint buffer = room_do (\<lambda>r. r\<lparr>rm_udp := rm_udp r @ [(remoteEndpoint, buffer)]\<rparr>)"

definition BroadcastMessage :: "room_pb \<Rightarrow> ('c, 'h, 'e, 'y) IClient_scheme \<Rightarrow> string \<Rightarrow> (('d, 'c) RoomProcess, unit) comp" where
  "BroadcastMessage pb cl message =
     post_all cl (framed (RESPONSE_BROADCASTING_MESSAGE pb) (bytes_of message))"

section \<open>Members\<close>

definition Room_ctor :: "room_pb \<Rightarrow> ('c, 'h, 'e, 'y) IClient_scheme \<Rightarrow> string \<Rightarrow> (('d, 'c) RoomProcess, unit) comp" where
  "Room_ctor pb cl joinCode =
     seqM (room_do (\<lambda>_. \<lparr>rm_index = 100, rm_name = [], rm_joinCode = joinCode, rm_clients = [],
                         rm_broadcastingMessage = [], rm_timers = 0, rm_udp = []\<rparr>))
       (StartSyncTimer pb cl)"

definition EnterRoom ::
  "room_pb \<Rightarrow> ('c, room_handler, 'e, 'y) IClient_scheme \<Rightarrow> nat \<Rightarrow> (('d, 'c) RoomProcess, bool \<times> string) comp" where
  "EnterRoom pb cl client =
     bindM (client_getP client (GetToken cl)) (\<lambda>token.
     if token < 1 then ret (False, ''Client token is not valid.'')
     else
       seqM (room_do (\<lambda>r. r\<lparr>rm_clients := map_put token client (rm_clients r)\<rparr>))
      (seqM (client_doP client (SetPacketHandler cl (sint (REQUEST_BROADCASTING_MESSAGE pb)) (OnBroadcast client)))
      (ret (True, ''ok''))))"

text \<open>The parameter is an \<^verbatim>\<open>int\<close>, the keys are \<^verbatim>\<open>uint64_t\<close>: the value is sign extended.\<close>

definition ExitRoom :: "room_pb \<Rightarrow> ('c, 'h, 'e, 'y) IClient_scheme \<Rightarrow> int32 \<Rightarrow> (('d, 'c) RoomProcess, unit) comp" where
  "ExitRoom pb cl index =
     bindM (gets (\<lambda>s. map_find (scast index) (rm_clients (pr_room s)))) (\<lambda>found.
     case found of
       None \<Rightarrow> ret ()
     | Some client \<Rightarrow>
         seqM (client_doP client (RemovePacketHandler cl (sint (REQUEST_BROADCASTING_MESSAGE pb))))
        (room_do (\<lambda>r. r\<lparr>rm_clients := map_erase (scast index) (rm_clients r)\<rparr>)))"

definition Room_DisconnectClient :: "token \<Rightarrow> (('d, 'c) RoomProcess, unit) comp" where
  "Room_DisconnectClient token = room_do (\<lambda>r. r\<lparr>rm_clients := map_erase token (rm_clients r)\<rparr>)"

definition Room_SetIndex :: "int \<Rightarrow> (('d, 'c) RoomProcess, unit) comp" where
  "Room_SetIndex index = room_do (\<lambda>r. r\<lparr>rm_index := index\<rparr>)"

definition Room_SetName :: "string \<Rightarrow> (('d, 'c) RoomProcess, unit) comp" where
  "Room_SetName name = room_do (\<lambda>r. r\<lparr>rm_name := name\<rparr>)"

fun run_room_handler ::
  "room_pb \<Rightarrow> ('c, 'h, 'e, 'y) IClient_scheme \<Rightarrow> room_handler \<Rightarrow> byte list \<Rightarrow> int \<Rightarrow> (('d, 'c) RoomProcess, unit) comp" where
  "run_room_handler pb cl (OnBroadcast c) data len =
     bindM (gets (\<lambda>s. pr_clients s c \<noteq> None)) (\<lambda>alive.
     if \<not> alive then ret ()
     else bindM (ParseFromArray (parse_broadcast pb) data len) (\<lambda>bm.
          case bm of None \<Rightarrow> ret () | Some message \<Rightarrow> BroadcastMessage pb cl message))"

end
