(* ===== verification/Room_Properties.thy ===== *)
theory Room_Properties
  imports Room Session_Refines
begin

text \<open>
  The members of a room (\<open>room_ok\<close>: the table maps the token of each member to its live object, kept
  by entering and leaving), what a broadcast does, and which members \<^verbatim>\<open>ExitRoom\<close> cannot remove.
\<close>

definition room_ok :: "('c, 'h, 'e, 'y) IClient_scheme \<Rightarrow> ('d, 'c) RoomProcess \<Rightarrow> bool" where
  "room_ok cl s \<longleftrightarrow> map_ok (rm_clients (pr_room s))
     \<and> (\<forall>(t, r) \<in> set (rm_clients (pr_room s)). \<exists>c. pr_clients s r = Some c \<and> GetToken cl c = t)"

lemma room_ok_refs:
  assumes "room_ok cl s"
  shows "distinct (map snd (rm_clients (pr_room s)))"
proof -
  let ?m = "rm_clients (pr_room s)" and ?tok = "\<lambda>r. GetToken cl (the (pr_clients s r))"
  have "map ?tok (map snd ?m) = map fst ?m"
    using assms by (auto simp: room_ok_def)
  moreover have "distinct (map fst ?m)" using assms by (intro sm.elems_distinct) (simp add: room_ok_def)
  ultimately have "distinct (map ?tok (map snd ?m))" by (simp only:)
  then show ?thesis unfolding distinct_map by simp
qed

definition post_to :: "('c, 'h, 'e, 'y) IClient_scheme \<Rightarrow> byte list \<Rightarrow> nat set \<Rightarrow> (nat \<rightharpoonup> 'c) \<Rightarrow> (nat \<rightharpoonup> 'c)" where
  "post_to cl buffer rs h =
     (\<lambda>r. map_option (\<lambda>c. if r \<in> rs then snd (PostWrite cl buffer c) else c) (h r))"

lemma forM_post:
  fixes s :: "('d, 'c) RoomProcess"
  assumes "distinct (map snd xs)" and "\<forall>(t, r) \<in> set xs. pr_clients s r \<noteq> None"
  shows "forM xs (\<lambda>(_, c). seqM (clientP c (PostWrite cl buffer)) (ret ())) s
    = (Inr (), s\<lparr>pr_clients := post_to cl buffer (snd ` set xs) (pr_clients s)\<rparr>)"
  using assms
proof (induction xs arbitrary: s)
  case Nil
  show ?case by (simp add: post_to_def option.map_ident ret_apply)
next
  case (Cons x xs)
  obtain t r where x: "x = (t, r)" by fastforce
  with Cons.prems obtain c where c: "pr_clients s r = Some c" by auto
  let ?s = "s\<lparr>pr_clients := (pr_clients s)(r \<mapsto> snd (PostWrite cl buffer c))\<rparr>"
  have "forM xs (\<lambda>(_, c). seqM (clientP c (PostWrite cl buffer)) (ret ())) ?s
      = (Inr (), ?s\<lparr>pr_clients := post_to cl buffer (snd ` set xs) (pr_clients ?s)\<rparr>)"
    using Cons.prems x by (intro Cons.IH) auto
  moreover have "post_to cl buffer (snd ` set xs) (pr_clients ?s) = post_to cl buffer (snd ` set (x # xs)) (pr_clients s)"
    using Cons.prems(1) c by (auto simp: post_to_def x fun_eq_iff image_iff)
  moreover have "seqM (clientP r (PostWrite cl buffer)) (ret ()) s = (Inr (), ?s)"
    by (simp add: seqM_def bindM_run c ret_apply)
  ultimately show ?case by (simp add: x seqM_Inr)
qed

lemma EnterRoom_room_ok:
  assumes "iclient cl queue phandler ehandler ok_client" and "room_ok cl s" and "pr_clients s r = Some c"
  shows "room_ok cl (snd (EnterRoom pb cl r s))"
  using assms iclient.token_kept(4) [OF assms(1)]
  by (auto simp: EnterRoom_def room_ok_def bindM_run seqM_def room_do_def sm.elems_put_perm)

lemma ExitRoom_run:
  fixes s :: "('d, 'c) RoomProcess"
  assumes "room_ok cl s"
  shows "\<exists>heap. ExitRoom pb cl index s = (Inr (), s\<lparr>pr_clients := heap,
      pr_room := (pr_room s)\<lparr>rm_clients := map_erase (scast index) (rm_clients (pr_room s))\<rparr>\<rparr>)"
proof (cases "map_find (scast index) (rm_clients (pr_room s))")
  case None
  have "map_erase (scast index) (rm_clients (pr_room s)) = rm_clients (pr_room s)"
    using assms None by (intro sm.elems_determined) (auto simp: room_ok_def)
  with None show ?thesis
    by (intro exI [of _ "pr_clients s"]) (simp add: ExitRoom_def bindM_run ret_apply)
next
  case (Some r)
  then obtain c where "pr_clients s r = Some c"
    using assms by (auto simp: room_ok_def map_find_mem [symmetric])
  with Some show ?thesis
    by (simp add: ExitRoom_def bindM_run seqM_def room_do_def modify_apply) blast
qed

section \<open>Properties\<close>

text \<open>C33: a broadcast posts one packet with the message to every member of the room and to nobody else, and
  changes nothing besides; the room stays well-formed when a client enters.\<close>

theorem room_broadcast:
  fixes s :: "('d, 'c) RoomProcess"
  assumes "iclient cl queue phandler ehandler ok_client" and "room_ok cl s"
    and "0 \<le> len" and "parse_broadcast pb (take (nat len) data) = Some message" and "pr_clients s r \<noteq> None"
  shows "\<exists>s'. run_room_handler pb cl (OnBroadcast r) data len s = (Inr (), s')
    \<and> s' = s\<lparr>pr_clients := pr_clients s'\<rparr> \<and> room_ok cl s'
    \<and> (\<forall>q. map_option queue (pr_clients s' q) = map_option (\<lambda>c. queue c @
         (if q \<in> snd ` set (rm_clients (pr_room s))
          then [framed (RESPONSE_BROADCASTING_MESSAGE pb) (bytes_of message)] else [])) (pr_clients s q))"
proof -
  let ?b = "framed (RESPONSE_BROADCASTING_MESSAGE pb) (bytes_of message)"
  let ?s = "s\<lparr>pr_clients := post_to cl ?b (snd ` set (rm_clients (pr_room s))) (pr_clients s)\<rparr>"
  have "\<forall>(t, r) \<in> set (rm_clients (pr_room s)). pr_clients s r \<noteq> None"
    using assms(2) by (auto simp: room_ok_def)
  from forM_post [OF room_ok_refs [OF assms(2)] this, of cl ?b]
  have "run_room_handler pb cl (OnBroadcast r) data len s = (Inr (), ?s)"
    using assms(3-5) by (simp add: ParseFromArray_nonneg bindM_run BroadcastMessage_def post_all_def)
  moreover have "map_option queue (pr_clients ?s q) = map_option (\<lambda>c. queue c @
         (if q \<in> snd ` set (rm_clients (pr_room s)) then [?b] else [])) (pr_clients s q)" for q
    using iclient.queue_post(1) [OF assms(1)] by (cases "pr_clients s q") (auto simp: post_to_def)
  moreover have "room_ok cl ?s"
  proof -
    have "\<exists>c'. pr_clients ?s q = Some c' \<and> GetToken cl c' = t" if "(t, q) \<in> set (rm_clients (pr_room s))" for t q
    proof -
      have "\<forall>(t, r) \<in> set (rm_clients (pr_room s)). \<exists>c. pr_clients s r = Some c \<and> GetToken cl c = t"
        using assms(2) unfolding room_ok_def ..
      from bspec [OF this that] obtain c where "pr_clients s q = Some c" "GetToken cl c = t" by auto
      then show ?thesis using iclient.token_kept(3) [OF assms(1)] by (simp add: post_to_def)
    qed
    with assms(2) show ?thesis by (auto simp: room_ok_def)
  qed
  ultimately show ?thesis by (intro exI [of _ ?s]) simp
qed

definition test_room_pb :: room_pb where
  "test_room_pb = \<lparr>REQUEST_SYNC1 = 1, REQUEST_BROADCASTING_MESSAGE = 2, RESPONSE_BROADCASTING_MESSAGE = 3,
     parse_broadcast = (\<lambda>d. Some ''hi''), serialize_bcsync = bytes_of\<rparr>"

definition room_test_client :: "token \<Rightarrow> (room_handler, unit) ClientSocket" where
  "room_test_client t = \<lparr>cs_open = True, cs_token = t, cs_loginKey = [], cs_alloc = replicate 4096 0, cs_recvBuffer = None,
     cs_writeBufferQueue = [], cs_packetHandler = [], cs_disconnectHandler = [], cs_reading = 0, cs_popped = 0, cs_writing = []\<rparr>"

text \<open>Two members, one with a token that needs more than 32 bits, and a client outside the room.\<close>

definition test_room :: "(unit, (room_handler, unit) ClientSocket) RoomProcess" where
  "test_room = \<lparr>pr_db = (), pr_tokens = \<lparr>used = {3, 4294967296, 7}, draws = []\<rparr>,
     pr_clients = [0 \<mapsto> room_test_client 3, 1 \<mapsto> room_test_client 4294967296, 2 \<mapsto> room_test_client 7],
     pr_sessions = Map.empty, pr_next = 3,
     pr_room = \<lparr>rm_index = 100, rm_name = [], rm_joinCode = [], rm_clients = [(3, 0), (4294967296, 1)],
       rm_broadcastingMessage = [], rm_timers = 1, rm_udp = []\<rparr>\<rparr>"

lemma test_room_ok: "room_ok ClientSocket_IClient test_room"
  by (simp add: room_ok_def test_room_def room_test_client_def ClientSocket_IClient_def ClientSocket_GetToken_def)

lemma test_room_pb_simps:
  "parse_broadcast test_room_pb x = Some ''hi''" "RESPONSE_BROADCASTING_MESSAGE test_room_pb = 3"
  by (simp_all add: test_room_pb_def)

theorem room_broadcast_witness:
  "\<exists>s'. run_room_handler test_room_pb ClientSocket_IClient (OnBroadcast 0) [] 0 test_room = (Inr (), s')
    \<and> map_option cs_writeBufferQueue (pr_clients s' 1) = Some [framed 3 (bytes_of ''hi'')]
    \<and> map_option cs_writeBufferQueue (pr_clients s' 2) = Some []"
proof -
  have s: "rm_clients (pr_room test_room) = [(3, 0), (4294967296, 1)]"
    "pr_clients test_room = [0 \<mapsto> room_test_client 3, 1 \<mapsto> room_test_client 4294967296, 2 \<mapsto> room_test_client 7]"
    "cs_writeBufferQueue (room_test_client t) = []" for t
    by (simp_all add: test_room_def room_test_client_def)
  have "(0 :: int) \<le> 0" "parse_broadcast test_room_pb (take (nat 0) []) = Some ''hi''" "pr_clients test_room 0 \<noteq> None"
    by (simp_all add: test_room_pb_simps s)
  from room_broadcast [OF sock.iclient_axioms test_room_ok this]
  obtain s' where "run_room_handler test_room_pb ClientSocket_IClient (OnBroadcast 0) [] 0 test_room = (Inr (), s')"
    and q: "\<forall>q. map_option cs_writeBufferQueue (pr_clients s' q) = map_option (\<lambda>c. cs_writeBufferQueue c @
         (if q \<in> snd ` set (rm_clients (pr_room test_room))
          then [framed (RESPONSE_BROADCASTING_MESSAGE test_room_pb) (bytes_of ''hi'')] else [])) (pr_clients test_room q)"
    by blast
  moreover have "map_option cs_writeBufferQueue (pr_clients s' 1) = Some [framed 3 (bytes_of ''hi'')]"
    unfolding spec [OF q, of 1] by (simp add: s test_room_pb_simps)
  moreover have "map_option cs_writeBufferQueue (pr_clients s' 2) = Some []"
    unfolding spec [OF q, of 2] by (simp add: s)
  ultimately show ?thesis by blast
qed

text \<open>\<^verbatim>\<open>ExitRoom\<close> takes an \<^verbatim>\<open>int\<close> although the members are keyed by their 64 bit tokens: it
  removes the member whose token is the sign-extended argument and no other, so a member whose token is
  not the extension of an \<^verbatim>\<open>int\<close> stays in the room whatever it is called with.\<close>

theorem exit_room_cannot_remove:
  fixes s :: "('d, 'c) RoomProcess"
  assumes "room_ok cl s" and "2 ^ 31 \<le> uint t" and "uint t < 2 ^ 64 - 2 ^ 31"
  shows "\<exists>s'. ExitRoom pb cl index s = (Inr (), s')
    \<and> map_find t (rm_clients (pr_room s')) = map_find t (rm_clients (pr_room s))"
proof -
  have "scast index \<noteq> t"
  proof
    assume "scast index = t"
    then have "t = word_of_int (sint index)" by (simp only: scast_eq)
    then have "uint t = sint index mod 2 ^ LENGTH(64)" by (simp only: uint_word_of_int)
    then have "uint t = sint index mod 2 ^ 64" by simp
    moreover have range: "- (2 ^ 31) \<le> sint index" "sint index < 2 ^ 31"
      using sint_ge [of index] sint_lt [of index] by simp_all
    moreover have "sint index mod 2 ^ 64 = sint index + 2 ^ 64" if "sint index < 0"
    proof -
      have "sint index mod 2 ^ 64 = (sint index + 2 ^ 64) mod 2 ^ 64" by simp
      also have "\<dots> = sint index + 2 ^ 64" using that range(1) by (intro mod_pos_pos_trivial) simp_all
      finally show ?thesis .
    qed
    moreover have "sint index mod 2 ^ 64 = sint index" if "0 \<le> sint index"
      using that range(2) by (intro mod_pos_pos_trivial) simp_all
    ultimately show False using assms(2,3) by (cases "sint index < 0") simp_all
  qed
  then show ?thesis
    using ExitRoom_run [OF assms(1), of pb index] assms(1) by (auto simp: room_ok_def)
qed

theorem exit_room_cannot_remove_witness:
  "\<exists>s'. ExitRoom test_room_pb ClientSocket_IClient 0 test_room = (Inr (), s')
    \<and> map_find 4294967296 (rm_clients (pr_room s')) = Some 1"
proof -
  have "map_find 4294967296 (rm_clients (pr_room test_room)) = Some 1" by (simp add: test_room_def)
  then show ?thesis using exit_room_cannot_remove [OF test_room_ok, of 4294967296 test_room_pb 0] by simp
qed

end
