(* ===== verification/Async_Server.thy ===== *)
theory Async_Server
  imports Client_Socket Acceptor
begin

text \<open>
  \<^verbatim>\<open>src/deprecated/TestAsyncServer.cpp\<close>: the first asio server of the project, with classes
  \<^verbatim>\<open>Session\<close> and \<^verbatim>\<open>Server\<close> of its own (here \<open>Echo\<close>) and a console loop that lost its function
  header. A session receives into one fixed array and sends from another; an \<^verbatim>\<open>async_write\<close> in
  flight refers to the array, so \<open>es_writing\<close> keeps only how many of its bytes each one sends. What
  the arrays hold at first is indeterminate and an argument of the constructor. A closure posted to the
  strand is an entry of \<open>en_strand\<close>. Logging is not modelled; neither is the member \<^verbatim>\<open>_rs\<close>,
  which nothing reads.
\<close>

section \<open>Session\<close>

record EchoSession =
  es_open :: bool
  es_bufferReceived :: "byte list"
  es_bufferSend :: "byte list"
  es_remainedLengthToReceive :: int32
  es_allDataSize :: int32
  es_reading :: nat
  es_writing :: "nat list"

definition recv_max_length :: nat where
  "recv_max_length = 1024 * 1024 * 2"

definition send_max_length :: nat where
  "send_max_length = 1024"

definition EchoSession_ctor :: "byte list \<Rightarrow> byte list \<Rightarrow> EchoSession" where
  "EchoSession_ctor received send =
     \<lparr>es_open = True, es_bufferReceived = received, es_bufferSend = send,
      es_remainedLengthToReceive = 0, es_allDataSize = 0, es_reading = 0, es_writing = []\<rparr>"

definition do_read :: "EchoSession \<Rightarrow> EchoSession" where
  "do_read s = s\<lparr>es_reading := Suc (es_reading s)\<rparr>"

definition EchoSession_Start :: "EchoSession \<Rightarrow> EchoSession" where
  "EchoSession_Start s = do_read s"

definition EchoSession_Stop :: "EchoSession \<Rightarrow> EchoSession" where
  "EchoSession_Stop s = s\<lparr>es_open := False\<rparr>"

text \<open>\<^verbatim>\<open>asio::buffer(_bufferSend, length)\<close> does not reach past the array.\<close>

definition do_write :: "nat \<Rightarrow> EchoSession \<Rightarrow> EchoSession" where
  "do_write n s = s\<lparr>es_writing := es_writing s @ [min n send_max_length]\<rparr>"

text \<open>\<^verbatim>\<open>memcpy(_bufferSend, msg.data(), msg.length())\<close>\<close>

definition copy_to_send :: "string \<Rightarrow> (EchoSession, unit) comp" where
  "copy_to_send msg =
     (if send_max_length < length msg then raise (Undefined ''memcpy past _bufferSend'')
      else modify (\<lambda>s. s\<lparr>es_bufferSend := bytes_of msg @ drop (length msg) (es_bufferSend s)\<rparr>))"

text \<open>The closure \<^verbatim>\<open>AsyncWriteNotify\<close> posts.\<close>

definition run_notify :: "string \<Rightarrow> (EchoSession, unit) comp" where
  "run_notify msg = seqM (copy_to_send msg) (modify (do_write (length msg)))"

definition received_all :: "int32 \<Rightarrow> string" where
  "received_all n = ''thanks! received all data '' @ to_string_int (sint n) @ '' byte\<newline>''"

definition unspecified :: string where
  "unspecified = ''Unspecified packet\<newline>''"

text \<open>
  The branches of the completion handler for a read of \<open>n > 0\<close> bytes. Mixed arithmetic is the
  one of C++: an \<^verbatim>\<open>int\<close> next to a \<^verbatim>\<open>size_t\<close> is sign extended to 64 bits, and the result is
  truncated when it is stored in an \<^verbatim>\<open>int\<close>.
\<close>

definition on_more_data :: "nat \<Rightarrow> (EchoSession, unit) comp" where
  "on_more_data n =
     seqM (modify (\<lambda>s. s\<lparr>es_remainedLengthToReceive :=
             ucast (scast (es_remainedLengthToReceive s) - of_nat n :: uint64)\<rparr>))
    (bindM (gets es_remainedLengthToReceive) (\<lambda>remained.
     bindM (gets es_allDataSize) (\<lambda>all.
     if sint remained < 0 then ret ()
     else if remained = 0 then
       seqM (copy_to_send (received_all all))
      (seqM (modify (do_write (length (received_all all))))
      (modify (\<lambda>s. s\<lparr>es_allDataSize := 0\<rparr>)))
     else ret ())))"

definition on_many :: "nat \<Rightarrow> (EchoSession, unit) comp" where
  "on_many n =
     bindM (gets (\<lambda>s. load_int32_le (es_bufferReceived s) 4)) (\<lambda>len.
     seqM (if (of_nat n :: uint64) < scast len
           then modify (\<lambda>s. s\<lparr>es_remainedLengthToReceive := ucast (scast len - of_nat n :: uint64), es_allDataSize := len\<rparr>)
           else ret ())
      (copy_to_send (''thanks! '' @ dec_of_nat n @ '' byte\<newline>'')))"

definition on_packet :: "nat \<Rightarrow> (EchoSession, unit) comp" where
  "on_packet n =
     bindM (gets es_remainedLengthToReceive) (\<lambda>remained.
     bindM (gets es_bufferReceived) (\<lambda>buffer.
     if 0 < sint remained then on_more_data n
     else if take 4 buffer = bytes_of ''prot'' then ret ()
     else if take 4 buffer = bytes_of ''many'' then on_many n
     else seqM (copy_to_send unspecified) (modify (do_write (length unspecified)))))"

text \<open>What \<^verbatim>\<open>async_read_some\<close> completes with: bytes, the end of the stream, or another error.\<close>

datatype echo_read = Received "byte list" | EndOfFile | ReadError string

definition on_echo_read :: "echo_read \<Rightarrow> (EchoSession, unit) comp" where
  "on_echo_read r =
     seqM (modify (\<lambda>s. s\<lparr>es_reading := es_reading s - 1\<rparr>))
      (case r of
         Received bytes \<Rightarrow>
           seqM (modify (\<lambda>s. s\<lparr>es_bufferReceived := fill_buffer (es_bufferReceived s) bytes\<rparr>))
             (if length bytes = 0 then modify EchoSession_Stop
              else seqM (on_packet (length bytes)) (modify do_read))
       | EndOfFile \<Rightarrow> modify EchoSession_Stop
       | ReadError _ \<Rightarrow> modify do_read)"

section \<open>Server\<close>

text \<open>
  \<^verbatim>\<open>_sessions\<close> is ordered by address; a reference here is the address \<^verbatim>\<open>make_shared\<close> returned.
\<close>

record EchoServer =
  en_acceptor :: Acceptor
  en_heap :: "nat \<rightharpoonup> EchoSession"
  en_sessions :: "nat list"
  en_strand :: "(nat \<times> string) list"
  en_ioStopped :: bool

definition do_accept :: "EchoServer \<Rightarrow> EchoServer" where
  "do_accept s = s\<lparr>en_acceptor := Accept (en_acceptor s)\<rparr>"

definition EchoServer_ctor :: "string option \<Rightarrow> 16 word \<Rightarrow> fault + EchoServer" where
  "EchoServer_ctor bind_error port =
     (case bind_error of
        Some e \<Rightarrow> Inl (SystemError e)
      | None \<Rightarrow> Inr (do_accept
          \<lparr>en_acceptor = \<lparr>ac_port = port, ac_open = True, ac_isStopped = False, ac_pending = 0\<rparr>,
           en_heap = Map.empty, en_sessions = [], en_strand = [], en_ioStopped = False\<rparr>))"

definition session_apply :: "(EchoSession \<Rightarrow> EchoSession) \<Rightarrow> nat \<Rightarrow> EchoServer \<Rightarrow> EchoServer" where
  "session_apply f r s = s\<lparr>en_heap := (en_heap s)(r := map_option f (en_heap s r))\<rparr>"

definition EchoServer_Stop :: "EchoServer \<Rightarrow> EchoServer" where
  "EchoServer_Stop s =
     (if ac_isStopped (en_acceptor s) then s
      else
        (let s = s\<lparr>en_acceptor := (en_acceptor s)\<lparr>ac_isStopped := True, ac_open := False\<rparr>\<rparr>;
             s = fold (session_apply EchoSession_Stop) (en_sessions s) s
         in s\<lparr>en_sessions := [], en_ioStopped := True\<rparr>))"

definition AsyncWriteNotify :: "string \<Rightarrow> nat \<Rightarrow> EchoServer \<Rightarrow> EchoServer" where
  "AsyncWriteNotify message r s = s\<lparr>en_strand := en_strand s @ [(r, message)]\<rparr>"

definition Notify :: "string \<Rightarrow> EchoServer \<Rightarrow> EchoServer" where
  "Notify message s =
     (if ac_isStopped (en_acceptor s) then s
      else fold (AsyncWriteNotify message) (en_sessions s) s)"

text \<open>The completion handler of \<^verbatim>\<open>async_accept\<close>; \<open>addr\<close> is the address of the new session and
  \<open>received\<close>, \<open>send\<close> what its arrays happen to hold.\<close>

definition on_echo_accept :: "accepted \<Rightarrow> nat \<Rightarrow> byte list \<Rightarrow> byte list \<Rightarrow> (EchoServer, unit) comp" where
  "on_echo_accept r addr received send =
     seqM (modify (\<lambda>s. s\<lparr>en_acceptor := (en_acceptor s)\<lparr>ac_pending := ac_pending (en_acceptor s) - 1\<rparr>\<rparr>))
    (bindM (gets (\<lambda>s. ac_isStopped (en_acceptor s))) (\<lambda>stopped.
     if acc_error r = None \<and> \<not> stopped then
       (case acc_endpoint_error r of
          Some e \<Rightarrow> raise (SystemError e)
        | None \<Rightarrow>
            (case acc_option_error r of
               Some e \<Rightarrow> raise (SystemError e)
             | None \<Rightarrow>
                 seqM (modify (\<lambda>s. s\<lparr>en_heap := (en_heap s)(addr \<mapsto> EchoSession_ctor received send)\<rparr>))
                (seqM (modify (\<lambda>s. s\<lparr>en_sessions := insort addr (en_sessions s)\<rparr>))
                (seqM (modify (session_apply EchoSession_Start addr))
                (modify do_accept)))))
     else ret ()))"

section \<open>The console\<close>

text \<open>
  The loop over the lines of standard input: \<^verbatim>\<open>while (true)\<close>, whose only way out is
  \<^verbatim>\<open>break\<close>. \<^verbatim>\<open>getline\<close> leaves the fresh \<^verbatim>\<open>cmd\<close> empty once the input is exhausted, and the loop
  does not look at the state of the stream. A loop that does not end has the result \<open>None\<close>.
\<close>

fun getline :: "string list \<Rightarrow> string \<times> string list" where
  "getline [] = ('''', [])"
| "getline (line # lines) = (line, lines)"

partial_function (option) console :: "string list \<Rightarrow> EchoServer \<Rightarrow> EchoServer option" where
  "console input s =
     (let (cmd, input') = getline input
      in if cmd = ''stop'' then Some (EchoServer_Stop s) else console input' (Notify cmd s))"

end
