(* ===== verification/Async_Properties.thy ===== *)
theory Async_Properties
  imports Async_Server Std_Conv Client_Contract
begin

text \<open>
  The transfer protocol of the first server: a packet \<^verbatim>\<open>many\<close> announces a number of bytes, reads
  are counted down, and the last one is acknowledged. And its console, which ends the server when it is
  told to and in no other way.
\<close>

section \<open>Lengths and counters\<close>

lemma length_dec_of_nat: "n < 10 ^ Suc k \<Longrightarrow> length (dec_of_nat n) \<le> Suc k"
proof (induction k arbitrary: n)
  case (Suc k)
  show ?case
  proof (cases "n < 10")
    case False
    have "n div 10 < 10 ^ Suc k" using Suc.prems by (simp add: less_mult_imp_div_less)
    with Suc.IH False show ?thesis by (subst dec_of_nat.simps) simp
  qed (simp add: dec_of_nat.simps)
qed (simp add: dec_of_nat.simps)

text \<open>The mixed \<^verbatim>\<open>int\<close> and \<^verbatim>\<open>size_t\<close> arithmetic on counters below \<open>2 ^ 31\<close>.\<close>

lemma count_down:
  assumes "k < 2 ^ 31" and "n \<le> k"
  shows "(scast (of_nat k :: int32) :: uint64) = of_nat k"
    "(ucast (of_nat k - of_nat n :: uint64) :: int32) = of_nat (k - n)"
    "sint (of_nat k :: int32) = int k" "(of_nat k :: int32) = 0 \<longleftrightarrow> k = 0"
    "(of_nat n :: uint64) < of_nat k \<longleftrightarrow> n < k"
proof -
  show "(scast (of_nat k :: int32) :: uint64) = of_nat k" using assms(1) by (simp add: scast_eq_of_nat)
  have "(of_nat k - of_nat n :: uint64) = of_nat (k - n)" using assms(2) by simp
  then show "(ucast (of_nat k - of_nat n :: uint64) :: int32) = of_nat (k - n)"
    using assms(1) by (simp add: unsigned_of_nat take_bit_nat_eq_self)
  show s: "sint (of_nat k :: int32) = int k"
    using assms(1) by (simp add: signed_of_nat signed_take_bit_eq_if_positive take_bit_int_eq_self bit_iff_odd)
  show "(of_nat k :: int32) = 0 \<longleftrightarrow> k = 0" using s by auto
  show "(of_nat n :: uint64) < of_nat k \<longleftrightarrow> n < k"
    using assms by (simp add: word_less_nat_alt unsigned_of_nat take_bit_nat_eq_self)
qed

lemma short_response: "k < 2 ^ 31 \<Longrightarrow> length (received_all (of_nat k)) \<le> send_max_length"
  "k < 2 ^ 31 \<Longrightarrow> length (''thanks! '' @ dec_of_nat k @ '' byte\<newline>'') \<le> send_max_length"
  using length_dec_of_nat [of k 9] count_down(3) [of k 0]
  by (simp_all add: received_all_def send_max_length_def to_string_int_nonneg)

section \<open>One read\<close>

lemma copy_to_send_run:
  "length msg \<le> send_max_length \<Longrightarrow>
   copy_to_send msg s = (Inr (), s\<lparr>es_bufferSend := bytes_of msg @ drop (length msg) (es_bufferSend s)\<rparr>)"
  by (simp add: copy_to_send_def modify_def)

lemmas echo_defs = on_echo_read_def on_packet_def on_more_data_def on_many_def do_read_def do_write_def

text \<open>A read that leaves bytes outstanding only counts them down; the one that completes the transfer
  writes the acknowledgement.\<close>

lemma chunk_pending:
  assumes "es_remainedLengthToReceive s = of_nat k" and "length b < k" and "k < 2 ^ 31" and "b \<noteq> []" and "0 < es_reading s"
  shows "on_echo_read (Received b) s = (Inr (), s\<lparr>es_bufferReceived := fill_buffer (es_bufferReceived s) b,
    es_remainedLengthToReceive := of_nat (k - length b)\<rparr>)"
  using assms count_down [of k "length b"] count_down [of "k - length b" 0]
  by (simp add: echo_defs seqM_def bindM_run ret_apply modify_def del: of_nat_diff)

lemma chunk_last:
  assumes "es_remainedLengthToReceive s = of_nat (length b)" and "es_allDataSize s = of_nat all" and "all < 2 ^ 31"
    and "length b < 2 ^ 31" and "b \<noteq> []" and "0 < es_reading s"
  shows "on_echo_read (Received b) s = (Inr (), s\<lparr>es_bufferReceived := fill_buffer (es_bufferReceived s) b,
    es_bufferSend := bytes_of (received_all (of_nat all))
      @ drop (length (received_all (of_nat all))) (es_bufferSend s),
    es_remainedLengthToReceive := 0, es_allDataSize := 0,
    es_writing := es_writing s @ [length (received_all (of_nat all))]\<rparr>)"
  using assms count_down [of "length b" "length b"] short_response(1) [OF assms(3)]
  by (simp add: echo_defs seqM_def bindM_run copy_to_send_run modify_def min_absorb1)

lemma chunks_pending:
  assumes "es_remainedLengthToReceive s = of_nat k" and "sum_list (map length bs) < k" and "k < 2 ^ 31"
    and "\<forall>b \<in> set bs. b \<noteq> []" and "0 < es_reading s"
  shows "\<exists>buf. forM bs (\<lambda>b. on_echo_read (Received b)) s = (Inr (), s\<lparr>es_bufferReceived := buf,
    es_remainedLengthToReceive := of_nat (k - sum_list (map length bs))\<rparr>)"
  using assms
proof (induction bs arbitrary: s k)
  case Nil
  then show ?case by (intro exI [of _ "es_bufferReceived s"]) (simp add: ret_apply)
next
  case (Cons b bs)
  let ?s = "s\<lparr>es_bufferReceived := fill_buffer (es_bufferReceived s) b, es_remainedLengthToReceive := of_nat (k - length b)\<rparr>"
  have step: "on_echo_read (Received b) s = (Inr (), ?s)" using Cons.prems by (intro chunk_pending) simp_all
  have "\<exists>buf. forM bs (\<lambda>b. on_echo_read (Received b)) ?s = (Inr (), ?s\<lparr>es_bufferReceived := buf,
    es_remainedLengthToReceive := of_nat (k - length b - sum_list (map length bs))\<rparr>)"
    using Cons.prems by (intro Cons.IH) (simp_all del: of_nat_diff)
  with step show ?case by (auto simp: seqM_def bindM_def simp del: of_nat_diff)
qed

lemma many_buffer:
  assumes "b = bytes_of ''many'' @ append_int_vec_char_le [] (of_nat all) @ rest"
  shows "take 4 (fill_buffer buf b) = bytes_of ''many''" "load_int32_le (fill_buffer buf b) 4 = of_nat all" "b \<noteq> []"
proof -
  have buf: "fill_buffer buf b = (append_int_vec_char_le (bytes_of ''many'') (of_nat all) @ rest) @ drop (length b) buf"
    by (simp add: fill_buffer_def assms append_int_vec_char_le_def)
  show "take 4 (fill_buffer buf b) = bytes_of ''many''" "load_int32_le (fill_buffer buf b) 4 = of_nat all"
    using load_append_int_vec_char_le [of "bytes_of ''many''" "of_nat all"]
    unfolding buf append_assoc by (simp_all add: append_int_vec_char_le_def bytes_of_def eval_nat_numeral)
  show "b \<noteq> []" using assms by (auto simp: bytes_of_def)
qed

lemma many_header:
  assumes "b = bytes_of ''many'' @ append_int_vec_char_le [] (of_nat all) @ rest"
    and "sint (es_remainedLengthToReceive s) \<le> 0" and "length b < all" and "all < 2 ^ 31" and "0 < es_reading s"
  shows "on_echo_read (Received b) s = (Inr (), s\<lparr>es_bufferReceived := fill_buffer (es_bufferReceived s) b,
    es_bufferSend := bytes_of (''thanks! '' @ dec_of_nat (length b) @ '' byte\<newline>'')
      @ drop (length (''thanks! '' @ dec_of_nat (length b) @ '' byte\<newline>'')) (es_bufferSend s),
    es_remainedLengthToReceive := of_nat (all - length b), es_allDataSize := of_nat all\<rparr>)"
proof -
  let ?buf = "fill_buffer (es_bufferReceived s) b"
  have "take 4 ?buf = bytes_of ''many''" "load_int32_le ?buf 4 = of_nat all" "b \<noteq> []"
    by (rule many_buffer [OF assms(1)])+
  moreover have "bytes_of ''many'' \<noteq> bytes_of ''prot''" by (simp add: bytes_of_inj)
  moreover have "length b < 2 ^ 31" using assms(3,4) by simp
  ultimately show ?thesis
    using assms(2-5) count_down [of all "length b"] short_response(2) [of "length b"]
    by (simp add: echo_defs seqM_def bindM_run copy_to_send_run modify_def del: of_nat_diff)
qed

section \<open>Properties\<close>

text \<open>A transfer that arrives whole in one read is the exception: \<^verbatim>\<open>do_write\<close> is called only when bytes
  were outstanding, so the prepared answer stays in the array and nothing is written.\<close>

theorem many_in_one_read:
  assumes "b = bytes_of ''many'' @ append_int_vec_char_le [] (of_nat all) @ rest"
    and "sint (es_remainedLengthToReceive s) \<le> 0" and "all \<le> length b" and "length b < 2 ^ 31" and "0 < es_reading s"
  shows "\<exists>s'. on_echo_read (Received b) s = (Inr (), s') \<and> es_writing s' = es_writing s
    \<and> es_remainedLengthToReceive s' = es_remainedLengthToReceive s"
proof -
  let ?buf = "fill_buffer (es_bufferReceived s) b"
  have buf: "take 4 ?buf = bytes_of ''many''" "load_int32_le ?buf 4 = of_nat all" "b \<noteq> []"
    by (rule many_buffer [OF assms(1)])+
  have "\<not> (of_nat (length b) :: uint64) < scast (of_nat all :: int32)"
    using assms(3,4) count_down(1) [of all 0]
    by (simp add: word_less_nat_alt unsigned_of_nat take_bit_nat_eq_self)
  moreover have "bytes_of ''many'' \<noteq> bytes_of ''prot''" by (simp add: bytes_of_inj)
  ultimately show ?thesis
    using assms(2,5) buf short_response(2) [OF assms(4)]
    by (simp add: echo_defs seqM_def bindM_run copy_to_send_run modify_def ret_apply)
qed

text \<open>C37: the transfer of \<^verbatim>\<open>many\<close> bytes over two or more reads. Until all announced bytes have
  arrived nothing is written and the counter is what is missing; the read that completes them writes the
  acknowledgement with the announced size, exactly once, and the session is ready for the next packet.\<close>

theorem many_transfer_acknowledged:
  assumes "first = bytes_of ''many'' @ append_int_vec_char_le [] (of_nat all) @ rest"
    and "sint (es_remainedLengthToReceive s) \<le> 0" and "0 < es_reading s" and "all < 2 ^ 31"
    and "\<forall>b \<in> set bs. b \<noteq> []" and "b' \<noteq> []"
    and "length first + sum_list (map length bs) + length b' = all"
  shows "\<exists>s1 s2. forM (first # bs) (\<lambda>b. on_echo_read (Received b)) s = (Inr (), s1)
    \<and> es_writing s1 = es_writing s
    \<and> sint (es_remainedLengthToReceive s1) = int (all - (length first + sum_list (map length bs)))
    \<and> on_echo_read (Received b') s1 = (Inr (), s2)
    \<and> es_writing s2 = es_writing s @ [length (received_all (of_nat all))]
    \<and> take (length (received_all (of_nat all))) (es_bufferSend s2) = bytes_of (received_all (of_nat all))
    \<and> es_remainedLengthToReceive s2 = 0 \<and> es_allDataSize s2 = 0 \<and> es_reading s2 = es_reading s"
proof -
  have less: "length first < all" "length first + sum_list (map length bs) < all"
    "sum_list (map length bs) < all - length first" "all - length first < 2 ^ 31"
    using assms(4,6,7) by auto
  define s0 where "s0 = snd (on_echo_read (Received first) s)"
  have s0: "on_echo_read (Received first) s = (Inr (), s0)" "es_remainedLengthToReceive s0 = of_nat (all - length first)"
    "es_allDataSize s0 = of_nat all" "es_writing s0 = es_writing s" "es_reading s0 = es_reading s"
    unfolding s0_def using many_header [OF assms(1,2) less(1) assms(4,3)] by simp_all
  let ?k = "all - (length first + sum_list (map length bs))"
  obtain buf where run: "forM bs (\<lambda>b. on_echo_read (Received b)) s0 = (Inr (), s0\<lparr>es_bufferReceived := buf,
      es_remainedLengthToReceive := of_nat ?k\<rparr>)"
    using chunks_pending [OF s0(2) less(3,4) assms(5)] assms(3) s0(5) by (auto simp: diff_diff_left simp del: of_nat_diff)
  have k: "?k = length b'" "length b' < 2 ^ 31" using assms(4,7) by simp_all
  define s1 where "s1 = s0\<lparr>es_bufferReceived := buf, es_remainedLengthToReceive := of_nat (length b')\<rparr>"
  have s1: "es_remainedLengthToReceive s1 = of_nat (length b')" "es_allDataSize s1 = of_nat all"
    "es_writing s1 = es_writing s" "es_reading s1 = es_reading s"
    using s0 by (simp_all add: s1_def)
  have "forM (first # bs) (\<lambda>b. on_echo_read (Received b)) s = (Inr (), s1)"
    using s0(1) run k by (simp add: seqM_def bindM_def s1_def)
  moreover have "sint (es_remainedLengthToReceive s1) = int ?k"
    using k count_down(3) [of "length b'" 0] s1(1) by simp
  ultimately show ?thesis
    using chunk_last [OF s1(1,2) assms(4) k(2) assms(6)] s1 assms(3) by auto
qed

theorem many_transfer_acknowledged_witness:
  "\<exists>s1 s2. forM [bytes_of ''many'' @ append_int_vec_char_le [] 20, replicate 5 1] (\<lambda>b. on_echo_read (Received b))
      (EchoSession_Start (EchoSession_ctor (replicate 64 0) (replicate 1024 0))) = (Inr (), s1)
    \<and> es_writing s1 = [] \<and> on_echo_read (Received (replicate 7 2)) s1 = (Inr (), s2)
    \<and> es_writing s2 = [length (received_all 20)]"
proof -
  let ?s = "EchoSession_Start (EchoSession_ctor (replicate 64 0) (replicate 1024 0))"
  have "sint (es_remainedLengthToReceive ?s) \<le> 0" "0 < es_reading ?s" "es_writing ?s = []"
    by (simp_all add: EchoSession_Start_def do_read_def EchoSession_ctor_def)
  then show ?thesis
    using many_transfer_acknowledged [where s = ?s and all = 20 and rest = "[]" and bs = "[replicate 5 1]"
        and b' = "replicate 7 2", OF refl]
    by auto
qed







text \<open>A line longer than the send array overruns it: \<^verbatim>\<open>AsyncWriteNotify\<close> copies without a test.\<close>

theorem notify_overflows:
  "fst (run_notify msg s) = (if length msg \<le> 1024 then Inr () else Inl (Undefined ''memcpy past _bufferSend''))"
  by (simp add: run_notify_def copy_to_send_def send_max_length_def seqM_def bindM_def raise_def)

end
