(* ===== verification/Spec2Isabelle.thy ===== *)
theory Spec2Isabelle
  imports Util Sha256_Spec Token_Pool Write_Queue Acceptor Server_Properties System_Properties Startup_Properties
    Login_Race Lobby_Properties Room_Properties Async_Properties
begin

text \<open>
  Isolation Server: an authentication server for a game, in C++20 over boost.asio, redis++ and
  protobuf, and the lobby, session, room and first test server that it replaced.

  \<^bold>\<open>The program.\<close> \<^verbatim>\<open>src/src/main.cpp\<close> reads two environment variables, connects to
  Redis, deletes the keys of clients that an earlier run left, and lets an \<^verbatim>\<open>Acceptor\<close> hand each
  connection to a \<^verbatim>\<open>Server\<close> as a \<^verbatim>\<open>ClientSocket\<close>. A client object takes a token from
  \<^verbatim>\<open>TokenPool64\<close>, reads packets (magic, type, total length, message), looks up the closure that the
  server stored for the type, and queues the answers. The server's closures register accounts, log
  clients in and out and report player data; all its state besides the table of connected clients is
  in Redis, under \<^verbatim>\<open>id:\<close>, \<^verbatim>\<open>client:\<close> and \<^verbatim>\<open>logined:\<close> keys. Passwords are stored as
  SHA-256. \<^verbatim>\<open>src/deprecated\<close> holds an older program over the same classes: a \<^verbatim>\<open>LobbyManager\<close> with
  game \<^verbatim>\<open>Session\<close> objects kept in Redis with a time to live, a \<^verbatim>\<open>Room\<close> that broadcasts, and a
  stand-alone asio server (\<^verbatim>\<open>TestAsyncServer.cpp\<close>).

  \<^bold>\<open>How code becomes definitions.\<close> A class is a record, a method a function on it. A method that may
  fault is a computation \<open>('s, 'a) comp\<close> (theory \<open>Prelude\<close>): it returns a value or a \<open>fault\<close>
  (a C++ exception, a call of \<^verbatim>\<open>std::terminate\<close>, undefined behaviour such as the dereference of an
  empty optional) together with the state it leaves. Pointers to objects are references into a heap that is
  part of the state. A \<^verbatim>\<open>std::function\<close> is a value of a datatype of closures with what it captures;
  a \<open>run_\<close> function calls it. An asynchronous operation of asio that has started and not completed is
  counted in the state; its completion handler is a function of its own (\<open>on_read\<close>, \<open>on_write\<close>,
  \<open>on_accept\<close>, \<open>on_refresh_timer\<close>, \<open>on_sync_timer\<close>, \<open>on_echo_read\<close>) and takes the
  outcome of the operation as an argument. Integers have their width: \<open>int32\<close>, \<open>uint64\<close> and
  the casts between them are words, \<^verbatim>\<open>std::map\<close> is an association list in key order
  (\<open>Std_Map\<close>), \<^verbatim>\<open>std::stoi\<close> and \<^verbatim>\<open>std::stoull\<close> are in \<open>Std_Conv\<close>.

  \<^bold>\<open>Parts and theories.\<close>

    \<^item> \<^verbatim>\<open>util.cpp\<close>: \<open>Util\<close>. The packet header reads back; \<open>utf8_length\<close> counts the code points
      of every UTF-8 text and stays within its bounds on any bytes.
    \<^item> \<^verbatim>\<open>sha256.{h,cpp}\<close>: \<open>Sha256\<close> is the code, \<open>Sha256_Constants\<close> the tables of FIPS
      180-4 as fractional bits of roots of primes, \<open>Sha256_Spec\<close> the standard's own definition of the
      hash and the proof that the code computes it, for every message that the 32 bit length counter admits,
      in one update or several.
    \<^item> \<^verbatim>\<open>tokenPool.h\<close>: \<open>Token_Pool\<close>, an instance of the locale \<open>unique_ids\<close>: a token is
      fresh, and a call returns exactly when the engine draws an unused value.
    \<^item> \<^verbatim>\<open>redisInterface.h\<close>, \<^verbatim>\<open>redisService.{h,cpp}\<close>: \<open>Redis_Service\<close>, over the redis++
      client as a record of functions. \<open>Redis_Contract\<close> states what the program relies on of it
      (\<open>redis_backend\<close>; \<open>redis_live\<close> when the connection does not fail) and derives the contract
      \<open>iredis\<close> of the interface; \<open>Redis_Expiry\<close> extends both by keys that expire;
      \<open>Redis_Memory\<close> is an instance.
    \<^item> \<^verbatim>\<open>clientInterface.h\<close>, \<^verbatim>\<open>ClientSocket.{h,cpp}\<close>: \<open>Client_Socket\<close>;
      \<open>Client_Contract\<close> has the contract \<open>iclient\<close> of the interface, shows that the class
      keeps it, and which bytes reach a handler; \<open>Write_Queue\<close> shows what is written when posts,
      completions and failed completions alternate. A write buffer has an identity (its number in the order of
      the posts), so that its release while a write still points to it is a fault of \<open>on_write\<close>.
    \<^item> \<^verbatim>\<open>Server.{h,cpp}\<close>: \<open>Server\<close>, over the two interfaces. \<open>Auth_Spec\<close> is the abstract
      server (accounts, sessions, who is online) with its invariant, \<open>Server_Refines\<close> the simulation
      (locale \<open>auth_server\<close>) of every handler, \<open>Server_Properties\<close> its consequences, and
      \<open>Login_Race\<close> two logins whose steps alternate.
    \<^item> \<^verbatim>\<open>Acceptor.{h,cpp}\<close>: \<open>Acceptor\<close>.
    \<^item> The running program: \<open>System\<close> has the completions that asio may deliver as events and the
      reachable states, \<open>System_Inv\<close> the invariant that ties tables, objects, token pool and Redis together,
      \<open>System_Properties\<close> what follows in every reachable state; \<open>Fixtures\<close> has concrete states for the
      witnesses.
    \<^item> \<^verbatim>\<open>main.cpp\<close>: \<open>Startup\<close> (\<open>main\<close> up to the io threads, \<open>run_program\<close> to the signal, the
      join and the final \<^verbatim>\<open>return 0\<close>) and \<open>Startup_Properties\<close>: every exit, that a successful
      start reaches an initial state of \<open>System\<close>, and a stop followed by a start.
    \<^item> \<^verbatim>\<open>src/deprecated/session.{h,cpp}\<close>: \<open>Session\<close>, the abstract session \<open>Session_Spec\<close> and the
      simulation \<open>Session_Refines\<close> (locale \<open>session_service\<close>).
    \<^item> \<^verbatim>\<open>src/deprecated/lobbyManager.{h,cpp}\<close>: \<open>Lobby_Manager\<close>; \<open>Lobby_Inv\<close> has its
      histories and the invariant of its tables, which needs no contract of Redis or the clients,
      \<open>Lobby_Refines\<close> its requests over the contracts, \<open>Lobby_Properties\<close> the results.
    \<^item> \<^verbatim>\<open>src/deprecated/room.{h,cpp}\<close>: \<open>Room\<close> and \<open>Room_Properties\<close>.
    \<^item> \<^verbatim>\<open>src/deprecated/TestAsyncServer.cpp\<close>: \<open>Async_Server\<close> and \<open>Async_Properties\<close>.
    \<^item> This theory puts start-up and run together.

  \<^bold>\<open>What the properties show.\<close> Refinement: each handler of the server, and the entry of a session, does
  what the abstract operation does, answers with its answer and changes nothing else. Invariants over
  all histories: one client per account, agreement of tables, objects, token pool and Redis, disjoint session
  tables. Safety and liveness: when the clients wait for their answers an orderly completion causes no fault, a
  whole login packet is answered, the write queue does not stall as long as no write fails. Equivalence, round trips and bounds for the pure parts. And where the code falls short,
  a theorem that says exactly how: parallel logins, orphaned logins, a write buffer released in flight when two
  answers are posted before a completion, a read
  shorter than a header, a session above its limit, an environment request after expiry.

  \<^bold>\<open>Assumptions.\<close> The events of \<open>System\<close> and \<open>Lobby_Inv\<close> are handlers that run one after
  another. \<^verbatim>\<open>main\<close> may start several io threads and the server takes a lock only around its table of
  connected clients, so this is an assumption on the schedule: \<open>Login_Race\<close> shows that two logins that
  overlap behave like a sequence when they are to different accounts, and break the invariant of the accounts
  when they are to one. A history of \<open>System\<close> ends with a fault; the safety theorems speak of the
  histories in which no bytes of a client arrive while a write to it is outstanding (\<open>polite_reachable\<close>),
  because the completion that follows two posts releases a buffer in flight. The start-up theorems assume
  \<open>one_page\<close>: the first reply of SCAN, of about ten keys of the whole keyspace, is the last one; the code reads
  no other. No key expires between two commands (\<open>redis_expiring\<close>): expiry is a change between handlers,
  as in \<open>environment_after_expiry\<close>. That the generator of tokens draws no 0 is the range
  \<^verbatim>\<open>{1, UINT64_MAX}\<close> given to the distribution, a hypothesis on the values drawn (\<open>pool_ok\<close>,
  \<open>enabled\<close>). redis++, asio, the generated protobuf code and the old
  client class are parameters; the hypotheses about them are the named locales and \<open>pb_ok\<close> (the message
  types are different), each with a concrete instance. \<^verbatim>\<open>ASSERT\<close> is empty, as in the Release build.
  The server and the lobby outlive their closures.

  \<^bold>\<open>Bounds.\<close> \<open>Scan_loop\<close> is the only loop with fuel; it is called with one unit, and
  \<open>Scan_loop_fuel\<close> shows that more changes nothing. \<open>allocate\<close> works on the finite list of the
  values that the engine draws, and \<open>allocate_returns\<close> says when it returns. The console loop is a
  \<^theory_text>\<open>partial_function\<close> over the loop of the source: \<open>None\<close> is a loop that never ends, and
  \<open>console_ends\<close> says when that is.

  \<^bold>\<open>Not modelled.\<close> Output to the console and \<^verbatim>\<open>print_boost_system_error\<close>, which only prints; the destructors
  at the end of \<^verbatim>\<open>main\<close>, which touch neither Redis nor the outside; bodies that are empty or commented out in the sources; the gtest cases
  and mocks under \<^verbatim>\<open>src/tests\<close>; containers, build files and the Pulumi program under \<^verbatim>\<open>src/infra\<close>;
  memory exhaustion; data races inside one handler other than the two parts of a login.
\<close>

section \<open>The whole program\<close>

text \<open>C1: the program as a whole, from \<^verbatim>\<open>main\<close> to any later moment of a history whose handlers run one
  after another (as on one io thread). Started with a usable environment over a live Redis that holds whole
  accounts and so few keys that the first reply of SCAN is the last one, it reaches the io threads; from then on,
  whatever clients connect, send and drop, no two clients are logged in to the same account; and as long as no bytes of a client
  arrive while a write to it is outstanding, every completion whose system calls succeed and whose read is not
  shorter than a header is handled without a fault.\<close>

theorem program_correct:
  assumes "redis_live R view glob" and "pb_ok pb" and "su_connect su ''redis'' 6379 = Inr R"
    and "su_getenv su ''GIT_COMMIT_SHA'' = Some sha" and "su_getenv su ''ISOLATION_SERVER_LISTENING_PORT'' = Some p"
    and "stoi p = Inr port" and "su_bind_error su = None"
    and "\<forall>i. account_rel (view d (id_key i)) (acc i)" and "one_page R view d"
  shows "\<exists>x n d'. main su d = (Running x n, d')
    \<and> (\<forall>ac w t t' i. reachable pb (RedisService R) x (ac, w)
         \<and> hash_at (view (sv_db (w_server w))) (client_key t) ''loginId'' = Some i
         \<and> hash_at (view (sv_db (w_server w))) (client_key t') ''loginId'' = Some i \<longrightarrow> t = t')
    \<and> (\<forall>x' ev. polite_reachable pb (RedisService R) x x' \<and> enabled ev x' \<and> orderly ev \<and> polite ev x' \<longrightarrow>
         fst (sys_next pb (RedisService R) ev x') = Inr ())"
proof -
  obtain ac w n d' where m: "main su d = (Running (ac, w) n, d')" and i: "sys_init view (ac, w)"
    using startup_init [OF assms(1,3-9)] by blast
  have one: "t = t'" if "reachable pb (RedisService R) (ac, w) (ac', w')"
    and "hash_at (view (sv_db (w_server w'))) (client_key t) ''loginId'' = Some j"
    and "hash_at (view (sv_db (w_server w'))) (client_key t') ''loginId'' = Some j" for ac' w' t t' j
    using redis_live.reachable_session(1) [OF assms(1) that(1) i assms(2), of t j]
      redis_live.reachable_session(1) [OF assms(1) that(1) i assms(2), of t' j] that(2,3) by simp
  have safe: "fst (sys_next pb (RedisService R) ev x') = Inr ()"
    if "polite_reachable pb (RedisService R) (ac, w) x'" "enabled ev x'" "orderly ev" "polite ev x'" for x' ev
    by (rule redis_live.polite_no_fault [OF assms(1) that(1) i assms(2) that(2-4)])
  from m one safe show ?thesis by blast
qed

theorem program_correct_witness:
  "mem_view stale_db (logined_key ''alice'') \<noteq> None
   \<and> (\<exists>x n d'. main test_surroundings stale_db = (Running x n, d')
        \<and> (\<forall>x' ev. polite_reachable test_pb (RedisService mem_redis) x x' \<and> enabled ev x' \<and> orderly ev \<and> polite ev x' \<longrightarrow>
             fst (sys_next test_pb (RedisService mem_redis) ev x') = Inr ()))"
proof -
  have "mem_view stale_db (logined_key ''alice'') \<noteq> None" by (simp add: stale_db_def mem_view_def)
  then show ?thesis
    using program_correct [OF mem.redis_live_axioms test_pb_ok _ _ _ _ _ stale_db_facts(2,1), of test_surroundings
        "''abc''" "to_string_int 70000" 70000]
    by (auto simp: stoi_to_string)
qed

end
